(* ===== verification/Prelude.thy ===== *)
theory Prelude
  imports Main "HOL-Library.AList" "HOL-Library.Char_ord" "HOL-Library.List_Lexorder" "HOL-Library.Product_Lexorder"
begin

text \<open>
  Shared material of the development: the collections of facts the components
  add to, the result type of fallible code, Rust's strings (as lists of Unicode
  scalar values, with their UTF-8 bytes), the ASCII and white-space classes the
  code tests, decimal printing, saturating and checked arithmetic, and generic
  lemmas on lists and options.
\<close>

section \<open>Collections\<close>

named_theorems progress_simps \<open>how far the scanners advance\<close>
named_theorems table_simps \<open>reading a table after a write\<close>
named_theorems step_defs \<open>definitions of atomic steps\<close>

section \<open>Results\<close>

text \<open>\<open>Result<T, E>\<close>: \<open>Inl\<close> is the error, \<open>Inr\<close> the value.\<close>

type_synonym ('e, 'a) result = "'e + 'a"

definition bind_result :: "('e, 'a) result \<Rightarrow> ('a \<Rightarrow> ('e, 'b) result) \<Rightarrow> ('e, 'b) result" where
  "bind_result r f = (case r of Inl e \<Rightarrow> Inl e | Inr a \<Rightarrow> f a)"

lemma bind_result_simps [simp]:
  "bind_result (Inl e) f = Inl e"
  "bind_result (Inr a) f = f a"
  by (simp_all add: bind_result_def)

lemma bind_result_eq_Inr [simp]:
  "bind_result r f = Inr b \<longleftrightarrow> (\<exists>a. r = Inr a \<and> f a = Inr b)"
  by (cases r) auto

section \<open>Text\<close>

text \<open>
  A Rust \<open>String\<close> is a list of Unicode scalar values; \<open>as_bytes\<close> is its UTF-8
  encoding. \<open>lit\<close> turns an ASCII literal into such a list.
\<close>

type_synonym uchar = nat
type_synonym ustr = "uchar list"
type_synonym byte = nat

definition lit :: "string \<Rightarrow> ustr" where
  "lit s = map of_char s"

fun utf8_char :: "uchar \<Rightarrow> byte list" where
  "utf8_char c =
     (if c < 128 then [c]
      else if c < 2048 then [192 + c div 64, 128 + c mod 64]
      else if c < 65536 then [224 + c div 4096, 128 + c div 64 mod 64, 128 + c mod 64]
      else [240 + c div 262144, 128 + c div 4096 mod 64, 128 + c div 64 mod 64, 128 + c mod 64])"

declare utf8_char.simps [simp del]

definition utf8 :: "ustr \<Rightarrow> byte list" where
  "utf8 s = concat (map utf8_char s)"

definition is_ascii_digit :: "nat \<Rightarrow> bool" where
  "is_ascii_digit c \<longleftrightarrow> 48 \<le> c \<and> c \<le> 57"

definition is_ascii_alphabetic :: "nat \<Rightarrow> bool" where
  "is_ascii_alphabetic c \<longleftrightarrow> (65 \<le> c \<and> c \<le> 90) \<or> (97 \<le> c \<and> c \<le> 122)"

definition is_ascii_alphanumeric :: "nat \<Rightarrow> bool" where
  "is_ascii_alphanumeric c \<longleftrightarrow> is_ascii_digit c \<or> is_ascii_alphabetic c"

text \<open>\<open>char::is_whitespace\<close>: the Unicode \<open>White_Space\<close> property.\<close>

definition is_whitespace :: "uchar \<Rightarrow> bool" where
  "is_whitespace c \<longleftrightarrow>
     (9 \<le> c \<and> c \<le> 13) \<or> c = 32 \<or> c = 133 \<or> c = 160 \<or> c = 5760 \<or>
     (8192 \<le> c \<and> c \<le> 8202) \<or> c = 8232 \<or> c = 8233 \<or> c = 8239 \<or> c = 8287 \<or> c = 12288"

definition ascii_lower :: "nat \<Rightarrow> nat" where
  "ascii_lower c = (if 65 \<le> c \<and> c \<le> 90 then c + 32 else c)"

definition eq_ignore_ascii_case :: "nat list \<Rightarrow> nat list \<Rightarrow> bool" where
  "eq_ignore_ascii_case a b \<longleftrightarrow> map ascii_lower a = map ascii_lower b"

definition drop_end_while :: "('a \<Rightarrow> bool) \<Rightarrow> 'a list \<Rightarrow> 'a list" where
  "drop_end_while p xs = rev (dropWhile p (rev xs))"

definition trim :: "ustr \<Rightarrow> ustr" where
  "trim s = drop_end_while is_whitespace (dropWhile is_whitespace s)"

definition ends_with :: "'a list \<Rightarrow> 'a list \<Rightarrow> bool" where
  "ends_with s t \<longleftrightarrow> length t \<le> length s \<and> drop (length s - length t) s = t"

definition starts_with :: "'a list \<Rightarrow> 'a list \<Rightarrow> bool" where
  "starts_with s t \<longleftrightarrow> take (length t) s = t"

definition strip_prefix :: "'a list \<Rightarrow> 'a list \<Rightarrow> 'a list option" where
  "strip_prefix s t = (if starts_with s t then Some (drop (length t) s) else None)"

text \<open>\<open>str::split\<close> on one character: always at least one piece.\<close>

fun split_on :: "'a \<Rightarrow> 'a list \<Rightarrow> 'a list list" where
  "split_on c [] = [[]]"
| "split_on c (x # xs) =
     (if x = c then [] # split_on c xs
      else (case split_on c xs of [] \<Rightarrow> [[x]] | piece # pieces \<Rightarrow> (x # piece) # pieces))"

definition split_once :: "'a \<Rightarrow> 'a list \<Rightarrow> ('a list \<times> 'a list) option" where
  "split_once c s =
     (let front = takeWhile (\<lambda>x. x \<noteq> c) s
      in if length front < length s then Some (front, drop (Suc (length front)) s) else None)"

text \<open>\<open>str::rsplit_once\<close> on one character: the text before and after its last occurrence.\<close>

definition rsplit_once :: "uchar \<Rightarrow> ustr \<Rightarrow> (ustr \<times> ustr) option" where
  "rsplit_once c s =
     (if c \<in> set s
      then (let after = rev (takeWhile (\<lambda>x. x \<noteq> c) (rev s))
            in Some (take (length s - Suc (length after)) s, after))
      else None)"

section \<open>Decimal printing\<close>

fun show_nat :: "nat \<Rightarrow> nat list" where
  "show_nat n = (if n < 10 then [48 + n] else show_nat (n div 10) @ [48 + n mod 10])"

declare show_nat.simps [simp del]

definition show_int :: "int \<Rightarrow> nat list" where
  "show_int i = (if i < 0 then 45 # show_nat (nat (- i)) else show_nat (nat i))"

text \<open>\<open>format!("{n:03}")\<close>.\<close>

definition zero_pad :: "nat \<Rightarrow> nat list \<Rightarrow> nat list" where
  "zero_pad w ds = replicate (w - length ds) 48 @ ds"

text \<open>\<open>str::parse\<close> for an unsigned type whose largest value is the bound.\<close>

definition decimal_value :: "nat list \<Rightarrow> nat" where
  "decimal_value ds = foldl (\<lambda>n d. 10 * n + (d - 48)) 0 ds"

lemma decimal_value_snoc: "decimal_value (ds @ [d]) = 10 * decimal_value ds + (d - 48)"
  by (simp add: decimal_value_def)

lemma decimal_value_show_nat: "decimal_value (show_nat n) = n"
proof (induction n rule: show_nat.induct)
  case (1 n)
  show ?case
  proof (cases "n < 10")
    case True
    then show ?thesis by (simp add: show_nat.simps [of n] decimal_value_def)
  next
    case False
    with 1 show ?thesis by (simp add: show_nat.simps [of n] decimal_value_snoc)
  qed
qed

lemma show_nat_eq_iff: "show_nat m = show_nat n \<longleftrightarrow> m = n"
  by (metis decimal_value_show_nat)

definition parse_unsigned :: "nat \<Rightarrow> ustr \<Rightarrow> nat option" where
  "parse_unsigned bound s =
     (let ds = (case s of [] \<Rightarrow> [] | c # rest \<Rightarrow> if c = 43 then rest else s)
      in if ds \<noteq> [] \<and> list_all is_ascii_digit ds \<and> decimal_value ds \<le> bound
         then Some (decimal_value ds) else None)"

section \<open>Machine integers\<close>

definition I32_MAX :: int where "I32_MAX = 2147483647"
definition I32_MIN :: int where "I32_MIN = -2147483648"

definition i32_wrap :: "int \<Rightarrow> int" where
  "i32_wrap n = (n - I32_MIN) mod 4294967296 + I32_MIN"

definition saturating_add :: "int \<Rightarrow> int \<Rightarrow> int" where
  "saturating_add a b = max I32_MIN (min I32_MAX (a + b))"

definition saturating_sub :: "int \<Rightarrow> int \<Rightarrow> int" where
  "saturating_sub a b = max I32_MIN (min I32_MAX (a - b))"

lemma i32_wrap_id: "I32_MIN \<le> n \<Longrightarrow> n \<le> I32_MAX \<Longrightarrow> i32_wrap n = n"
  by (simp add: i32_wrap_def I32_MIN_def I32_MAX_def)

section \<open>Slices and scans\<close>

definition slice :: "nat \<Rightarrow> nat \<Rightarrow> 'a list \<Rightarrow> 'a list" where
  "slice i j xs = take (j - i) (drop i xs)"

text \<open>\<open>while i < xs.len() && p(xs[i]) { i += 1 }\<close>.\<close>

function skip_while :: "('a \<Rightarrow> bool) \<Rightarrow> 'a list \<Rightarrow> nat \<Rightarrow> nat" where
  "skip_while p xs i = (if i < length xs \<and> p (xs ! i) then skip_while p xs (Suc i) else i)"
  by pat_completeness auto
termination
  by (relation "measure (\<lambda>(p, xs, i). length xs - i)") auto

declare skip_while.simps [simp del]

section \<open>Lemmas\<close>

lemma skip_while_ge [progress_simps]: "i \<le> skip_while p xs i"
proof (induction p xs i rule: skip_while.induct)
  case (1 p xs i)
  then show ?case by (auto simp: skip_while.simps [of p xs i])
qed

lemma skip_while_le_length: "i \<le> length xs \<Longrightarrow> skip_while p xs i \<le> length xs"
proof (induction p xs i rule: skip_while.induct)
  case (1 p xs i)
  then show ?case by (auto simp: skip_while.simps [of p xs i])
qed

lemma skip_while_gt [progress_simps]: "i < length xs \<Longrightarrow> p (xs ! i) \<Longrightarrow> i < skip_while p xs i"
  using skip_while_ge [of "Suc i" p xs] by (simp add: skip_while.simps [of p xs i])

lemma skip_while_eq: "skip_while p xs i = i + length (takeWhile p (drop i xs))"
proof (induction p xs i rule: skip_while.induct)
  case (1 p xs i)
  show ?case
  proof (cases "i < length xs")
    case True
    then have "drop i xs = xs ! i # drop (Suc i) xs" by (simp add: Cons_nth_drop_Suc)
    with 1 True show ?thesis by (auto simp: skip_while.simps [of p xs i])
  next
    case False
    then show ?thesis by (simp add: skip_while.simps [of p xs i])
  qed
qed

lemma slice_skip_while: "slice i (skip_while p xs i) xs = takeWhile p (drop i xs)"
  by (simp add: slice_def skip_while_eq takeWhile_eq_take [symmetric])

lemma find_append:
  "find P (xs @ ys) = (case find P xs of None \<Rightarrow> find P ys | Some x \<Rightarrow> Some x)"
  by (induction xs) auto

lemma set_alist_update:
  "x \<in> set (AList.update k v xs) \<Longrightarrow> x = (k, v) \<or> x \<in> set xs"
  by (induction xs) (auto split: if_splits)

lemma set_alist_delete: "x \<in> set (AList.delete k xs) \<Longrightarrow> x \<in> set xs"
  by (auto simp: AList.delete_eq)

lemma set_alist_map_entry:
  "x \<in> set (AList.map_entry k f xs) \<Longrightarrow> x \<in> set xs \<or> (\<exists>v. (k, v) \<in> set xs \<and> x = (k, f v))"
  by (induction xs) (auto split: if_splits)

lemma filter_length_card:
  "distinct (map fst xs) \<Longrightarrow> length (filter (\<lambda>(_, y). p y) xs) = card {x. \<exists>y. map_of xs x = Some y \<and> p y}"
proof (induction xs)
  case (Cons z xs)
  obtain a b where z: "z = (a, b)" by fastforce
  let ?S = "\<lambda>xs. {x. \<exists>y. map_of xs x = Some y \<and> p y}"
  have "?S xs \<subseteq> fst ` set xs" by (auto dest!: map_of_SomeD intro: rev_image_eqI)
  then have f: "finite (?S xs)" and n: "a \<notin> ?S xs"
    using Cons.prems z by (auto intro: finite_subset)
  have "?S (z # xs) = (if p b then insert a (?S xs) else ?S xs)"
    using n z by (auto split: if_splits)
  with f n Cons z show ?case by simp
qed simp

lemma length_alist_delete_less:
  "k \<in> fst ` set xs \<Longrightarrow> length (AList.delete k xs) < length xs"
  by (induction xs) (auto simp: le_imp_less_Suc length_delete_le)

lemma length_alist_update:
  "length (AList.update k v xs) = (if k \<in> fst ` set xs then length xs else Suc (length xs))"
  by (induction xs) auto

lemma set_alist_update_distinct:
  "distinct (map fst xs) \<Longrightarrow> x \<in> set (AList.update k v xs) \<Longrightarrow> x = (k, v) \<or> x \<in> set xs \<and> fst x \<noteq> k"
  by (induction xs) (auto split: if_splits intro: rev_image_eqI)

lemma map_of_None_fst: "map_of xs k = None \<longleftrightarrow> k \<notin> fst ` set xs"
  by (simp add: map_of_eq_None_iff)

text \<open>\<open>slice::chunks\<close>: pieces of the given length, the last one possibly shorter.\<close>

function chunks :: "nat \<Rightarrow> 'a list \<Rightarrow> 'a list list" where
  "chunks n xs = (if xs = [] \<or> n = 0 then [] else take n xs # chunks n (drop n xs))"
  by auto
termination by (relation "measure (\<lambda>(n, xs). length xs)") auto

declare chunks.simps [simp del]

lemma concat_chunks: "0 < n \<Longrightarrow> concat (chunks n xs) = xs"
proof (induction n xs rule: chunks.induct)
  case (1 n xs)
  then show ?case by (cases "xs = []") (simp add: chunks.simps, simp add: chunks.simps [of n xs])
qed

lemma fold_chunks: "0 < n \<Longrightarrow> fold (fold f) (chunks n xs) s = fold f xs s"
proof (induction n xs arbitrary: s rule: chunks.induct)
  case (1 n xs)
  show ?case
  proof (cases "xs = []")
    case False
    with 1 have "fold (fold f) (chunks n xs) s = fold f (drop n xs) (fold f (take n xs) s)"
      by (simp add: chunks.simps [of n xs])
    also have "\<dots> = fold f xs s" by (metis append_take_drop_id comp_apply fold_append)
    finally show ?thesis .
  qed (simp add: chunks.simps)
qed

section \<open>Splitting\<close>

lemma split_on_nonempty [simp]: "split_on c xs \<noteq> []"
  by (induction xs) (auto split: list.splits)

lemma split_on_append: "split_on c (xs @ c # ys) = split_on c xs @ split_on c ys"
  by (induction xs) (auto split: list.splits)

lemma split_on_none: "c \<notin> set xs \<Longrightarrow> split_on c xs = [xs]"
  by (induction xs) auto

end
