(* ===== verification/Sequence.thy ===== *)
theory Sequence
  imports Prelude
begin

text \<open>
  \<^verbatim>\<open>crates/scanner/src/sequence.rs\<close>: chapter and volume numbers read from file
  names, and the gaps of a folder.
\<close>

section \<open>Data\<close>

definition MAX_RANGE_LEN :: int where
  "MAX_RANGE_LEN = 500"

definition MAX_SEQUENCE_SPAN :: int where
  "MAX_SEQUENCE_SPAN = 10000"

datatype sequence_kind = Chapter | Volume

text \<open>A sequence number is a count of thousandths; \<open>derive(Ord)\<close> compares the count.\<close>

datatype sequence_number = SequenceNumber (thousandths: int)

instantiation sequence_number :: linorder
begin

definition less_eq_sequence_number :: "sequence_number \<Rightarrow> sequence_number \<Rightarrow> bool" where
  "less_eq_sequence_number a b \<longleftrightarrow> thousandths a \<le> thousandths b"

definition less_sequence_number :: "sequence_number \<Rightarrow> sequence_number \<Rightarrow> bool" where
  "less_sequence_number a b \<longleftrightarrow> thousandths a < thousandths b"

instance
  by standard
    (auto simp: less_eq_sequence_number_def less_sequence_number_def sequence_number.expand)

end

definition SCALE :: int where
  "SCALE = 1000"

definition from_integer :: "int \<Rightarrow> sequence_number" where
  "from_integer v = SequenceNumber (v * SCALE)"

definition integer_part :: "sequence_number \<Rightarrow> int" where
  "integer_part n = thousandths n div SCALE"

definition is_integer :: "sequence_number \<Rightarrow> bool" where
  "is_integer n \<longleftrightarrow> thousandths n mod SCALE = 0"

definition show_number :: "sequence_number \<Rightarrow> nat list" where
  "show_number n =
     (let whole = integer_part n; fraction = thousandths n mod SCALE
      in if fraction = 0 then show_int whole
         else show_int whole @ [46] @
              drop_end_while (\<lambda>c. c = 48) (zero_pad 3 (show_nat (nat fraction))))"

record sequence_range =
  range_start :: int
  range_end :: int

definition show_range :: "sequence_range \<Rightarrow> nat list" where
  "show_range r =
     (if range_start r = range_end r then show_int (range_start r)
      else show_int (range_start r) @ [45] @ show_int (range_end r))"

datatype sequence_source = Identifier | Fallback | Unidentified

record parsed_identifier =
  pi_kind :: sequence_kind
  pi_start :: sequence_number
  pi_end :: sequence_number

record sequence_entry =
  entry_name :: ustr
  entry_kind :: "sequence_kind option"
  entry_source :: sequence_source
  entry_span :: "(sequence_number \<times> sequence_number) option"

record sequence_analysis =
  an_kind :: "sequence_kind option"
  an_source :: sequence_source
  entries :: "sequence_entry list"
  found_ranges :: "sequence_range list"
  missing :: "int list"
  decimals :: "sequence_number list"
  unidentified :: "ustr list"
  span_exceeded :: bool

section \<open>Cleaning a file name\<close>

fun push_space :: "ustr \<Rightarrow> ustr" where
  "push_space cleaned = (if cleaned \<noteq> [] \<and> last cleaned \<noteq> 32 then cleaned @ [32] else cleaned)"

definition strip_extension :: "ustr \<Rightarrow> ustr" where
  "strip_extension name =
     (case rsplit_once 46 name of
        Some (stem, extension) \<Rightarrow>
          if stem \<noteq> [] \<and> 1 \<le> length (utf8 extension) \<and> length (utf8 extension) \<le> 5
             \<and> list_all is_ascii_alphanumeric extension
             \<and> list_ex is_ascii_alphabetic extension
          then stem else name
      | None \<Rightarrow> name)"

text \<open>The loop over the stem: bracket depth and the text kept so far.\<close>

fun clean_loop :: "ustr \<Rightarrow> nat \<Rightarrow> ustr \<Rightarrow> ustr" where
  "clean_loop [] depth cleaned = cleaned"
| "clean_loop (c # cs) depth cleaned =
     (if c = 40 \<or> c = 91 then clean_loop cs (Suc depth) (push_space cleaned)
      else if c = 41 \<or> c = 93 then clean_loop cs (depth - 1) (push_space cleaned)
      else if depth > 0 then clean_loop cs depth cleaned
      else if is_whitespace c \<or> c = 95 then clean_loop cs depth (push_space cleaned)
      else clean_loop cs depth (cleaned @ [c]))"

definition clean_name :: "ustr \<Rightarrow> ustr" where
  "clean_name file_name =
     (let name = trim (rev (takeWhile (\<lambda>c. c \<noteq> 47 \<and> c \<noteq> 92) (rev file_name)))
      in drop_end_while (\<lambda>c. c = 32) (clean_loop (strip_extension name) 0 []))"

section \<open>Tokens\<close>

datatype token =
    Word nat nat
  | Number sequence_number sequence_number

text \<open>The fraction digits: three are used, the scale reaches 0 after them.\<close>

fun add_fraction :: "byte list \<Rightarrow> int \<Rightarrow> int \<Rightarrow> int" where
  "add_fraction [] scale number = number"
| "add_fraction (b # bs) scale number =
     (if scale = 0 then number
      else add_fraction bs (scale div 10) (number + (int b - 48) * scale))"

definition digits_value :: "byte list \<Rightarrow> int" where
  "digits_value ds = foldl (\<lambda>v b. v * 10 + (int b - 48)) 0 ds"

definition scan_decimal :: "byte list \<Rightarrow> nat \<Rightarrow> sequence_number option \<times> nat" where
  "scan_decimal bytes start =
     (let index = skip_while is_ascii_digit bytes start
      in if index = start then (None, index)
         else if index - start > 9 then (None, index)
         else
           let number = digits_value (slice start index bytes) * SCALE
           in if index + 1 < length bytes \<and> bytes ! index = 46
                 \<and> is_ascii_digit (bytes ! (index + 1))
              then
                let fraction_start = index + 1;
                    stop = skip_while is_ascii_digit bytes fraction_start
                in (Some (SequenceNumber
                      (add_fraction (slice fraction_start stop bytes) (SCALE div 10) number)), stop)
              else (Some (SequenceNumber number), index))"

definition scan_span :: "byte list \<Rightarrow> nat \<Rightarrow> (sequence_number \<times> sequence_number) option \<times> nat" where
  "scan_span bytes index =
     (case scan_decimal bytes index of
        (None, after_start) \<Rightarrow> (None, after_start)
      | (Some start, after_start) \<Rightarrow>
          let probe = skip_while (\<lambda>b. b = 32) bytes after_start
          in if probe < length bytes \<and> (bytes ! probe = 45 \<or> bytes ! probe = 126)
             then
               let probe = skip_while (\<lambda>b. b = 32) bytes (probe + 1)
               in (case scan_decimal bytes probe of
                     (Some stop, after_end) \<Rightarrow>
                       if stop \<ge> start \<and> integer_part stop - integer_part start \<le> MAX_RANGE_LEN
                       then (Some (start, stop), after_end)
                       else (Some (start, start), after_start)
                   | (None, _) \<Rightarrow> (Some (start, start), after_start))
             else (Some (start, start), after_start))"

function tokenize_from :: "byte list \<Rightarrow> nat \<Rightarrow> token list" where
  "tokenize_from bytes index =
     (if index < length bytes
      then
        (if is_ascii_alphabetic (bytes ! index)
         then (let stop = skip_while is_ascii_alphabetic bytes index
               in Word index stop # tokenize_from bytes stop)
         else if is_ascii_digit (bytes ! index)
         then (case scan_span bytes index of
                 (span, next) \<Rightarrow>
                   (case span of Some (start, stop) \<Rightarrow> [Number start stop] | None \<Rightarrow> [])
                   @ tokenize_from bytes (max next (index + 1)))
         else tokenize_from bytes (index + 1))
      else [])"
  by pat_completeness auto
termination
proof (relation "measure (\<lambda>(bytes, index). length bytes - index)", goal_cases)
  case (2 bytes index stop)
  then have "index < stop" by (simp add: skip_while_gt)
  with 2 show ?case by simp
qed auto

declare tokenize_from.simps [simp del]

definition tokenize :: "ustr \<Rightarrow> token list" where
  "tokenize cleaned = tokenize_from (utf8 cleaned) 0"


section \<open>Identifiers\<close>

definition identifier_kind :: "byte list \<Rightarrow> sequence_kind option" where
  "identifier_kind word =
     (if list_ex (eq_ignore_ascii_case word)
           (map lit [''chapter'', ''chap'', ''ch'', ''c'', ''episode'', ''ep''])
      then Some Chapter
      else if list_ex (eq_ignore_ascii_case word) (map lit [''volume'', ''vol'', ''v''])
      then Some Volume
      else None)"

text \<open>The candidate a token gives with the token after it, before the ranking.\<close>

fun candidate :: "byte list \<Rightarrow> sequence_kind option \<Rightarrow> token \<Rightarrow> token list \<Rightarrow> parsed_identifier option" where
  "candidate cleaned only (Word start stop) (Number n m # _) =
     (case identifier_kind (slice start stop cleaned) of
        Some kind \<Rightarrow>
          if only = None \<or> only = Some kind
          then Some \<lparr>pi_kind = kind, pi_start = n, pi_end = m\<rparr> else None
      | None \<Rightarrow> None)"
| "candidate _ _ _ _ = None"

fun best_loop ::
  "byte list \<Rightarrow> sequence_kind option \<Rightarrow> token list \<Rightarrow> parsed_identifier option \<Rightarrow> parsed_identifier option" where
  "best_loop cleaned only [] best = best"
| "best_loop cleaned only (t # ts) best =
     (case candidate cleaned only t ts of
        None \<Rightarrow> best_loop cleaned only ts best
      | Some new \<Rightarrow>
          best_loop cleaned only ts
            (case best of
               Some previous \<Rightarrow>
                 if pi_kind previous = Chapter \<and> pi_kind new = Volume
                 then Some previous else Some new
             | None \<Rightarrow> Some new))"

definition best_identifier :: "ustr \<Rightarrow> sequence_kind option \<Rightarrow> parsed_identifier option" where
  "best_identifier cleaned only = best_loop (utf8 cleaned) only (tokenize cleaned) None"

definition parse_identifier :: "ustr \<Rightarrow> parsed_identifier option" where
  "parse_identifier file_name = best_identifier (clean_name file_name) None"

definition parse_identifier_of :: "ustr \<Rightarrow> sequence_kind \<Rightarrow> parsed_identifier option" where
  "parse_identifier_of file_name kind = best_identifier (clean_name file_name) (Some kind)"

section \<open>Groups of names\<close>

fun folder_kind_loop :: "parsed_identifier option list \<Rightarrow> sequence_kind option \<Rightarrow> sequence_kind option" where
  "folder_kind_loop [] volume = volume"
| "folder_kind_loop (None # is) volume = folder_kind_loop is volume"
| "folder_kind_loop (Some i # is) volume =
     (case pi_kind i of
        Chapter \<Rightarrow> Some Chapter
      | Volume \<Rightarrow> folder_kind_loop is (Some Volume))"

definition folder_kind :: "parsed_identifier option list \<Rightarrow> sequence_kind option" where
  "folder_kind is = folder_kind_loop is None"

definition unidentified_entry :: "ustr \<Rightarrow> sequence_entry" where
  "unidentified_entry name =
     \<lparr>entry_name = name, entry_kind = None, entry_source = Unidentified, entry_span = None\<rparr>"

definition identifier_entries ::
  "ustr list \<Rightarrow> parsed_identifier option list \<Rightarrow> sequence_kind \<Rightarrow> sequence_entry list" where
  "identifier_entries file_names identifiers kind =
     map (\<lambda>(name, identifier).
            case identifier of
              Some i \<Rightarrow>
                if pi_kind i = kind
                then \<lparr>entry_name = name, entry_kind = Some kind, entry_source = Identifier,
                      entry_span = Some (pi_start i, pi_end i)\<rparr>
                else unidentified_entry name
            | None \<Rightarrow> unidentified_entry name)
         (zip file_names identifiers)"

definition numbers_in :: "ustr \<Rightarrow> (sequence_number \<times> sequence_number) list" where
  "numbers_in cleaned =
     List.map_filter
       (\<lambda>t. case t of Number start stop \<Rightarrow> Some (start, stop) | Word _ _ \<Rightarrow> None)
       (tokenize cleaned)"

text \<open>\<open>numbers.len().checked_sub(position + 1).and_then(|i| numbers.get(i))\<close>.\<close>

definition nth_from_right :: "'a list \<Rightarrow> nat \<Rightarrow> 'a option" where
  "nth_from_right xs position =
     (if position + 1 \<le> length xs then Some (xs ! (length xs - (position + 1))) else None)"

text \<open>The distinct first numbers and the coverage of one position.\<close>

definition position_score ::
  "(sequence_number \<times> sequence_number) list list \<Rightarrow> nat \<Rightarrow> nat \<times> nat" where
  "position_score spans position =
     (let starts = map (thousandths \<circ> fst)
                     (List.map_filter (\<lambda>numbers. nth_from_right numbers position) spans)
      in (length (remdups starts), length starts))"

fun changing_loop ::
  "(sequence_number \<times> sequence_number) list list \<Rightarrow> nat list \<Rightarrow> (nat \<times> nat \<times> nat) option
     \<Rightarrow> (nat \<times> nat \<times> nat) option" where
  "changing_loop spans [] best = best"
| "changing_loop spans (position # rest) best =
     (case position_score spans position of
        (uniq, coverage) \<Rightarrow>
          if coverage = 0 then changing_loop spans rest best
          else changing_loop spans rest
            (case best of
               Some (d, c, p) \<Rightarrow>
                 if (d, c) \<ge> (uniq, coverage)
                 then Some (d, c, p) else Some (uniq, coverage, position)
             | None \<Rightarrow> Some (uniq, coverage, position)))"

definition changing_position :: "(sequence_number \<times> sequence_number) list list \<Rightarrow> nat option" where
  "changing_position spans =
     (let longest = fold max (map length spans) 0
      in map_option (\<lambda>(_, _, position). position) (changing_loop spans [0..<longest] None))"

definition fallback_entries :: "ustr list \<Rightarrow> ustr list \<Rightarrow> sequence_entry list" where
  "fallback_entries file_names cleaned =
     (let spans = map numbers_in cleaned
      in case changing_position spans of
           None \<Rightarrow> map unidentified_entry file_names
         | Some position \<Rightarrow>
             map (\<lambda>(name, numbers).
                    case nth_from_right numbers position of
                      Some span \<Rightarrow>
                        \<lparr>entry_name = name, entry_kind = None, entry_source = Fallback,
                         entry_span = Some span\<rparr>
                    | None \<Rightarrow> unidentified_entry name)
                 (zip file_names spans))"

section \<open>Gaps\<close>

text \<open>Ranges are extended at the end of the vector.\<close>

fun to_ranges_loop :: "int list \<Rightarrow> sequence_range list \<Rightarrow> sequence_range list" where
  "to_ranges_loop [] ranges = ranges"
| "to_ranges_loop (value # values) ranges =
     (if ranges \<noteq> [] \<and> range_end (last ranges) + 1 = value
      then to_ranges_loop values (butlast ranges @ [(last ranges)\<lparr>range_end := value\<rparr>])
      else to_ranges_loop values (ranges @ [\<lparr>range_start = value, range_end = value\<rparr>]))"

definition to_ranges :: "int list \<Rightarrow> sequence_range list" where
  "to_ranges values = to_ranges_loop values []"

text \<open>The covered integers (a \<open>BTreeSet\<close>: ascending, without repetition) and the decimals of the entries.\<close>

fun cover_loop ::
  "sequence_entry list \<Rightarrow> int list \<Rightarrow> sequence_number list \<Rightarrow> int list \<times> sequence_number list" where
  "cover_loop [] covered decs = (covered, decs)"
| "cover_loop (e # es) covered decs =
     (case entry_span e of
        None \<Rightarrow> cover_loop es covered decs
      | Some (start, stop) \<Rightarrow>
          cover_loop es
            (fold insort_insert [integer_part start .. integer_part stop] covered)
            (decs @ (if is_integer start then [] else [start])
                  @ (if stop \<noteq> start \<and> \<not> is_integer stop then [stop] else [])))"

definition fill_gaps :: "sequence_analysis \<Rightarrow> sequence_analysis" where
  "fill_gaps analysis =
     (case cover_loop (entries analysis) [] (decimals analysis) of
        (covered, decs) \<Rightarrow>
          let analysis = analysis\<lparr>decimals := remdups_adj (sort decs)\<rparr>
          in if covered = [] then analysis
             else
               let lowest = hd covered; highest = last covered;
                   analysis = analysis\<lparr>found_ranges := to_ranges covered\<rparr>
               in if highest - lowest > MAX_SEQUENCE_SPAN
                  then analysis\<lparr>span_exceeded := True\<rparr>
                  else analysis\<lparr>missing := filter (\<lambda>v. v \<notin> set covered) [lowest..highest]\<rparr>)"

definition analyze_sequence :: "ustr list \<Rightarrow> sequence_analysis" where
  "analyze_sequence file_names =
     (let cleaned = map clean_name file_names;
          identifiers = map (\<lambda>name. best_identifier name None) cleaned;
          kind = folder_kind identifiers;
          es = (case kind of
                  Some k \<Rightarrow> identifier_entries file_names identifiers k
                | None \<Rightarrow> fallback_entries file_names cleaned);
          source = (case find (\<lambda>s. s \<noteq> Unidentified) (map entry_source es) of
                      Some s \<Rightarrow> s | None \<Rightarrow> Unidentified)
      in fill_gaps
           \<lparr>an_kind = kind, an_source = source, entries = es, found_ranges = [], missing = [],
            decimals = [], unidentified = map entry_name (filter (\<lambda>e. entry_span e = None) es),
            span_exceeded = False\<rparr>)"

section \<open>Reports\<close>

definition has_gaps :: "sequence_analysis \<Rightarrow> bool" where
  "has_gaps a \<longleftrightarrow> missing a \<noteq> []"

definition found_ranges_display :: "sequence_analysis \<Rightarrow> nat list list" where
  "found_ranges_display a = map show_range (found_ranges a)"

fun join :: "nat list \<Rightarrow> nat list list \<Rightarrow> nat list" where
  "join sep [] = []"
| "join sep [x] = x"
| "join sep (x # y # ys) = x @ sep @ join sep (y # ys)"

definition missing_summary :: "sequence_analysis \<Rightarrow> nat list" where
  "missing_summary a = join (lit '', '') (map show_range (to_ranges (missing a)))"

definition identified_count :: "sequence_analysis \<Rightarrow> nat" where
  "identified_count a = length (filter (\<lambda>e. entry_span e \<noteq> None) (entries a))"

section \<open>Lemmas: ranges\<close>

definition range_values :: "sequence_range \<Rightarrow> int list" where
  "range_values r = [range_start r .. range_end r]"

definition separated :: "sequence_range list \<Rightarrow> bool" where
  "separated rs \<longleftrightarrow> list_all (\<lambda>r. range_start r \<le> range_end r) rs
     \<and> sorted_wrt (\<lambda>r s. range_end r + 1 < range_start s) rs"

lemma range_values_single [simp]: "range_values \<lparr>range_start = v, range_end = v\<rparr> = [v]"
  by (simp add: range_values_def)

lemma range_values_extend:
  "range_start r \<le> range_end r \<Longrightarrow>
   range_values (r\<lparr>range_end := range_end r + 1\<rparr>) = range_values r @ [range_end r + 1]"
  by (simp add: range_values_def upto_rec2)

lemma to_ranges_loop_spec:
  assumes "separated rs" and "sorted_wrt (<) vs"
    and "rs \<noteq> [] \<Longrightarrow> list_all (\<lambda>v. range_end (last rs) < v) vs"
  shows "concat (map range_values (to_ranges_loop vs rs)) = concat (map range_values rs) @ vs
         \<and> separated (to_ranges_loop vs rs)"
  using assms
proof (induction vs rs rule: to_ranges_loop.induct)
  case (1 rs)
  then show ?case by simp
next
  case (2 v vs rs)
  show ?case
  proof (cases "rs \<noteq> [] \<and> range_end (last rs) + 1 = v")
    case True
    then obtain pre r where rs: "rs = pre @ [r]" by (metis append_butlast_last_id)
    let ?rs = "pre @ [r\<lparr>range_end := v\<rparr>]"
    from True rs have v: "v = range_end r + 1" by simp
    from "2.prems"(1) rs v have sep: "separated ?rs"
      by (auto simp: separated_def sorted_wrt_append list_all_iff)
    from "2.prems"(2) have "sorted_wrt (<) vs" and "list_all (\<lambda>w. range_end (last ?rs) < w) vs"
      by (auto simp: list_all_iff)
    with True rs sep "2.IH"(1) have
      "concat (map range_values (to_ranges_loop vs ?rs)) = concat (map range_values ?rs) @ vs
       \<and> separated (to_ranges_loop vs ?rs)" by simp
    with True rs v "2.prems"(1) show ?thesis
      by (simp add: range_values_extend separated_def)
  next
    case False
    let ?rs = "rs @ [\<lparr>range_start = v, range_end = v\<rparr>]"
    have "sorted_wrt (\<lambda>r s. range_end r + 1 < range_start s) ?rs"
    proof (cases "rs = []")
      case True
      then show ?thesis by simp
    next
      case ne: False
      then obtain pre r where rs: "rs = pre @ [r]" by (metis append_butlast_last_id)
      with False "2.prems"(3) have "range_end r + 1 < v" by auto
      with rs "2.prems"(1) show ?thesis
        by (fastforce simp: separated_def sorted_wrt_append list_all_iff)
    qed
    with "2.prems"(1) have sep: "separated ?rs" by (simp add: separated_def)
    from "2.prems"(2) have "sorted_wrt (<) vs" and "list_all (\<lambda>w. range_end (last ?rs) < w) vs"
      by (auto simp: list_all_iff)
    with False sep "2.IH"(2) have
      "concat (map range_values (to_ranges_loop vs ?rs)) = concat (map range_values ?rs) @ vs
       \<and> separated (to_ranges_loop vs ?rs)" by simp
    with False show ?thesis by auto
  qed
qed

lemma to_ranges_spec:
  assumes "sorted_wrt (<) vs"
  shows "concat (map range_values (to_ranges vs)) = vs" and "separated (to_ranges vs)"
  using to_ranges_loop_spec [of "[]" vs] assms by (simp_all add: to_ranges_def separated_def)

section \<open>Lemmas: covered integers and gaps\<close>

definition covered_by :: "sequence_entry list \<Rightarrow> int set" where
  "covered_by es = {v. \<exists>e \<in> set es. \<exists>a b. entry_span e = Some (a, b)
                        \<and> integer_part a \<le> v \<and> v \<le> integer_part b}"

lemma fold_insort_insert:
  assumes "sorted ys" and "distinct ys"
  shows "sorted (fold insort_insert xs ys) \<and> distinct (fold insort_insert xs ys)
    \<and> set (fold insort_insert xs ys) = set xs \<union> set ys"
  using assms
  by (induction xs arbitrary: ys)
    (auto simp: sorted_insort_insert distinct_insort_insert set_insort_insert)

lemma cover_loop_covered:
  assumes "sorted cov" and "distinct cov"
  shows "sorted (fst (cover_loop es cov decs)) \<and> distinct (fst (cover_loop es cov decs))
    \<and> set (fst (cover_loop es cov decs)) = covered_by es \<union> set cov"
  using assms
proof (induction es cov decs rule: cover_loop.induct)
  case (1 cov decs)
  then show ?case by (simp add: covered_by_def)
next
  case (2 e es cov decs)
  show ?case
  proof (cases "entry_span e")
    case None
    with 2 show ?thesis by (auto simp: covered_by_def)
  next
    case (Some span)
    obtain a b where span: "span = (a, b)" by (cases span)
    let ?cov = "fold insort_insert [integer_part a .. integer_part b] cov"
    have "sorted ?cov" "distinct ?cov"
      "set ?cov = {integer_part a .. integer_part b} \<union> set cov"
      using fold_insort_insert [OF "2.prems"] by auto
    moreover from Some span have
      "covered_by (e # es) = {integer_part a .. integer_part b} \<union> covered_by es"
      by (auto simp: covered_by_def)
    ultimately show ?thesis using "2.IH"(2) Some span by auto
  qed
qed

lemma fill_gaps_spec:
  assumes "missing a0 = []" and "found_ranges a0 = []" and "\<not> span_exceeded a0"
  defines "a \<equiv> fill_gaps a0" and "C \<equiv> covered_by (entries a0)"
  shows "entries a = entries a0"
    and "(\<Union>r \<in> set (found_ranges a). {range_start r .. range_end r}) = C"
    and "separated (found_ranges a)"
    and "span_exceeded a \<longleftrightarrow> (\<exists>lo \<in> C. \<exists>hi \<in> C. hi - lo > MAX_SEQUENCE_SPAN)"
    and "span_exceeded a \<Longrightarrow> missing a = []"
    and "\<not> span_exceeded a \<Longrightarrow>
      set (missing a) = {v. v \<notin> C \<and> (\<exists>lo \<in> C. lo < v) \<and> (\<exists>hi \<in> C. v < hi)}"
    and "sorted_wrt (<) (missing a)"
proof -
  obtain cov decs where cl: "cover_loop (entries a0) [] (decimals a0) = (cov, decs)"
    by fastforce
  have cov: "sorted cov" "distinct cov" "set cov = C"
    using cover_loop_covered [of "[]" "entries a0" "decimals a0"] cl by (auto simp: C_def)
  have strict: "sorted_wrt (<) cov" using cov by (simp add: strict_sorted_iff)
  have ends: "cov \<noteq> [] \<Longrightarrow> hd cov \<in> C \<and> last cov \<in> C
      \<and> (\<forall>v \<in> C. hd cov \<le> v \<and> v \<le> last cov)"
  proof -
    assume ne: "cov \<noteq> []"
    have "hd cov \<le> v \<and> v \<le> last cov" if "v \<in> C" for v
    proof -
      from that cov(3) obtain i where i: "i < length cov" "cov ! i = v"
        by (metis in_set_conv_nth)
      have "cov ! 0 \<le> cov ! i" and "cov ! i \<le> cov ! (length cov - 1)"
        using cov(1) i(1) by (auto intro: sorted_nth_mono)
      with ne i show ?thesis by (simp add: hd_conv_nth last_conv_nth)
    qed
    with ne cov(3) show ?thesis by force
  qed
  show "entries a = entries a0"
    by (simp add: a_def fill_gaps_def cl Let_def)
  have fr: "found_ranges a = to_ranges cov"
    using assms(2) by (simp add: a_def fill_gaps_def cl Let_def to_ranges_def)
  have "set (concat (map range_values (to_ranges cov))) = C"
    using to_ranges_spec(1) [OF strict] cov(3) by simp
  then show "(\<Union>r \<in> set (found_ranges a). {range_start r .. range_end r}) = C"
    by (simp add: fr range_values_def)
  show "separated (found_ranges a)"
    using to_ranges_spec(2) [OF strict] by (simp add: fr)
  show ex: "span_exceeded a \<longleftrightarrow> (\<exists>lo \<in> C. \<exists>hi \<in> C. hi - lo > MAX_SEQUENCE_SPAN)"
  proof (cases "cov = []")
    case True
    with assms(3) cov(3) show ?thesis
      by (simp add: a_def fill_gaps_def cl Let_def)
  next
    case False
    have "span_exceeded a \<longleftrightarrow> last cov - hd cov > MAX_SEQUENCE_SPAN"
      using assms(3) False by (simp add: a_def fill_gaps_def cl Let_def)
    also have "\<dots> \<longleftrightarrow> (\<exists>lo \<in> C. \<exists>hi \<in> C. hi - lo > MAX_SEQUENCE_SPAN)"
    proof
      assume "\<exists>lo \<in> C. \<exists>hi \<in> C. hi - lo > MAX_SEQUENCE_SPAN"
      then obtain lo hi where "lo \<in> C" "hi \<in> C" "hi - lo > MAX_SEQUENCE_SPAN" by blast
      moreover from calculation ends [OF False] have "hd cov \<le> lo" "hi \<le> last cov" by auto
      ultimately show "last cov - hd cov > MAX_SEQUENCE_SPAN" by linarith
    qed (use ends [OF False] in blast)
    finally show ?thesis .
  qed
  show "span_exceeded a \<Longrightarrow> missing a = []"
    using assms(1,3) by (auto simp: a_def fill_gaps_def cl Let_def split: if_splits)
  show "sorted_wrt (<) (missing a)"
    using assms(1)
    by (auto simp: a_def fill_gaps_def cl Let_def sorted_wrt_filter)
  assume ne: "\<not> span_exceeded a"
  show "set (missing a) = {v. v \<notin> C \<and> (\<exists>lo \<in> C. lo < v) \<and> (\<exists>hi \<in> C. v < hi)}"
  proof (cases "cov = []")
    case True
    with assms(1) cov(3) show ?thesis by (simp add: a_def fill_gaps_def cl Let_def)
  next
    case False
    with ne have "missing a = filter (\<lambda>v. v \<notin> set cov) [hd cov..last cov]"
      by (auto simp: a_def fill_gaps_def cl Let_def split: if_splits)
    then have "set (missing a) = {v. v \<notin> C \<and> hd cov \<le> v \<and> v \<le> last cov}"
      using cov(3) by auto
    also have "\<dots> = {v. v \<notin> C \<and> (\<exists>lo \<in> C. lo < v) \<and> (\<exists>hi \<in> C. v < hi)}"
      using ends [OF False] by (fastforce simp: order_less_le)
    finally show ?thesis .
  qed
qed

section \<open>Lemmas: scanned numbers\<close>

lemma digits_value_snoc [simp]: "digits_value (ds @ [d]) = digits_value ds * 10 + (int d - 48)"
  by (simp add: digits_value_def)

lemma digits_value_bounds:
  "list_all is_ascii_digit ds \<Longrightarrow> 0 \<le> digits_value ds \<and> digits_value ds < 10 ^ length ds"
proof (induction ds rule: rev_induct)
  case Nil
  then show ?case by (simp add: digits_value_def)
next
  case (snoc d ds)
  then have "0 \<le> digits_value ds" "digits_value ds + 1 \<le> 10 ^ length ds" "48 \<le> d" "d \<le> 57"
    by (auto simp: is_ascii_digit_def)
  then show ?case by simp
qed

lemma add_fraction_bounds:
  assumes "list_all is_ascii_digit ds"
  shows "n \<le> add_fraction ds 100 n \<and> add_fraction ds 100 n \<le> n + 999"
proof -
  have one: "0 \<le> int d - 48 \<and> int d - 48 \<le> 9" if "is_ascii_digit d" for d
    using that by (auto simp: is_ascii_digit_def)
  have zero: "add_fraction es 0 m = m" for es m by (cases es) auto
  show ?thesis
  proof (cases ds)
    case (Cons a ds')
    note a = this
    with one [of a] assms have ra: "0 \<le> int a - 48 \<and> int a - 48 \<le> 9" by simp
    show ?thesis
    proof (cases ds')
      case (Cons b ds'')
      note b = this
      with one [of b] assms a have rb: "0 \<le> int b - 48 \<and> int b - 48 \<le> 9" by simp
      show ?thesis
      proof (cases ds'')
        case (Cons c ds''')
        with one [of c] assms a b have "0 \<le> int c - 48 \<and> int c - 48 \<le> 9" by simp
        with a b Cons ra rb show ?thesis by (simp add: zero)
      qed (use a b ra rb in simp)
    qed (use a ra in simp)
  qed simp
qed

lemma list_all_takeWhile: "list_all p (takeWhile p xs)"
  by (auto simp: list_all_iff dest: set_takeWhileD)

lemma slice_digits: "list_all is_ascii_digit (slice i (skip_while is_ascii_digit bs i) bs)"
  by (simp add: slice_skip_while list_all_takeWhile)

lemma length_slice_skip: "length (slice i (skip_while p bs i) bs) = skip_while p bs i - i"
  by (simp only: slice_skip_while) (simp add: skip_while_eq)

lemma scan_decimal_cases:
  assumes "scan_decimal bs i = (Some n, j)"
  obtains (whole) k where "k = skip_while is_ascii_digit bs i" "k \<noteq> i" "k - i \<le> 9" "j = k"
      "thousandths n = digits_value (slice i k bs) * 1000"
  | (fraction) k where "k = skip_while is_ascii_digit bs i" "k \<noteq> i" "k - i \<le> 9"
      "k + 1 < length bs" "j = skip_while is_ascii_digit bs (k + 1)"
      "thousandths n = add_fraction (slice (k + 1) j bs) 100 (digits_value (slice i k bs) * 1000)"
proof (cases "skip_while is_ascii_digit bs i = i \<or> skip_while is_ascii_digit bs i - i > 9")
  case True
  with assms show ?thesis by (auto simp: scan_decimal_def Let_def split: if_splits)
next
  case False
  define k where "k = skip_while is_ascii_digit bs i"
  show ?thesis
  proof (cases "k + 1 < length bs \<and> bs ! k = 46 \<and> is_ascii_digit (bs ! (k + 1))")
    case True
    with assms False show ?thesis
      by (intro fraction [of k]) (auto simp: scan_decimal_def Let_def SCALE_def simp flip: k_def)
  next
    case no: False
    with assms False show ?thesis
      by (intro whole [of k]) (auto simp: scan_decimal_def Let_def SCALE_def simp flip: k_def)
  qed
qed

lemma scanned_digits_value:
  assumes "k = skip_while is_ascii_digit bs i" "k \<noteq> i" "k - i \<le> 9"
  shows "digits_value (slice i k bs) < 10 ^ 9" and "0 \<le> digits_value (slice i k bs)" and "i < k"
proof -
  have "(10::int) ^ (k - i) \<le> 10 ^ 9" using assms(3) by (intro power_increasing) auto
  with digits_value_bounds [OF slice_digits, of i bs] assms(1)
  show "digits_value (slice i k bs) < 10 ^ 9" and "0 \<le> digits_value (slice i k bs)"
    by (simp_all add: length_slice_skip)
  show "i < k" using assms skip_while_ge [of i is_ascii_digit bs] by simp
qed

lemma scan_decimal_bounds:
  assumes "scan_decimal bs i = (Some n, j)"
  shows "0 \<le> thousandths n \<and> thousandths n < 10 ^ 12 \<and> i < j
    \<and> (i < length bs \<longrightarrow> j \<le> length bs)"
  using assms
proof (cases rule: scan_decimal_cases)
  case (whole k)
  note d = scanned_digits_value [OF whole(1-3)]
  with whole show ?thesis by (simp add: skip_while_le_length)
next
  case (fraction k)
  let ?d = "digits_value (slice i k bs)"
  note d = scanned_digits_value [OF fraction(1-3)]
  have "?d * 1000 \<le> thousandths n \<and> thousandths n \<le> ?d * 1000 + 999"
    using add_fraction_bounds [OF slice_digits, of "?d * 1000" "k + 1" bs] fraction by simp
  with d have "0 \<le> thousandths n" "thousandths n < 10 ^ 12" by simp_all
  moreover have "k < j" "j \<le> length bs"
    using fraction skip_while_ge [of "k + 1" is_ascii_digit bs] by (simp_all add: skip_while_le_length)
  ultimately show ?thesis using d by simp
qed

lemma scan_span_bounds:
  assumes "scan_span bs i = (Some (a, b), j)"
  shows "0 \<le> thousandths a" "a \<le> b" "thousandths b < 10 ^ 12"
    and "integer_part b - integer_part a \<le> MAX_RANGE_LEN"
proof -
  from assms obtain s k where s: "scan_decimal bs i = (Some s, k)"
    by (auto simp: scan_span_def split: prod.splits option.splits)
  have single: "0 \<le> thousandths s" "thousandths s < 10 ^ 12"
    using scan_decimal_bounds [OF s] by auto
  show "0 \<le> thousandths a" "a \<le> b" "thousandths b < 10 ^ 12"
    and "integer_part b - integer_part a \<le> MAX_RANGE_LEN"
    using assms s single
    by (auto simp: scan_span_def Let_def MAX_RANGE_LEN_def
        dest: scan_decimal_bounds split: prod.splits option.splits if_splits)
qed

lemma tokenize_from_numbers:
  "Number a b \<in> set (tokenize_from bs i) \<Longrightarrow> \<exists>j k. scan_span bs j = (Some (a, b), k)"
proof (induction bs i rule: tokenize_from.induct)
  case (1 bs i)
  show ?case
  proof (cases "i < length bs")
    case False
    with "1.prems" show ?thesis by (simp add: tokenize_from.simps [of bs i])
  next
    case True
    show ?thesis
    proof (cases "scan_span bs i")
      case (Pair span nxt)
      with 1 True show ?thesis
        by (auto simp: tokenize_from.simps [of bs i] Let_def split: if_splits option.splits)
    qed
  qed
qed

lemma tokenize_number_bounds:
  assumes "Number a b \<in> set (tokenize cleaned)"
  shows "0 \<le> thousandths a \<and> a \<le> b \<and> thousandths b < 10 ^ 12
    \<and> integer_part b - integer_part a \<le> MAX_RANGE_LEN"
  using assms tokenize_from_numbers scan_span_bounds unfolding tokenize_def by metis

section \<open>Lemmas: printing and scanning\<close>

lemma digit_char: "d < 10 \<Longrightarrow> is_ascii_digit (48 + d)"
  by (simp add: is_ascii_digit_def)

lemma show_nat_digits: "list_all is_ascii_digit (show_nat n)"
proof (induction n rule: show_nat.induct)
  case (1 n)
  then show ?case
    by (subst show_nat.simps) (auto simp: digit_char)
qed

lemma digits_value_show_nat: "digits_value (show_nat n) = int n"
proof (induction n rule: show_nat.induct)
  case (1 n)
  show ?case
  proof (cases "n < 10")
    case True
    then show ?thesis by (subst show_nat.simps) (simp add: digits_value_def)
  next
    case False
    with 1 show ?thesis
      by (subst show_nat.simps) (simp add: div_mult_mod_eq flip: of_nat_mult of_nat_add,
          simp add: zdiv_int zmod_int)
  qed
qed

lemma show_nat_nonempty [simp]: "show_nat n \<noteq> []"
  by (subst show_nat.simps) simp

lemma length_show_nat: "n < 10 ^ k \<Longrightarrow> 0 < k \<Longrightarrow> length (show_nat n) \<le> k"
proof (induction n arbitrary: k rule: show_nat.induct)
  case (1 n)
  show ?case
  proof (cases "n < 10")
    case True
    with "1.prems" show ?thesis by (subst show_nat.simps) simp
  next
    case False
    with "1.prems" obtain m where k: "k = Suc m" "0 < m"
      by (metis One_nat_def gr0_conv_Suc less_imp_Suc_add nat_neq_iff not_less_eq power_one_right)
    with "1.prems" have "n div 10 < 10 ^ m" by (simp add: less_mult_imp_div_less mult.commute)
    with 1 False k show ?thesis by (subst show_nat.simps) simp
  qed
qed

lemma add_fraction_zeros: "add_fraction (ds @ replicate k 48) s n = add_fraction ds s n"
proof (induction ds s n rule: add_fraction.induct)
  case (1 s n)
  show ?case by (induction k arbitrary: s) auto
qed auto

lemma drop_end_while_eq:
  obtains k where "xs = drop_end_while (\<lambda>c. c = a) xs @ replicate k a"
proof -
  let ?t = "takeWhile (\<lambda>c. c = a) (rev xs)"
  have "?t = replicate (length ?t) a"
    by (rule replicate_eqI) (auto dest: set_takeWhileD)
  then have "rev ?t = replicate (length ?t) a" by (metis rev_replicate)
  moreover have "xs = drop_end_while (\<lambda>c. c = a) xs @ rev ?t"
    by (metis drop_end_while_def rev_append rev_rev_ident takeWhile_dropWhile_id)
  ultimately show ?thesis using that by metis
qed

lemma zero_pad_3:
  assumes "f < 1000"
  shows "zero_pad 3 (show_nat f) = [48 + f div 100, 48 + f div 10 mod 10, 48 + f mod 10]"
proof -
  consider "f < 10" | "10 \<le> f" "f < 100" | "100 \<le> f" by linarith
  then show ?thesis
  proof cases
    case 1
    then show ?thesis by (simp add: zero_pad_def show_nat.simps [of f] numeral_3_eq_3)
  next
    case 2
    then have "f div 10 < 10" by linarith
    with 2 show ?thesis
      by (simp add: zero_pad_def show_nat.simps [of f] show_nat.simps [of "f div 10"] numeral_3_eq_3)
  next
    case 3
    then have "\<not> f div 10 < 10" "f div 10 div 10 < 10" using assms by linarith+
    with 3 show ?thesis
      by (simp add: zero_pad_def show_nat.simps [of f] show_nat.simps [of "f div 10"]
          show_nat.simps [of "f div 100"] div_mult2_eq [symmetric])
  qed
qed

definition fraction_digits :: "nat \<Rightarrow> nat list" where
  "fraction_digits f = drop_end_while (\<lambda>c. c = 48) (zero_pad 3 (show_nat f))"

lemma fraction_digits_props:
  assumes "0 < f" and "f < 1000"
  shows "fraction_digits f \<noteq> []" and "list_all is_ascii_digit (fraction_digits f)"
    and "add_fraction (fraction_digits f) 100 n = n + int f"
proof -
  let ?ds = "[48 + f div 100, 48 + f div 10 mod 10, 48 + f mod 10]"
  obtain k where "?ds = drop_end_while (\<lambda>c. c = 48) ?ds @ replicate k 48"
    by (rule drop_end_while_eq)
  then have k: "?ds = fraction_digits f @ replicate k 48"
    by (simp only: fraction_digits_def zero_pad_3 [OF assms(2)])
  have "add_fraction (fraction_digits f) 100 n = add_fraction ?ds 100 n"
    by (simp only: k add_fraction_zeros)
  also have "\<dots> = n + int f"
  proof -
    have "f = f div 100 * 100 + f div 10 mod 10 * 10 + f mod 10"
    proof -
      have "f div 100 = f div 10 div 10" by (simp add: div_mult2_eq [symmetric])
      then show ?thesis
        using div_mult_mod_eq [of f 10] div_mult_mod_eq [of "f div 10" 10] by linarith
    qed
    then have "int f = int (f div 100 * 100 + f div 10 mod 10 * 10 + f mod 10)" by (rule arg_cong)
    also have "n + \<dots> = add_fraction ?ds 100 n" by simp
    finally show ?thesis by (rule sym)
  qed
  finally show eq: "add_fraction (fraction_digits f) 100 n = n + int f" .
  then show "fraction_digits f \<noteq> []" using assms(1) by auto
  have "list_all is_ascii_digit ?ds" using assms(2) by (auto simp: digit_char)
  then show "list_all is_ascii_digit (fraction_digits f)"
    by (simp only: k list_all_append)
qed

lemma takeWhile_digits:
  assumes "list_all is_ascii_digit ds" and "rest = [] \<or> \<not> is_ascii_digit (hd rest)"
  shows "takeWhile is_ascii_digit (ds @ rest) = ds"
  using assms by (cases rest) (auto simp: list_all_iff takeWhile_append2)

lemma scan_show_number:
  assumes n: "0 \<le> thousandths n" "thousandths n < 10 ^ 12"
    and rest: "rest = [] \<or> (\<not> is_ascii_digit (hd rest) \<and> hd rest \<noteq> 46)"
  shows "scan_decimal (pre @ show_number n @ rest) (length pre)
    = (Some n, length pre + length (show_number n))"
proof -
  define w where "w = nat (integer_part n)"
  define f where "f = nat (thousandths n mod 1000)"
  have ip: "0 \<le> integer_part n" using n by (simp add: integer_part_def SCALE_def)
  have w: "integer_part n = int w" "w < 10 ^ 9" using n by (simp_all add: w_def integer_part_def SCALE_def)
  have f: "thousandths n mod 1000 = int f" "f < 1000" by (simp_all add: f_def)
  have ds: "list_all is_ascii_digit (show_nat w)" "length (show_nat w) \<le> 9"
    using w(2) by (simp_all add: show_nat_digits length_show_nat)
  have tn: "thousandths n = int w * 1000 + int f"
    using w(1) f(1) div_mult_mod_eq [of "thousandths n" 1000]
    by (simp add: integer_part_def SCALE_def)
  show ?thesis
  proof (cases "f = 0")
    case True
    then have sn: "show_number n = show_nat w"
      using ip f(1) by (simp add: show_number_def SCALE_def show_int_def Let_def w_def)
    let ?bs = "pre @ show_nat w @ rest"
    have "takeWhile is_ascii_digit (show_nat w @ rest) = show_nat w"
      using takeWhile_digits [OF ds(1)] rest by blast
    then have sk: "skip_while is_ascii_digit ?bs (length pre) = length pre + length (show_nat w)"
      by (simp add: skip_while_eq)
    have nd: "\<not> (length pre + length (show_nat w) + 1 < length ?bs
        \<and> ?bs ! (length pre + length (show_nat w)) = 46)"
      using rest by (cases rest) (auto simp: nth_append)
    have sl: "slice (length pre) (length pre + length (show_nat w)) ?bs = show_nat w"
      by (simp add: slice_def)
    have "scan_decimal ?bs (length pre)
        = (Some (SequenceNumber (int w * 1000)), length pre + length (show_nat w))"
      using nd ds(2) by (auto simp: scan_decimal_def Let_def sk sl digits_value_show_nat SCALE_def)
    moreover from True tn have "SequenceNumber (int w * 1000) = n" by (cases n) simp
    ultimately show ?thesis by (simp only: sn)
  next
    case False
    let ?fs = "fraction_digits f"
    have fs: "?fs \<noteq> []" "list_all is_ascii_digit ?fs"
      "\<And>m. add_fraction ?fs 100 m = m + int f"
      using fraction_digits_props [of f] False f(2) by auto
    from False have sn: "show_number n = show_nat w @ 46 # ?fs"
      using ip f(1) by (simp add: show_number_def SCALE_def show_int_def fraction_digits_def Let_def w_def)
    let ?k = "length pre + length (show_nat w)"
    let ?bs = "pre @ (show_nat w @ 46 # ?fs) @ rest"
    have sk: "skip_while is_ascii_digit ?bs (length pre) = ?k"
      using takeWhile_digits [OF ds(1), of "46 # ?fs @ rest"]
      by (simp add: skip_while_eq is_ascii_digit_def)
    have "takeWhile is_ascii_digit (?fs @ rest) = ?fs"
      using takeWhile_digits [OF fs(2)] rest by blast
    then have sk2: "skip_while is_ascii_digit ?bs (Suc ?k) = Suc ?k + length ?fs"
      by (simp add: skip_while_eq)
    have sl: "slice (length pre) ?k ?bs = show_nat w"
      "slice (Suc ?k) (Suc (?k + length ?fs)) ?bs = ?fs"
      by (simp_all add: slice_def)
    have at: "Suc ?k < length ?bs" "?bs ! ?k = 46" "is_ascii_digit (?bs ! Suc ?k)"
      using fs(1,2) by (cases ?fs; simp add: nth_append)+
    have "scan_decimal ?bs (length pre)
        = (Some (SequenceNumber (int w * 1000 + int f)), Suc ?k + length ?fs)"
      using at ds(2)
      by (simp add: scan_decimal_def Let_def sk sk2 sl digits_value_show_nat SCALE_def fs(3)
          del: append_assoc)
    moreover from tn have "SequenceNumber (int w * 1000 + int f) = n" by (cases n) simp
    ultimately show ?thesis by (simp only: sn) simp
  qed
qed

section \<open>Lemmas: ranking\<close>

fun candidates :: "byte list \<Rightarrow> sequence_kind option \<Rightarrow> token list \<Rightarrow> parsed_identifier list" where
  "candidates cleaned only [] = []"
| "candidates cleaned only (t # ts) =
     (case candidate cleaned only t ts of
        None \<Rightarrow> candidates cleaned only ts
      | Some i \<Rightarrow> i # candidates cleaned only ts)"

definition rightmost :: "sequence_kind \<Rightarrow> parsed_identifier list \<Rightarrow> parsed_identifier option" where
  "rightmost k cs =
     (let ks = filter (\<lambda>i. pi_kind i = k) cs in if ks = [] then None else Some (last ks))"

definition ranked :: "parsed_identifier list \<Rightarrow> parsed_identifier option" where
  "ranked cs = (case rightmost Chapter cs of Some i \<Rightarrow> Some i | None \<Rightarrow> rightmost Volume cs)"

lemma ranked_skip: "pi_kind b = Chapter \<Longrightarrow> pi_kind c = Volume \<Longrightarrow> ranked (b # c # cs) = ranked (b # cs)"
  by (simp add: ranked_def rightmost_def)

lemma ranked_replace:
  "\<not> (pi_kind b = Chapter \<and> pi_kind c = Volume) \<Longrightarrow> ranked (b # c # cs) = ranked (c # cs)"
  by (cases "pi_kind b"; cases "pi_kind c") (auto simp: ranked_def rightmost_def Let_def)

lemma best_loop_ranked:
  "best_loop cleaned only ts best
    = ranked ((case best of None \<Rightarrow> [] | Some b \<Rightarrow> [b]) @ candidates cleaned only ts)"
proof (induction ts arbitrary: best)
  case Nil
  show ?case
    by (cases best) (auto simp: ranked_def rightmost_def intro: sequence_kind.exhaust)
next
  case (Cons t ts)
  then show ?case
    by (cases "candidate cleaned only t ts"; cases best)
      (auto simp: ranked_skip ranked_replace)
qed

lemma candidate_kind: "candidate cleaned (Some k) t ts = Some i \<Longrightarrow> pi_kind i = k"
  by (induction cleaned "Some k" t ts rule: candidate.induct)
    (auto split: option.splits if_splits)

lemma candidates_kind: "i \<in> set (candidates cleaned (Some k) ts) \<Longrightarrow> pi_kind i = k"
  by (induction ts) (auto split: option.splits dest: candidate_kind)

lemma best_identifier_ranked:
  "best_identifier cleaned None = ranked (candidates (utf8 cleaned) None (tokenize cleaned))"
  "best_identifier cleaned (Some k)
     = rightmost k (candidates (utf8 cleaned) (Some k) (tokenize cleaned))"
proof -
  show "best_identifier cleaned None = ranked (candidates (utf8 cleaned) None (tokenize cleaned))"
    by (simp add: best_identifier_def best_loop_ranked)
  let ?cs = "candidates (utf8 cleaned) (Some k) (tokenize cleaned)"
  have "filter (\<lambda>i. pi_kind i = k') ?cs = (if k' = k then ?cs else [])" for k'
    by (auto simp: filter_empty_conv dest: candidates_kind intro!: filter_True)
  then show "best_identifier cleaned (Some k) = rightmost k ?cs"
    by (cases k) (auto simp: best_identifier_def best_loop_ranked ranked_def rightmost_def Let_def)
qed

section \<open>Lemmas: cleaned names\<close>

definition clean_char :: "uchar \<Rightarrow> bool" where
  "clean_char c \<longleftrightarrow> c \<notin> {40, 41, 91, 93, 95} \<and> (is_whitespace c \<longrightarrow> c = 32)"

definition clean_acc :: "ustr \<Rightarrow> bool" where
  "clean_acc s \<longleftrightarrow> list_all clean_char s \<and> (s \<noteq> [] \<longrightarrow> hd s \<noteq> 32)
     \<and> successively (\<lambda>a b. \<not> (a = 32 \<and> b = 32)) s"

lemma clean_acc_push_space: "clean_acc s \<Longrightarrow> clean_acc (push_space s)"
  by (auto simp: clean_acc_def successively_append_iff clean_char_def is_whitespace_def)

lemma clean_acc_push:
  "clean_acc s \<Longrightarrow> clean_char c \<Longrightarrow> c \<noteq> 32 \<Longrightarrow> clean_acc (s @ [c])"
  by (auto simp: clean_acc_def successively_append_iff hd_append)

lemma clean_loop_acc: "clean_acc acc \<Longrightarrow> clean_acc (clean_loop cs depth acc)"
proof (induction cs depth acc rule: clean_loop.induct)
  case (2 c cs depth acc)
  have "clean_char c \<and> c \<noteq> 32"
    if "\<not> (c = 40 \<or> c = 91)" "\<not> (c = 41 \<or> c = 93)" "\<not> (is_whitespace c \<or> c = 95)"
    using that by (auto simp: clean_char_def is_whitespace_def)
  with 2 show ?case
    by (simp add: clean_acc_push clean_acc_push_space del: push_space.simps)
qed simp

lemma drop_end_while_prefix:
  obtains ys where "xs = drop_end_while p xs @ ys"
proof -
  have "xs = drop_end_while p xs @ rev (takeWhile p (rev xs))"
    by (metis drop_end_while_def rev_append rev_rev_ident takeWhile_dropWhile_id)
  with that show ?thesis by blast
qed

lemma last_drop_end_while: "drop_end_while p xs \<noteq> [] \<Longrightarrow> \<not> p (last (drop_end_while p xs))"
  by (simp add: drop_end_while_def last_rev hd_dropWhile)

lemma clean_name_shape:
  shows "clean_acc (clean_name s)" and "clean_name s \<noteq> [] \<Longrightarrow> last (clean_name s) \<noteq> 32"
proof -
  define t where "t = strip_extension (trim (rev (takeWhile (\<lambda>c. c \<noteq> 47 \<and> c \<noteq> 92) (rev s))))"
  have t: "clean_name s = drop_end_while (\<lambda>c. c = 32) (clean_loop t 0 [])"
    by (simp only: clean_name_def Let_def t_def)
  obtain ys where "clean_loop t 0 [] = clean_name s @ ys"
    unfolding t by (rule drop_end_while_prefix)
  moreover have "clean_acc (clean_loop t 0 [])"
    by (rule clean_loop_acc) (simp add: clean_acc_def)
  ultimately show "clean_acc (clean_name s)"
    by (auto simp: clean_acc_def successively_append_iff hd_append)
  show "clean_name s \<noteq> [] \<Longrightarrow> last (clean_name s) \<noteq> 32"
    unfolding t by (rule last_drop_end_while)
qed

section \<open>Lemmas: the changing position\<close>

lemma score_no_coverage: "snd (position_score spans p) = 0 \<Longrightarrow> position_score spans p = (0, 0)"
  by (simp add: position_score_def Let_def)

definition best_so_far ::
  "(sequence_number \<times> sequence_number) list list \<Rightarrow> nat set \<Rightarrow> (nat \<times> nat \<times> nat) option \<Rightarrow> bool" where
  "best_so_far spans P best \<longleftrightarrow>
     (case best of
        None \<Rightarrow> \<forall>q \<in> P. snd (position_score spans q) = 0
      | Some (d, c, p) \<Rightarrow> p \<in> P \<and> position_score spans p = (d, c) \<and> 0 < c
          \<and> (\<forall>q \<in> P. position_score spans q \<le> (d, c)
               \<and> (q < p \<longrightarrow> position_score spans q < (d, c))))"

lemma changing_loop_best:
  assumes "sorted_wrt (<) ps" and "\<forall>q \<in> P. \<forall>p \<in> set ps. q < p" and "best_so_far spans P best"
  shows "best_so_far spans (P \<union> set ps) (changing_loop spans ps best)"
  using assms
proof (induction ps arbitrary: P best)
  case Nil
  then show ?case by simp
next
  case (Cons p ps)
  obtain u c where s: "position_score spans p = (u, c)" by fastforce
  have P: "\<forall>q \<in> insert p P. \<forall>r \<in> set ps. q < r" using Cons.prems by auto
  show ?case
  proof (cases "c = 0")
    case True
    have "best_so_far spans (insert p P) best"
      using Cons.prems(3) s True score_no_coverage [of spans p]
      by (auto simp: best_so_far_def split: option.splits prod.splits)
    with Cons.IH [OF _ P] Cons.prems(1) s True show ?thesis by simp
  next
    case False
    let ?b = "case best of Some (d, c', p') \<Rightarrow>
        if (d, c') \<ge> (u, c) then Some (d, c', p') else Some (u, c, p) | None \<Rightarrow> Some (u, c, p)"
    have "best_so_far spans (insert p P) ?b"
    proof (cases best)
      case None
      have "position_score spans q < (u, c)" if "q \<in> P" for q
      proof -
        from None Cons.prems(3) that have "position_score spans q = (0, 0)"
          by (intro score_no_coverage) (simp add: best_so_far_def)
        with False show ?thesis by (simp add: less_prod_def)
      qed
      with None s False show ?thesis by (auto simp: best_so_far_def intro: less_imp_le)
    next
      case (Some b)
      obtain d c' p' where b: "b = (d, c', p')" by (cases b)
      have old: "position_score spans p' = (d, c')" "0 < c'"
        "\<And>q. q \<in> P \<Longrightarrow> position_score spans q \<le> (d, c')"
        "\<And>q. q \<in> P \<Longrightarrow> q < p' \<Longrightarrow> position_score spans q < (d, c')"
        "p' \<in> P"
        using Cons.prems(3) Some b by (auto simp: best_so_far_def)
      show ?thesis
      proof (cases "(d, c') \<ge> (u, c)")
        case True
        from old(5) Cons.prems(2) have "\<not> p < p'" by auto
        with True Some b old s show ?thesis by (auto simp: best_so_far_def)
      next
        case new: False
        then have "(d, c') < (u, c)" by (simp only: not_le)
        then have lt: "\<And>q. q \<in> P \<Longrightarrow> position_score spans q < (u, c)"
          using old(3) by (blast intro: order.strict_trans1)
        have "?b = Some (u, c, p)" using Some b new by (simp only: option.case prod.case if_False)
        with s False lt show ?thesis by (auto simp only: best_so_far_def option.case prod.case
            insert_iff intro: less_imp_le)
      qed
    qed
    with Cons.IH [OF _ P] Cons.prems(1) s False show ?thesis by simp
  qed
qed


lemma fold_max_ge: "(x::nat) \<le> fold max xs x"
proof (induction xs arbitrary: x)
  case (Cons a xs)
  from Cons [of "max a x"] show ?case by simp
qed simp

lemma fold_max_bound: "n \<in> set xs \<Longrightarrow> n \<le> fold max xs (x::nat)"
proof (induction xs arbitrary: x)
  case (Cons a xs)
  then show ?case using fold_max_ge [of "max a x" xs] by auto
qed simp

lemma fold_max_mem: "fold max xs (x::nat) \<in> insert x (set xs)"
proof (induction xs arbitrary: x)
  case (Cons a xs)
  from Cons [of "max a x"] show ?case by (auto simp: max_def split: if_splits)
qed simp

lemma score_beyond:
  assumes "fold max (map length spans) 0 \<le> q"
  shows "position_score spans q = (0, 0)"
proof -
  have "nth_from_right xs q = None" if "xs \<in> set spans" for xs
    using fold_max_bound [of "length xs" "map length spans" 0] that assms
    by (simp add: nth_from_right_def)
  then have "List.map_filter (\<lambda>xs. nth_from_right xs q) spans = []"
    by (induction spans) (auto simp: List.map_filter_simps)
  then show ?thesis by (simp add: position_score_def)
qed

lemma score_zero_nonempty: "xs \<in> set spans \<Longrightarrow> xs \<noteq> [] \<Longrightarrow> 0 < snd (position_score spans 0)"
  by (induction spans)
    (auto simp: position_score_def Let_def List.map_filter_simps nth_from_right_def Suc_le_eq
      split: option.splits)

lemma changing_position_best:
  "best_so_far spans {0..<fold max (map length spans) 0}
     (changing_loop spans [0..<fold max (map length spans) 0] None)"
  using changing_loop_best [of "[0..<fold max (map length spans) 0]" "{}" spans None]
  by (simp add: best_so_far_def)

lemma changing_position_Some:
  assumes "changing_position spans = Some p"
  shows "0 < snd (position_score spans p)"
    and "position_score spans q \<le> position_score spans p"
    and "q < p \<Longrightarrow> position_score spans q < position_score spans p"
proof -
  let ?n = "fold max (map length spans) 0"
  from assms obtain d c where "changing_loop spans [0..<?n] None = Some (d, c, p)"
    by (auto simp: changing_position_def)
  with changing_position_best [of spans]
  have b: "p < ?n" "position_score spans p = (d, c)" "0 < c"
    "\<And>q. q < ?n \<Longrightarrow> position_score spans q \<le> (d, c)"
    "\<And>q. q < ?n \<Longrightarrow> q < p \<Longrightarrow> position_score spans q < (d, c)"
    by (auto simp: best_so_far_def)
  show "0 < snd (position_score spans p)" using b by simp
  show "position_score spans q \<le> position_score spans p"
  proof (cases "q < ?n")
    case False
    then show ?thesis using score_beyond [of spans q] b by (simp add: less_eq_prod_def)
  qed (use b in simp)
  show "q < p \<Longrightarrow> position_score spans q < position_score spans p"
    using b by simp
qed

lemma changing_position_None:
  "changing_position spans = None \<longleftrightarrow> (\<forall>xs \<in> set spans. xs = [])"
proof
  let ?n = "fold max (map length spans) 0"
  assume "changing_position spans = None"
  then have "changing_loop spans [0..<?n] None = None" by (simp add: changing_position_def)
  with changing_position_best [of spans]
  have z: "snd (position_score spans q) = 0" if "q < ?n" for q
    using that by (simp add: best_so_far_def)
  have "snd (position_score spans 0) = 0"
    using z [of 0] score_beyond [of spans 0] by (cases "0 < ?n") auto
  then show "\<forall>xs \<in> set spans. xs = []" using score_zero_nonempty by fastforce
next
  assume e: "\<forall>xs \<in> set spans. xs = []"
  have "fold max (map length spans) 0 = 0"
    using fold_max_mem [of "map length spans" 0] e by auto
  then show "changing_position spans = None" by (simp add: changing_position_def)
qed

section \<open>Lemmas: entries\<close>

lemma unidentified_entry_simps [simp]:
  "entry_source (unidentified_entry name) = Unidentified"
  "entry_span (unidentified_entry name) = None"
  "entry_name (unidentified_entry name) = name"
  by (simp_all add: unidentified_entry_def)

lemma identifier_entries_names:
  "length names = length is \<Longrightarrow> map entry_name (identifier_entries names is k) = names"
  by (auto simp: identifier_entries_def unidentified_entry_def comp_def
      intro!: nth_equalityI split: option.splits)

lemma identifier_entries_uniform:
  "e \<in> set (identifier_entries names is k) \<Longrightarrow>
     e = unidentified_entry (entry_name e)
     \<or> (entry_source e = Identifier \<and> entry_kind e = Some k \<and> entry_span e \<noteq> None)"
  by (auto simp: identifier_entries_def unidentified_entry_def split: option.splits if_splits)

lemma fallback_entries_names:
  "length names = length cleaned \<Longrightarrow> map entry_name (fallback_entries names cleaned) = names"
  by (auto simp: fallback_entries_def unidentified_entry_def Let_def comp_def
      intro!: nth_equalityI split: option.splits)

lemma fallback_entries_uniform:
  "e \<in> set (fallback_entries names cleaned) \<Longrightarrow>
     e = unidentified_entry (entry_name e)
     \<or> (entry_source e = Fallback \<and> entry_kind e = None \<and> entry_span e \<noteq> None)"
  by (auto simp: fallback_entries_def unidentified_entry_def Let_def split: option.splits)

lemma fill_gaps_frame [simp]:
  "entries (fill_gaps a) = entries a" "an_kind (fill_gaps a) = an_kind a"
  "an_source (fill_gaps a) = an_source a" "unidentified (fill_gaps a) = unidentified a"
  by (simp_all add: fill_gaps_def Let_def split: prod.splits)

definition analysis_entries :: "ustr list \<Rightarrow> sequence_entry list" where
  "analysis_entries names =
     (let cleaned = map clean_name names;
          identifiers = map (\<lambda>name. best_identifier name None) cleaned
      in case folder_kind identifiers of
           Some k \<Rightarrow> identifier_entries names identifiers k
         | None \<Rightarrow> fallback_entries names cleaned)"

lemma analyze_sequence_eq:
  "entries (analyze_sequence names) = analysis_entries names"
  "an_kind (analyze_sequence names)
     = folder_kind (map (\<lambda>name. best_identifier name None) (map clean_name names))"
  "unidentified (analyze_sequence names)
     = map entry_name (filter (\<lambda>e. entry_span e = None) (analysis_entries names))"
  "an_source (analyze_sequence names)
     = (case find (\<lambda>s. s \<noteq> Unidentified) (map entry_source (analysis_entries names)) of
          Some s \<Rightarrow> s | None \<Rightarrow> Unidentified)"
  by (simp_all add: analyze_sequence_def analysis_entries_def Let_def)

lemma analysis_entries_names: "map entry_name (analysis_entries names) = names"
  by (auto simp: analysis_entries_def Let_def identifier_entries_names fallback_entries_names
      split: option.splits)

lemma analysis_entries_uniform:
  obtains s where "\<forall>e \<in> set (analysis_entries names).
     e = unidentified_entry (entry_name e)
     \<or> (entry_source e = s \<and> entry_kind e = an_kind (analyze_sequence names)
        \<and> entry_span e \<noteq> None)" and "s \<noteq> Unidentified"
proof (cases "folder_kind (map (\<lambda>name. best_identifier name None) (map clean_name names))")
  case None
  then have "\<forall>e \<in> set (analysis_entries names). e = unidentified_entry (entry_name e)
     \<or> (entry_source e = Fallback \<and> entry_kind e = an_kind (analyze_sequence names)
        \<and> entry_span e \<noteq> None)"
    by (auto simp: analyze_sequence_eq(2) analysis_entries_def Let_def
        dest!: fallback_entries_uniform)
  then show ?thesis by (rule that) simp
next
  case (Some k)
  then have "\<forall>e \<in> set (analysis_entries names). e = unidentified_entry (entry_name e)
     \<or> (entry_source e = Identifier \<and> entry_kind e = an_kind (analyze_sequence names)
        \<and> entry_span e \<noteq> None)"
    by (auto simp: analyze_sequence_eq(2) analysis_entries_def Let_def
        dest!: identifier_entries_uniform)
  then show ?thesis by (rule that) simp
qed

lemma analysis_entry:
  assumes "e \<in> set (entries (analyze_sequence names))"
  shows "entry_span e = None \<longleftrightarrow> entry_source e = Unidentified"
    and "entry_span e \<noteq> None \<Longrightarrow>
      entry_kind e = an_kind (analyze_sequence names)
      \<and> entry_source e = an_source (analyze_sequence names)"
proof -
  let ?es = "analysis_entries names"
  obtain s where u: "\<forall>e \<in> set ?es. e = unidentified_entry (entry_name e)
     \<or> (entry_source e = s \<and> entry_kind e = an_kind (analyze_sequence names)
        \<and> entry_span e \<noteq> None)" and s: "s \<noteq> Unidentified"
    by (rule analysis_entries_uniform)
  have either: "entry_source f = s \<or> entry_source f = Unidentified" if "f \<in> set ?es" for f
    using bspec [OF u that] by (metis unidentified_entry_simps(1))
  have e: "e \<in> set ?es" using assms by (simp add: analyze_sequence_eq)
  show "entry_span e = None \<longleftrightarrow> entry_source e = Unidentified"
    using bspec [OF u e] s by (metis unidentified_entry_simps(1,2))
  assume sp: "entry_span e \<noteq> None"
  then have src: "entry_source e = s" "entry_kind e = an_kind (analyze_sequence names)"
    using bspec [OF u e] by (metis unidentified_entry_simps(2))+
  have "find (\<lambda>s. s \<noteq> Unidentified) (map entry_source ?es) = Some s"
  proof -
    have "\<exists>x. find (\<lambda>s. s \<noteq> Unidentified) (map entry_source ?es) = Some x"
      using e src(1) s by (cases "find (\<lambda>s. s \<noteq> Unidentified) (map entry_source ?es)")
        (force simp: find_None_iff)+
    then obtain x where x: "find (\<lambda>s. s \<noteq> Unidentified) (map entry_source ?es) = Some x" by blast
    then have "x \<noteq> Unidentified \<and> x \<in> set (map entry_source ?es)"
      by (auto simp: find_Some_iff)
    with either x show ?thesis by auto
  qed
  with src show "entry_kind e = an_kind (analyze_sequence names)
      \<and> entry_source e = an_source (analyze_sequence names)"
    by (simp add: analyze_sequence_eq(4))
qed

section \<open>Properties\<close>

lemma analyze_sequence_fill_gaps:
  "\<exists>a. analyze_sequence names = fill_gaps a \<and> missing a = [] \<and> found_ranges a = []
     \<and> \<not> span_exceeded a"
  unfolding analyze_sequence_def Let_def by (intro exI conjI, rule refl) simp_all

lemmas sequence_eval =
  clean_name_def trim_def drop_end_while_def strip_extension_def rsplit_once_def utf8_def
  utf8_char.simps is_ascii_digit_def is_ascii_alphabetic_def is_ascii_alphanumeric_def
  is_whitespace_def ascii_lower_def eq_ignore_ascii_case_def lit_def Let_def
  best_identifier_def tokenize_def tokenize_from.simps skip_while.simps scan_span_def
  scan_decimal_def digits_value_def slice_def SCALE_def MAX_RANGE_LEN_def identifier_kind_def
  integer_part_def is_integer_def less_eq_sequence_number_def less_sequence_number_def

text \<open>
  C13. The gaps of a folder: the found ranges cover exactly the integers of the
  entries' spans and are separate runs; the span is refused exactly when two
  covered integers lie more than 10000 apart; and otherwise the missing numbers
  are, in ascending order, exactly the integers strictly between two covered
  ones that no entry covers. Decimal chapters count for their integer part, so
  they never open a gap.
\<close>

theorem analyze_gaps:
  "let a = analyze_sequence names; C = covered_by (entries a)
   in (\<Union>r \<in> set (found_ranges a). {range_start r .. range_end r}) = C
      \<and> separated (found_ranges a)
      \<and> span_exceeded a = (\<exists>lo \<in> C. \<exists>hi \<in> C. hi - lo > MAX_SEQUENCE_SPAN)
      \<and> missing a = (if span_exceeded a then []
           else sorted_list_of_set {v. v \<notin> C \<and> (\<exists>lo \<in> C. lo < v) \<and> (\<exists>hi \<in> C. v < hi)})"
proof -
  obtain a0 where a0: "analyze_sequence names = fill_gaps a0"
    "missing a0 = []" "found_ranges a0 = []" "\<not> span_exceeded a0"
    using analyze_sequence_fill_gaps [of names] by blast
  note spec = fill_gaps_spec [OF a0(2-4)]
  let ?a = "fill_gaps a0" and ?C = "covered_by (entries a0)"
  have "missing ?a = (if span_exceeded ?a then []
      else sorted_list_of_set {v. v \<notin> ?C \<and> (\<exists>lo \<in> ?C. lo < v) \<and> (\<exists>hi \<in> ?C. v < hi)})"
    using spec(5,6,7) by (auto simp: strict_sorted_iff sorted_list_of_set.idem_if_sorted_distinct
        simp flip: spec(6))
  then show ?thesis
    unfolding a0(1) Let_def spec(1) using spec(2-4) by blast
qed

text \<open>
  Grouping ascending integers into runs loses nothing: writing the runs of
  \<open>to_ranges\<close> out gives back the integers, every run is non-empty and two runs
  are never adjacent, so they are maximal.
\<close>

theorem to_ranges_runs:
  "sorted_wrt (<) vs \<Longrightarrow>
   concat (map range_values (to_ranges vs)) = vs \<and> separated (to_ranges vs)"
  by (simp add: to_ranges_spec)

theorem to_ranges_runs_witness:
  "concat (map range_values (to_ranges [48, 49, 80, 82])) = [48, 49, 80, 82]
   \<and> separated (to_ranges [48, 49, 80, 82])"
  by (rule to_ranges_runs) simp

text \<open>
  Every number a name yields is a non-negative count of thousandths below
  \<open>10 ^ 12\<close> (so the 64-bit arithmetic of the scanner never overflows), a range
  is never reversed, and an omnibus range is at most 500 wide.
\<close>

theorem parsed_number_bounds:
  "Number a b \<in> set (tokenize cleaned) \<Longrightarrow>
   0 \<le> thousandths a \<and> a \<le> b \<and> thousandths b < 10 ^ 12 \<and> thousandths b < 2 ^ 63
   \<and> integer_part b - integer_part a \<le> MAX_RANGE_LEN"
  using tokenize_number_bounds [of a b cleaned] by simp

theorem parsed_number_bounds_witness:
  "0 \<le> thousandths (SequenceNumber 1000) \<and> SequenceNumber 1000 \<le> SequenceNumber 3000
   \<and> thousandths (SequenceNumber 3000) < 10 ^ 12 \<and> thousandths (SequenceNumber 3000) < 2 ^ 63
   \<and> integer_part (SequenceNumber 3000) - integer_part (SequenceNumber 1000) \<le> MAX_RANGE_LEN"
  by (rule parsed_number_bounds [of _ _ "lit ''Ch 1-3''"]) (simp add: sequence_eval)

text \<open>
  Printing and scanning agree: the text \<open>Display\<close> gives for a number in the
  scanner's range is scanned back to that number, wherever it stands, and the scan
  stops right after it, unless a digit or a decimal point follows.
\<close>

theorem scan_display:
  assumes "0 \<le> thousandths n" and "thousandths n < 10 ^ 12"
    and "rest = [] \<or> (\<not> is_ascii_digit (hd rest) \<and> hd rest \<noteq> 46)"
  shows "scan_decimal (pre @ show_number n @ rest) (length pre)
    = (Some n, length pre + length (show_number n))"
  using assms by (rule scan_show_number)

theorem scan_display_witness:
  "scan_decimal (lit ''Ch '' @ show_number (SequenceNumber 112100) @ lit '' x'') (length (lit ''Ch ''))
    = (Some (SequenceNumber 112100),
       length (lit ''Ch '') + length (show_number (SequenceNumber 112100)))"
  by (rule scan_display) (simp_all add: lit_def is_ascii_digit_def)

text \<open>
  Ranking: with no kind asked for, the identifier of a name is its right-most
  chapter identifier, and its right-most volume identifier only when there is no
  chapter; with a kind asked for, it is the right-most identifier of that kind.
\<close>

theorem parse_identifier_ranking:
  "parse_identifier name =
     (let cs = candidates (utf8 (clean_name name)) None (tokenize (clean_name name))
      in case rightmost Chapter cs of Some i \<Rightarrow> Some i | None \<Rightarrow> rightmost Volume cs)
   \<and> parse_identifier_of name k =
       rightmost k (candidates (utf8 (clean_name name)) (Some k) (tokenize (clean_name name)))"
  by (simp add: parse_identifier_def parse_identifier_of_def best_identifier_ranked ranked_def
      Let_def)

text \<open>
  A cleaned name has no bracket, no underscore and no white space but single
  inner spaces: none at either end, and no two in a row.
\<close>

theorem clean_name_normal:
  "let c = clean_name name
   in set c \<inter> {40, 41, 91, 93, 95} = {} \<and> set c \<inter> Collect is_whitespace \<subseteq> {32}
      \<and> (c = [] \<or> (hd c \<noteq> 32 \<and> last c \<noteq> 32))
      \<and> successively (\<lambda>x y. \<not> (x = 32 \<and> y = 32)) c"
  using clean_name_shape [of name]
  by (auto simp: Let_def clean_acc_def clean_char_def list_all_iff)

text \<open>
  The fallback position: it is covered by some name, no position of the group
  has a higher score (distinct numbers first, coverage second), and every position
  further right scores strictly lower. There is none exactly when no name has a number.
\<close>

theorem changing_position_optimal:
  "(changing_position spans = None) = list_all (\<lambda>xs. xs = []) spans
   \<and> (case changing_position spans of
        None \<Rightarrow> True
      | Some p \<Rightarrow> 0 < snd (position_score spans p)
          \<and> position_score spans q \<le> position_score spans p
          \<and> (if q < p then position_score spans q < position_score spans p else True))"
proof (cases "changing_position spans")
  case None
  then show ?thesis using changing_position_None [of spans] by (simp add: list_all_iff)
next
  case (Some p)
  then have "\<not> list_all (\<lambda>xs. xs = []) spans"
    using changing_position_None [of spans] by (simp add: list_all_iff)
  with Some changing_position_Some [OF Some] show ?thesis by simp
qed

text \<open>
  An analysis has one entry per name, in order; an entry has no span exactly
  when it is unidentified; every identified entry has the kind and the source of
  the analysis; and the unidentified names are listed in input order.
\<close>

theorem analyze_entries:
  "let a = analyze_sequence names
   in map entry_name (entries a) = names
      \<and> unidentified a = map entry_name (filter (\<lambda>e. entry_span e = None) (entries a))
      \<and> list_all (\<lambda>e. (entry_span e = None) = (entry_source e = Unidentified)
           \<and> (entry_span e = None
               \<or> entry_kind e = an_kind a \<and> entry_source e = an_source a)) (entries a)"
proof -
  let ?a = "analyze_sequence names"
  have "list_all (\<lambda>e. (entry_span e = None) = (entry_source e = Unidentified)
           \<and> (entry_span e = None
               \<or> entry_kind e = an_kind ?a \<and> entry_source e = an_source ?a)) (entries ?a)"
    using analysis_entry unfolding list_all_iff by blast
  moreover have "map entry_name (entries ?a) = names"
    by (simp add: analyze_sequence_eq(1) analysis_entries_names)
  moreover have "unidentified ?a = map entry_name (filter (\<lambda>e. entry_span e = None) (entries ?a))"
    by (simp add: analyze_sequence_eq)
  ultimately show ?thesis by (simp only: Let_def)
qed

end
