(* ===== verification/F64.thy ===== *)
theory F64
  imports Complex_Main Prelude "HOL-Library.Log_Nat"
begin

text \<open>
  Rust's \<open>f64\<close> as far as the modelled code uses it: not-a-number, the two
  infinities and the finite values. \<open>0.0\<close> and \<open>-0.0\<close> compare equal
  everywhere the code looks at them, so one value stands for both.
\<close>

section \<open>Values and comparison\<close>

datatype f64 = NaN | PInf | NInf | Fin rat

fun f64_lt :: "f64 \<Rightarrow> f64 \<Rightarrow> bool" where
  "f64_lt NaN _ = False"
| "f64_lt _ NaN = False"
| "f64_lt (Fin x) (Fin y) = (x < y)"
| "f64_lt NInf y = (y \<noteq> NInf)"
| "f64_lt PInf _ = False"
| "f64_lt _ PInf = True"
| "f64_lt _ NInf = False"

definition f64_le :: "f64 \<Rightarrow> f64 \<Rightarrow> bool" where
  "f64_le x y \<longleftrightarrow> x \<noteq> NaN \<and> y \<noteq> NaN \<and> (f64_lt x y \<or> x = y)"

fun f64_is_finite :: "f64 \<Rightarrow> bool" where
  "f64_is_finite (Fin _) = True"
| "f64_is_finite _ = False"

text \<open>\<open>f64::clamp\<close>: a not-a-number stays one.\<close>

definition f64_clamp :: "f64 \<Rightarrow> f64 \<Rightarrow> f64 \<Rightarrow> f64" where
  "f64_clamp x lo hi =
     (let x = (if f64_lt x lo then lo else x) in if f64_lt hi x then hi else x)"

definition f64_unit :: "f64 \<Rightarrow> bool" where
  "f64_unit x \<longleftrightarrow> f64_le (Fin 0) x \<and> f64_le x (Fin 1)"

lemma f64_le_Fin [simp]: "f64_le (Fin x) (Fin y) \<longleftrightarrow> x \<le> y"
  by (auto simp: f64_le_def)

lemma f64_unit_iff: "f64_unit x \<longleftrightarrow> (\<exists>r. x = Fin r \<and> 0 \<le> r \<and> r \<le> 1)"
  by (cases x) (auto simp: f64_unit_def f64_le_def)

lemma f64_unit_Fin [simp]: "f64_unit (Fin r) \<longleftrightarrow> 0 \<le> r \<and> r \<le> 1"
  by (simp add: f64_unit_iff)

lemma f64_clamp_unit [simp]: "x \<noteq> NaN \<Longrightarrow> f64_unit (f64_clamp x (Fin 0) (Fin 1))"
  by (cases x) (auto simp: f64_clamp_def f64_unit_iff)

lemma f64_clamp_id: "f64_unit x \<Longrightarrow> f64_clamp x (Fin 0) (Fin 1) = x"
  by (cases x) (auto simp: f64_clamp_def f64_unit_iff)

lemma f64_le_unit_finite: "f64_le (Fin 0) x \<Longrightarrow> f64_le x (Fin 1) \<Longrightarrow> f64_is_finite x"
  by (cases x) (auto simp: f64_le_def)

section \<open>Rounding\<close>

text \<open>
  Rounding of an exact result to the nearest binary64 value, ties to even: \<open>binade x\<close> is
  the exponent of the leading bit, the last of the 53 significant bits weighs \<open>2\<close> to the
  \<open>binade x - 52\<close>, and never less than the smallest subnormal. A result of \<open>2\<close> to the
  1024 or more overflows to an infinity.
\<close>

definition binade :: "rat \<Rightarrow> int" where
  "binade x =
     (case quotient_of x of (p, q) \<Rightarrow>
        let k = int (floorlog 2 (nat p)) - int (floorlog 2 (nat q))
        in if 2 powi k \<le> x then k else k - 1)"

definition round_half_even :: "rat \<Rightarrow> int" where
  "round_half_even x =
     (let f = \<lfloor>x\<rfloor>; r = x - of_int f
      in if r < 1 / 2 then f else if r > 1 / 2 then f + 1
         else if even f then f else f + 1)"

definition ulp_exponent :: "rat \<Rightarrow> int" where
  "ulp_exponent x = max (binade x - 52) (- 1074)"

definition round_positive :: "rat \<Rightarrow> rat" where
  "round_positive x =
     (let u = 2 powi ulp_exponent x in of_int (round_half_even (x / u)) * u)"

definition f64_round :: "rat \<Rightarrow> f64" where
  "f64_round x =
     (if x = 0 then Fin 0
      else if x > 0
      then (let y = round_positive x in if y \<ge> 2 ^ 1024 then PInf else Fin y)
      else (let y = round_positive (- x) in if y \<ge> 2 ^ 1024 then NInf else Fin (- y)))"

definition f64_of_int :: "int \<Rightarrow> f64" where
  "f64_of_int n = f64_round (of_int n)"

fun f64_neg :: "f64 \<Rightarrow> f64" where
  "f64_neg NaN = NaN"
| "f64_neg PInf = NInf"
| "f64_neg NInf = PInf"
| "f64_neg (Fin x) = Fin (- x)"

fun f64_add :: "f64 \<Rightarrow> f64 \<Rightarrow> f64" where
  "f64_add (Fin x) (Fin y) = f64_round (x + y)"
| "f64_add NaN _ = NaN"
| "f64_add _ NaN = NaN"
| "f64_add PInf NInf = NaN"
| "f64_add NInf PInf = NaN"
| "f64_add PInf _ = PInf"
| "f64_add NInf _ = NInf"
| "f64_add (Fin _) y = y"

definition f64_sub :: "f64 \<Rightarrow> f64 \<Rightarrow> f64" where
  "f64_sub x y = f64_add x (f64_neg y)"

definition f64_infinity :: "bool \<Rightarrow> f64" where
  "f64_infinity negative = (if negative then NInf else PInf)"

fun f64_negative :: "f64 \<Rightarrow> bool" where
  "f64_negative NInf = True"
| "f64_negative (Fin x) = (x < 0)"
| "f64_negative _ = False"

fun f64_mul :: "f64 \<Rightarrow> f64 \<Rightarrow> f64" where
  "f64_mul (Fin x) (Fin y) = f64_round (x * y)"
| "f64_mul NaN _ = NaN"
| "f64_mul _ NaN = NaN"
| "f64_mul x y =
     (if x = Fin 0 \<or> y = Fin 0 then NaN
      else f64_infinity (f64_negative x \<noteq> f64_negative y))"

text \<open>
  A zero divisor counts as \<open>0.0\<close>: the code divides by counts it has checked to be
  positive.
\<close>

fun f64_div :: "f64 \<Rightarrow> f64 \<Rightarrow> f64" where
  "f64_div (Fin x) (Fin y) =
     (if y \<noteq> 0 then f64_round (x / y)
      else if x = 0 then NaN else f64_infinity (x < 0))"
| "f64_div NaN _ = NaN"
| "f64_div _ NaN = NaN"
| "f64_div (Fin _) _ = Fin 0"
| "f64_div x (Fin y) = f64_infinity (f64_negative x \<noteq> (y < 0))"
| "f64_div _ _ = NaN"

text \<open>\<open>f64::round\<close>: half away from zero.\<close>

fun f64_round_int :: "f64 \<Rightarrow> f64" where
  "f64_round_int (Fin x) =
     Fin (if x \<ge> 0 then of_int \<lfloor>x + 1 / 2\<rfloor> else - of_int \<lfloor>- x + 1 / 2\<rfloor>)"
| "f64_round_int x = x"

text \<open>\<open>as i64\<close>: truncating and saturating, not-a-number becomes 0.\<close>

fun f64_to_i64 :: "f64 \<Rightarrow> int" where
  "f64_to_i64 NaN = 0"
| "f64_to_i64 PInf = 9223372036854775807"
| "f64_to_i64 NInf = - 9223372036854775808"
| "f64_to_i64 (Fin x) =
     max (- 9223372036854775808)
       (min 9223372036854775807 (if x \<ge> 0 then \<lfloor>x\<rfloor> else - \<lfloor>- x\<rfloor>))"

text \<open>\<open>f64::ceil\<close>, \<open>f64::max\<close> (a not-a-number loses), \<open>as u64\<close>, \<open>Duration::as_secs_f64\<close>.\<close>

fun f64_ceil :: "f64 \<Rightarrow> f64" where
  "f64_ceil (Fin x) = Fin (of_int \<lceil>x\<rceil>)"
| "f64_ceil x = x"

definition f64_max :: "f64 \<Rightarrow> f64 \<Rightarrow> f64" where
  "f64_max x y = (if x = NaN then y else if y = NaN then x else if f64_lt x y then y else x)"

fun f64_to_u64 :: "f64 \<Rightarrow> int" where
  "f64_to_u64 PInf = 18446744073709551615"
| "f64_to_u64 (Fin x) = max 0 (min 18446744073709551615 (if x \<ge> 0 then \<lfloor>x\<rfloor> else 0))"
| "f64_to_u64 _ = 0"

definition as_secs_f64 :: "int \<Rightarrow> f64" where
  "as_secs_f64 nanos =
     f64_add (f64_of_int (nanos div 1000000000))
       (f64_div (f64_of_int (nanos mod 1000000000)) (f64_of_int 1000000000))"

subsection \<open>Rounding is monotone and exact on 53-bit integers\<close>

lemma powi_nat_le: "(0::nat) < a \<Longrightarrow> (2::rat) powi (int a - 1) = 2 ^ (a - 1)"
  by (metis Suc_pred' of_nat_1 of_nat_diff power_int_of_nat One_nat_def Suc_leI)

lemma floorlog_rat:
  assumes "0 < p" "a = floorlog 2 (nat p)"
  shows "2 powi (int a - 1) \<le> (of_int p :: rat)" "(of_int p :: rat) < 2 powi int a"
proof -
  have b: "2 ^ (a - 1) \<le> nat p" "nat p < 2 ^ a" "0 < a"
    using assms floorlog_bounds [of "nat p" 2]
    by (auto simp: floorlog_eq_zero_iff intro!: Nat.gr0I)
  then have "2 ^ (a - 1) \<le> p" "p < 2 ^ a"
    using assms(1) by (auto simp: nat_less_iff le_nat_iff)
  then have "(of_int (2 ^ (a - 1)) :: rat) \<le> of_int p" "(of_int p :: rat) < of_int (2 ^ a)"
    by (simp_all only: of_int_le_iff of_int_less_iff)
  then show "2 powi (int a - 1) \<le> (of_int p :: rat)" "(of_int p :: rat) < 2 powi int a"
    using b(3) by (simp_all add: powi_nat_le)
qed

lemma binade:
  assumes "0 < x"
  shows "2 powi binade x \<le> x" "x < 2 powi (binade x + 1)"
proof -
  obtain p q where pq: "quotient_of x = (p, q)" by fastforce
  then have q: "0 < q" and x: "x = of_int p / of_int q"
    by (simp_all add: quotient_of_denom_pos quotient_of_div)
  with assms have p: "0 < p" by (simp add: zero_less_divide_iff)
  define a where "a = floorlog 2 (nat p)"
  define c where "c = floorlog 2 (nat q)"
  define k where "k = int a - int c"
  note P = floorlog_rat [OF p a_def] and Q = floorlog_rat [OF q c_def]
  have "(2::rat) powi int a = 2 powi (k + 1) * 2 powi (int c - 1)"
    by (simp add: k_def flip: power_int_add)
  also have "\<dots> \<le> 2 powi (k + 1) * of_int q" using Q(1) by (intro mult_left_mono) auto
  finally have "of_int p < 2 powi (k + 1) * (of_int q :: rat)" by (rule less_le_trans [OF P(2)])
  then have hi: "x < 2 powi (k + 1)" using q by (simp add: x pos_divide_less_eq)
  have "2 powi (k - 1) * of_int q \<le> (2::rat) powi (k - 1) * 2 powi int c"
    using Q(2) by (intro mult_left_mono) auto
  also have "\<dots> = 2 powi (k - 1 + int c)" by (subst power_int_add) auto
  also have "k - 1 + int c = int a - 1" by (simp add: k_def)
  finally have lo: "2 powi (k - 1) \<le> x" using P(1) q by (simp add: x pos_le_divide_eq)
  have b: "binade x = (if 2 powi k \<le> x then k else k - 1)"
    by (simp add: binade_def pq a_def c_def k_def Let_def)
  show "2 powi binade x \<le> x" "x < 2 powi (binade x + 1)"
    using hi lo by (auto simp: b)
qed

lemma binade_mono:
  assumes "0 < x" "x \<le> y"
  shows "binade x \<le> binade y"
proof (rule ccontr)
  assume "\<not> binade x \<le> binade y"
  then have "(2::rat) powi (binade y + 1) \<le> 2 powi binade x" by (intro power_int_increasing) auto
  with binade(1) [of x] binade(2) [of y] assms show False by simp
qed

lemma round_half_even_bounds: "\<lfloor>x\<rfloor> \<le> round_half_even x" "round_half_even x \<le> \<lfloor>x\<rfloor> + 1"
  by (auto simp: round_half_even_def Let_def)

lemma round_half_even_mono: "x \<le> y \<Longrightarrow> round_half_even x \<le> round_half_even y"
proof (cases "\<lfloor>x\<rfloor> = \<lfloor>y\<rfloor>")
  case True
  assume "x \<le> y"
  with True show ?thesis by (auto simp: round_half_even_def Let_def)
next
  case False
  assume "x \<le> y"
  with False have "\<lfloor>x\<rfloor> + 1 \<le> \<lfloor>y\<rfloor>" using floor_mono [of x y] by linarith
  with round_half_even_bounds [of x] round_half_even_bounds [of y] show ?thesis by linarith
qed

lemma round_half_even_int [simp]: "round_half_even (of_int n) = n"
  by (simp add: round_half_even_def)

lemma round_positive_mono:
  assumes "0 < x" "x \<le> y"
  shows "round_positive x \<le> round_positive y"
proof -
  define u where "u = ulp_exponent x"
  define v where "v = ulp_exponent y"
  have uv: "u \<le> v" using binade_mono [OF assms] by (simp add: u_def v_def ulp_exponent_def)
  have rx: "round_positive x = of_int (round_half_even (x / 2 powi u)) * 2 powi u"
    and ry: "round_positive y = of_int (round_half_even (y / 2 powi v)) * 2 powi v"
    by (simp_all add: round_positive_def u_def v_def Let_def)
  show ?thesis
  proof (cases "u = v")
    case True
    have "x / 2 powi u \<le> y / 2 powi u" using assms(2) by (intro divide_right_mono) auto
    then have "round_half_even (x / 2 powi u) \<le> round_half_even (y / 2 powi v)"
      unfolding True by (rule round_half_even_mono)
    then show ?thesis unfolding rx ry True by (intro mult_right_mono) auto
  next
    case False
    with uv have lt: "u + 1 \<le> v" by simp
    then have v: "v = binade y - 52" by (simp add: v_def u_def ulp_exponent_def)
    have "binade x - 52 \<le> u" by (simp add: u_def ulp_exponent_def)
    then have "(2::rat) powi (binade x + 1) \<le> 2 powi (53 + u)" by (intro power_int_increasing) auto
    with binade(2) [OF assms(1)] have "x / 2 powi u \<le> 2 powi 53"
      by (simp add: pos_divide_le_eq power_int_add)
    then have "x / 2 powi u \<le> of_int (2 ^ 53)" by simp
    from round_half_even_mono [OF this] have "round_half_even (x / 2 powi u) \<le> 2 ^ 53"
      by (simp only: round_half_even_int)
    then have "(of_int (round_half_even (x / 2 powi u)) :: rat) \<le> of_int (2 ^ 53)"
      by (simp only: of_int_le_iff)
    then have "round_positive x \<le> 2 powi 53 * 2 powi u"
      unfolding rx by (intro mult_right_mono) auto
    also have "\<dots> = 2 powi (53 + u)" by (simp add: power_int_add)
    also have "\<dots> \<le> 2 powi (52 + v)" using lt by (intro power_int_increasing) auto
    finally have up: "round_positive x \<le> 2 powi (52 + v)" .
    have "2 powi (52 + v) \<le> y" using binade(1) [of y] assms v by simp
    then have "of_int (2 ^ 52) \<le> y / 2 powi v" by (simp add: pos_le_divide_eq power_int_add)
    from round_half_even_mono [OF this] have "2 ^ 52 \<le> round_half_even (y / 2 powi v)"
      by (simp only: round_half_even_int)
    then have "(of_int (2 ^ 52) :: rat) \<le> of_int (round_half_even (y / 2 powi v))"
      by (simp only: of_int_le_iff)
    then have "2 powi 52 * 2 powi v \<le> round_positive y"
      unfolding ry by (intro mult_right_mono) auto
    with up show ?thesis by (simp add: power_int_add)
  qed
qed

lemma round_positive_pos:
  assumes "0 < x"
  shows "0 \<le> round_positive x"
proof -
  have "of_int 0 \<le> x / 2 powi ulp_exponent x" using assms by simp
  from round_half_even_mono [OF this] have "0 \<le> round_half_even (x / 2 powi ulp_exponent x)"
    by (simp only: round_half_even_int)
  then show ?thesis by (simp add: round_positive_def Let_def)
qed

lemma f64_round_sign:
  "0 \<le> x \<Longrightarrow> f64_le (Fin 0) (f64_round x)" "x \<le> 0 \<Longrightarrow> f64_le (f64_round x) (Fin 0)"
  using round_positive_pos [of x] round_positive_pos [of "- x"]
  by (auto simp: f64_round_def Let_def f64_le_def)

lemma f64_le_trans: "f64_le x y \<Longrightarrow> f64_le y z \<Longrightarrow> f64_le x z"
  by (cases x; cases y; cases z) (auto simp: f64_le_def)

lemma f64_round_mono:
  assumes "x \<le> y"
  shows "f64_le (f64_round x) (f64_round y)"
proof -
  consider "0 < x" | "x \<le> 0" "0 \<le> y" | "y < 0" using assms by linarith
  then show ?thesis
  proof cases
    case 1
    with assms round_positive_mono [OF 1 assms] show ?thesis
      by (auto simp: f64_round_def Let_def f64_le_def)
  next
    case 2
    then show ?thesis using f64_round_sign by (blast intro: f64_le_trans)
  next
    case 3
    with assms round_positive_mono [of "- y" "- x"] show ?thesis
      by (auto simp: f64_round_def Let_def f64_le_def)
  qed
qed

lemma round_positive_dyadic:
  assumes "0 < n" "n < 2 ^ 53" "- 1074 \<le> e"
  shows "round_positive (of_int n * 2 powi e) = of_int n * 2 powi e"
proof -
  define x where "x = (of_int n * 2 powi e :: rat)"
  define u where "u = ulp_exponent x"
  have x: "0 < x" using assms(1) by (simp add: x_def)
  have "(of_int n :: rat) < of_int (2 ^ 53)" using assms(2) by (simp only: of_int_less_iff)
  then have "x < 2 powi (53 + e)" by (simp add: x_def power_int_add)
  with binade(1) [OF x] have "(2::rat) powi binade x < 2 powi (53 + e)" by simp
  then have "binade x < 53 + e"
    by (meson not_le one_le_numeral power_int_increasing)
  then have "u \<le> e" using assms(3) by (simp add: u_def ulp_exponent_def)
  then obtain k where k: "e = u + int k" using zle_iff_zadd by blast
  have "x = of_int (n * 2 ^ k) * 2 powi u" by (simp add: x_def k power_int_add)
  then have "x / 2 powi u = of_int (n * 2 ^ k)" by simp
  then have "round_half_even (x / 2 powi u) = n * 2 ^ k" by (simp only: round_half_even_int)
  then show ?thesis
    by (simp add: round_positive_def Let_def flip: x_def u_def) (simp add: x_def k power_int_add)
qed

lemma f64_round_dyadic:
  assumes "0 < n" "n < 2 ^ 53" "- 1074 \<le> e" "e \<le> 971"
  shows "f64_round (of_int n * 2 powi e) = Fin (of_int n * 2 powi e)"
proof -
  have "(of_int n :: rat) < of_int (2 ^ 53)" using assms(2) by (simp only: of_int_less_iff)
  then have "(of_int n :: rat) * 2 powi e < 2 powi 53 * 2 powi e" by simp
  also have "\<dots> = 2 powi (53 + e)" by (simp add: power_int_add)
  also have "\<dots> \<le> 2 powi 1024" using assms(4) by (intro power_int_increasing) auto
  finally have "(of_int n :: rat) * 2 powi e < 2 powi int 1024" by simp
  then have "(of_int n :: rat) * 2 powi e < 2 ^ 1024" unfolding power_int_of_nat .
  moreover have "(0::rat) < of_int n * 2 powi e" using assms(1) by simp
  ultimately show ?thesis
    using assms round_positive_dyadic [of n e] by (simp add: f64_round_def Let_def not_le)
qed

lemma f64_round_neg: "f64_round (- x) = f64_neg (f64_round x)"
  by (simp add: f64_round_def Let_def)

lemma f64_round_int_exact:
  assumes "\<bar>n\<bar> < 2 ^ 53"
  shows "f64_round (of_int n) = Fin (of_int n)"
proof -
  consider "n = 0" | "0 < n" | "n < 0" by linarith
  then show ?thesis
  proof cases
    case 2
    with assms f64_round_dyadic [of n 0] show ?thesis by simp
  next
    case 3
    with assms f64_round_dyadic [of "- n" 0] have "f64_round (- of_int n) = Fin (- of_int n)" by simp
    then show ?thesis by (simp add: f64_round_neg) (cases "f64_round (of_int n)"; simp)
  qed (simp add: f64_round_def)
qed

text \<open>Every 64-bit integer converts to a finite value of its sign.\<close>

lemma f64_round_finite:
  assumes "\<bar>x\<bar> \<le> 2 ^ 64"
  obtains r where "f64_round x = Fin r" "\<bar>r\<bar> \<le> 2 ^ 64"
proof -
  have "f64_round (2 ^ 64) = Fin (2 ^ 64)" using f64_round_dyadic [of 1 64] by simp
  moreover from this have "f64_round (- (2 ^ 64)) = Fin (- (2 ^ 64))" by (simp add: f64_round_neg)
  moreover have "x \<le> 2 ^ 64" "- (2 ^ 64) \<le> x" using assms by (simp_all add: abs_le_iff)
  ultimately have "f64_le (f64_round x) (Fin (2 ^ 64))" "f64_le (Fin (- (2 ^ 64))) (f64_round x)"
    using f64_round_mono by metis+
  then show thesis using that by (cases "f64_round x") (auto simp: f64_le_def abs_le_iff)
qed

lemma f64_of_int_finite:
  assumes "\<bar>n\<bar> \<le> 2 ^ 64"
  obtains r where "f64_of_int n = Fin r" "0 < n \<Longrightarrow> 1 \<le> r" "0 \<le> n \<Longrightarrow> 0 \<le> r" "n \<le> 0 \<Longrightarrow> r \<le> 0"
proof -
  have "(of_int \<bar>n\<bar> :: rat) \<le> of_int (2 ^ 64)" using assms by (simp only: of_int_le_iff)
  then have "\<bar>of_int n :: rat\<bar> \<le> 2 ^ 64" by simp
  then obtain r where r: "f64_of_int n = Fin r" unfolding f64_of_int_def by (rule f64_round_finite)
  have one: "f64_round 1 = Fin 1" using f64_round_int_exact [of 1] by simp
  have "1 \<le> r" if "0 < n"
    using f64_round_mono [of 1 "of_int n"] that r one by (simp add: f64_of_int_def)
  moreover have "0 \<le> r" if "0 \<le> n"
    using f64_round_sign(1) [of "of_int n"] that r by (simp add: f64_of_int_def)
  moreover have "r \<le> 0" if "n \<le> 0"
    using f64_round_sign(2) [of "of_int n"] that r by (simp add: f64_of_int_def)
  ultimately show thesis using r that by blast
qed

lemma f64_of_int_exact: "\<bar>n\<bar> < 2 ^ 53 \<Longrightarrow> f64_of_int n = Fin (of_int n)"
  unfolding f64_of_int_def by (rule f64_round_int_exact)

lemma f64_round_01 [simp]: "f64_round 0 = Fin 0" "f64_round 1 = Fin 1"
  using f64_round_int_exact [of 1] by (simp_all add: f64_round_def)

lemma f64_round_unit:
  assumes "0 \<le> x" "x \<le> 1"
  shows "f64_unit (f64_round x)"
  using f64_round_mono [OF assms(1)] f64_round_mono [OF assms(2)] by (simp add: f64_unit_def)

lemma f64_clamp_mono:
  "f64_le x y \<Longrightarrow> f64_le (f64_clamp x (Fin 0) (Fin 1)) (f64_clamp y (Fin 0) (Fin 1))"
  by (cases x; cases y) (auto simp: f64_clamp_def f64_le_def)

lemma f64_round_not_NaN [simp]: "f64_round x \<noteq> NaN"
  by (simp add: f64_round_def Let_def)


text \<open>Evaluation of a result of at most \<open>2\<close> to the 64 needs no test for overflow.\<close>

lemma round_positive_below:
  assumes "0 < x" "x \<le> 2 ^ 64"
  shows "round_positive x < 2 ^ 1024"
proof -
  have "round_positive x \<le> round_positive (2 ^ 64)" using assms by (rule round_positive_mono)
  also have "\<dots> = 2 ^ 64" using round_positive_dyadic [of 1 64] by simp
  also have "(2::rat) ^ 64 < 2 ^ 1024" by (rule power_strict_increasing) simp_all
  finally show ?thesis .
qed

lemma f64_round_code [code]:
  "f64_round x =
     (if x = 0 then Fin 0
      else if 0 < x \<and> x \<le> 18446744073709551616 then Fin (round_positive x)
      else if x > 0
      then (let y = round_positive x in if y \<ge> 2 ^ 1024 then PInf else Fin y)
      else (let y = round_positive (- x) in if y \<ge> 2 ^ 1024 then NInf else Fin (- y)))"
  using round_positive_below [of x] by (auto simp: f64_round_def not_le)

end
