(* ===== verification/Json.thy ===== *)
theory Json
  imports F64
begin

text \<open>
  \<open>serde_json::Value\<close>. An object is a \<open>BTreeMap\<close>: its entries in ascending key
  order without repetition, so equality of values is equality of the lists.
\<close>

datatype json_number = PosInt nat | NegInt int | Float f64

datatype json =
    JNull
  | JBool bool
  | JNumber json_number
  | JString string
  | JArray "json list"
  | JObject "(string \<times> json) list"

text \<open>\<open>Value::as_i64\<close>: an integer that fits; a floating-point number never does.\<close>

fun as_i64 :: "json \<Rightarrow> int option" where
  "as_i64 (JNumber (PosInt n)) = (if n < 2 ^ 63 then Some (int n) else None)"
| "as_i64 (JNumber (NegInt i)) = Some i"
| "as_i64 _ = None"

definition jget :: "string \<Rightarrow> (string \<times> json) list \<Rightarrow> json" where
  "jget key fields = (case map_of fields key of Some v \<Rightarrow> v | None \<Rightarrow> JNull)"

fun json_ok :: "json \<Rightarrow> bool" where
  "json_ok (JObject fields) =
     (sorted (map fst fields) \<and> distinct (map fst fields)
      \<and> list_all (\<lambda>f. json_ok (snd f)) fields)"
| "json_ok (JArray items) = list_all json_ok items"
| "json_ok _ = True"

end
