(* ===== verification/Worker_Kind.thy ===== *)
theory Worker_Kind
  imports Json
begin

text \<open>
  \<^verbatim>\<open>crates/worker/src/kind.rs\<close>: capability matching and the requirements of the
  registered job kinds.
\<close>

section \<open>Capability matching\<close>

fun is_truthy :: "json \<Rightarrow> bool" where
  "is_truthy JNull = False"
| "is_truthy (JBool False) = False"
| "is_truthy _ = True"

fun satisfies :: "json \<Rightarrow> json \<Rightarrow> bool" where
  "satisfies capabilities JNull = True"
| "satisfies capabilities (JBool b) = (if b then is_truthy capabilities else True)"
| "satisfies capabilities (JObject required) =
     (case capabilities of
        JObject advertised \<Rightarrow>
          list_all (\<lambda>kv. satisfies (jget (fst kv) advertised) (snd kv)) required
      | _ \<Rightarrow> False)"
| "satisfies capabilities (JArray required) =
     (case capabilities of
        JArray advertised \<Rightarrow> list_all (\<lambda>want. want \<in> set advertised) required
      | _ \<Rightarrow> False)"
| "satisfies capabilities other = (capabilities = other)"

definition TRANSCODE :: string where "TRANSCODE = ''transcode''"
definition ALIGN :: string where "ALIGN = ''align''"
definition CHALLENGE_SOLVE :: string where "CHALLENGE_SOLVE = ''challenge_solve''"
definition BROWSER :: string where "BROWSER = ''browser''"

definition challenge_solve_requires :: json where
  "challenge_solve_requires = JObject [(BROWSER, JBool True)]"

definition transcode_requires :: json where
  "transcode_requires = JObject [(TRANSCODE, JBool True)]"

section \<open>Kind contracts\<close>

datatype transcode_output = Opus string | Aac string

fun extension :: "transcode_output \<Rightarrow> string" where
  "extension (Opus _) = ''ogg''"
| "extension (Aac _) = ''m4a''"

fun bitrate :: "transcode_output \<Rightarrow> string" where
  "bitrate (Opus b) = b"
| "bitrate (Aac b) = b"

fun mime :: "transcode_output \<Rightarrow> string" where
  "mime (Opus _) = ''audio/ogg''"
| "mime (Aac _) = ''audio/mp4''"

definition CLEARANCE_COOKIE :: string where "CLEARANCE_COOKIE = ''cf_clearance''"

text \<open>The cookie jar is a \<open>BTreeMap\<close>: pairs in ascending name order.\<close>

fun cookie_header_loop :: "(string \<times> string) list \<Rightarrow> string \<Rightarrow> string" where
  "cookie_header_loop [] header = header"
| "cookie_header_loop ((name, value) # rest) header =
     cookie_header_loop rest
       ((if header = [] then header else header @ ''; '') @ name @ ''='' @ value)"

definition cookie_header :: "(string \<times> string) list \<Rightarrow> string" where
  "cookie_header cookies = cookie_header_loop cookies []"

definition has_clearance :: "(string \<times> string) list \<Rightarrow> bool" where
  "has_clearance cookies \<longleftrightarrow> map_of cookies CLEARANCE_COOKIE \<noteq> None"

section \<open>Advertising more\<close>

text \<open>
  \<open>advertises_more c c'\<close>: the second value advertises everything the first does.
  Nothing (\<open>null\<close>, \<open>false\<close>) is below everything, an object may gain keys and
  grow under the keys it has, an array may gain elements.
\<close>

inductive advertises_more :: "json \<Rightarrow> json \<Rightarrow> bool" where
  nothing: "\<not> is_truthy c \<Longrightarrow> advertises_more c c'"
| same: "advertises_more c c"
| array: "set xs \<subseteq> set ys \<Longrightarrow> advertises_more (JArray xs) (JArray ys)"
| object: "(\<And>key. advertises_more (jget key fs) (jget key gs)) \<Longrightarrow>
     advertises_more (JObject fs) (JObject gs)"

inductive_cases advertises_more_objectE: "advertises_more (JObject fs) c"
inductive_cases advertises_more_arrayE: "advertises_more (JArray xs) c"

lemma advertises_more_truthy: "advertises_more c c' \<Longrightarrow> is_truthy c \<Longrightarrow> is_truthy c'"
  by (induction rule: advertises_more.induct) auto

lemma satisfies_nothing: "\<not> is_truthy c \<Longrightarrow> satisfies c r \<Longrightarrow> satisfies c' r"
  by (cases r) (auto split: json.splits if_splits elim!: is_truthy.elims)

lemma satisfies_more: "satisfies c r \<Longrightarrow> advertises_more c c' \<Longrightarrow> satisfies c' r"
proof (induction c r arbitrary: c' rule: satisfies.induct)
  case (3 c required)
  show ?case
  proof (cases "is_truthy c")
    case False
    with 3 show ?thesis by (blast intro: satisfies_nothing)
  next
    case True
    from "3.prems"(1) obtain fs where c: "c = JObject fs" by (auto split: json.splits)
    with "3.prems"(2) True show ?thesis
    proof (cases rule: advertises_more.cases)
      case (object fs' gs)
      with 3 c show ?thesis by (auto simp: list_all_iff)
    qed (use "3.prems" c in auto)
  qed
next
  case (4 c required)
  show ?case
  proof (cases "is_truthy c")
    case False
    with 4 show ?thesis by (blast intro: satisfies_nothing)
  next
    case True
    from "4.prems"(1) obtain xs where c: "c = JArray xs" by (auto split: json.splits)
    with "4.prems" True show ?thesis
      by (auto 0 3 simp: list_all_iff subset_iff elim!: advertises_more_arrayE)
  qed
qed (auto dest: advertises_more_truthy elim: advertises_more.cases split: if_splits)

text \<open>
  A worker that advertises more never loses a job: whatever requirement its
  capabilities satisfied is still satisfied when objects gain keys, arrays gain elements
  and switched-off parts are switched on, at any depth.
\<close>

theorem satisfies_monotone:
  assumes "satisfies c r" "advertises_more c c'"
  shows "satisfies c' r"
  using assms by (rule satisfies_more)

theorem satisfies_monotone_witness:
  "satisfies (JObject [(ALIGN, JBool True), (TRANSCODE, JArray [JString ''opus'', JString ''aac''])])
     (JObject [(TRANSCODE, JArray [JString ''aac''])])"
proof (rule satisfies_monotone)
  show "satisfies (JObject [(TRANSCODE, JArray [JString ''aac''])])
      (JObject [(TRANSCODE, JArray [JString ''aac''])])"
    by (simp add: jget_def)
  show "advertises_more (JObject [(TRANSCODE, JArray [JString ''aac''])])
      (JObject [(ALIGN, JBool True), (TRANSCODE, JArray [JString ''opus'', JString ''aac''])])"
  proof (rule advertises_more.object)
    fix key
    have "ALIGN \<noteq> TRANSCODE" by (simp add: ALIGN_def TRANSCODE_def)
    then show "advertises_more (jget key [(TRANSCODE, JArray [JString ''aac''])])
        (jget key [(ALIGN, JBool True), (TRANSCODE, JArray [JString ''opus'', JString ''aac''])])"
      by (cases "key = TRANSCODE") (simp_all add: jget_def advertises_more.array advertises_more.nothing)
  qed
qed

end
