(* ===== verification/Worker_Hub.thy ===== *)
theory Worker_Hub
  imports Worker_Kind
begin

text \<open>
  \<^verbatim>\<open>crates/worker/src/protocol.rs\<close> and \<^verbatim>\<open>crates/worker/src/hub.rs\<close>: the wire frames and
  the registry of connected workers. The hash map from device id to connection is an
  association list with distinct keys. An unbounded channel is the list of the frames
  sent into it and whether its receiver still exists; the encoding of a frame as text is
  left out. Every operation that reads the clock takes the reading as an argument.
\<close>

section \<open>Frames\<close>

datatype worker_frame =
    Hello json "string option" "string option"
  | Claim string
  | Progress string f64 "string option"
  | Result string json
  | Fail string string

datatype server_frame =
    JobFrame string string json int
  | CancelFrame string

fun frame_job_id :: "worker_frame \<Rightarrow> string option" where
  "frame_job_id (Hello _ _ _) = None"
| "frame_job_id (Claim j) = Some j"
| "frame_job_id (Progress j _ _) = Some j"
| "frame_job_id (Result j _) = Some j"
| "frame_job_id (Fail j _) = Some j"

section \<open>The hub\<close>

record connected_worker =
  device_id :: string
  worker_name :: string
  worker_version :: "string option"
  capabilities :: json
  connected_at :: int
  last_frame_at :: int

record connection =
  worker :: connected_worker
  outbound :: "server_frame list"
  receiving :: bool
  epoch :: nat

record worker_hub =
  connections :: "(string \<times> connection) list"
  epochs :: nat

definition hub_new :: worker_hub where
  "hub_new = \<lparr>connections = [], epochs = 0\<rparr>"

text \<open>The counter is an \<open>AtomicU64\<close>: \<open>fetch_add\<close> wraps.\<close>

definition hub_attach ::
  "int \<Rightarrow> string \<Rightarrow> string \<Rightarrow> string option \<Rightarrow> json \<Rightarrow> worker_hub \<Rightarrow> worker_hub \<times> nat" where
  "hub_attach now dev name ver caps h =
     (let n = (epochs h + 1) mod 2 ^ 64;
          w = \<lparr>device_id = dev, worker_name = name, worker_version = ver,
               capabilities = caps, connected_at = now, last_frame_at = now\<rparr>;
          c = \<lparr>worker = w, outbound = [], receiving = True, epoch = n\<rparr>
      in (h\<lparr>connections := AList.update dev c (connections h), epochs := n\<rparr>, n))"

definition hub_detach :: "string \<Rightarrow> nat \<Rightarrow> worker_hub \<Rightarrow> worker_hub \<times> bool" where
  "hub_detach dev n h =
     (case map_of (connections h) dev of
        Some c \<Rightarrow>
          if epoch c = n
          then (h\<lparr>connections := AList.delete dev (connections h)\<rparr>, True)
          else (h, False)
      | None \<Rightarrow> (h, False))"

definition hub_touch :: "int \<Rightarrow> string \<Rightarrow> worker_hub \<Rightarrow> worker_hub" where
  "hub_touch now dev h =
     h\<lparr>connections := AList.map_entry dev
         (\<lambda>c. c\<lparr>worker := (worker c)\<lparr>last_frame_at := now\<rparr>\<rparr>) (connections h)\<rparr>"

definition hub_connected :: "worker_hub \<Rightarrow> connected_worker list" where
  "hub_connected h = sort_key device_id (map (worker \<circ> snd) (connections h))"

definition hub_is_connected :: "string \<Rightarrow> worker_hub \<Rightarrow> bool" where
  "hub_is_connected dev h \<longleftrightarrow> map_of (connections h) dev \<noteq> None"

definition hub_capable_worker :: "json \<Rightarrow> worker_hub \<Rightarrow> connected_worker option" where
  "hub_capable_worker requires h =
     (case sort_key device_id
             (filter (\<lambda>w. satisfies (capabilities w) requires)
               (map (worker \<circ> snd) (connections h))) of
        [] \<Rightarrow> None
      | w # _ \<Rightarrow> Some w)"

definition hub_send :: "string \<Rightarrow> server_frame \<Rightarrow> worker_hub \<Rightarrow> worker_hub \<times> bool" where
  "hub_send dev frame h =
     (case map_of (connections h) dev of
        Some c \<Rightarrow>
          if receiving c
          then (h\<lparr>connections := AList.map_entry dev
                   (\<lambda>c. c\<lparr>outbound := outbound c @ [frame]\<rparr>) (connections h)\<rparr>, True)
          else (h, False)
      | None \<Rightarrow> (h, False))"

text \<open>The transport dropping its receiver, without having detached yet.\<close>

definition hub_hang_up :: "string \<Rightarrow> worker_hub \<Rightarrow> worker_hub" where
  "hub_hang_up dev h =
     h\<lparr>connections := AList.map_entry dev (\<lambda>c. c\<lparr>receiving := False\<rparr>) (connections h)\<rparr>"

definition hub_ok :: "worker_hub \<Rightarrow> bool" where
  "hub_ok h \<longleftrightarrow>
     distinct (map fst (connections h))
     \<and> list_all (\<lambda>(d, c). device_id (worker c) = d \<and> epoch c \<le> epochs h) (connections h)
     \<and> epochs h < 2 ^ 64"

lemmas hub_defs = hub_attach_def hub_detach_def hub_touch_def hub_send_def hub_hang_up_def
  Let_def

section \<open>Invariant\<close>

lemma hub_ok_new: "hub_ok hub_new"
  by (simp add: hub_ok_def hub_new_def)

lemma hub_ok_lookup:
  "hub_ok h \<Longrightarrow> map_of (connections h) d = Some c \<Longrightarrow>
     device_id (worker c) = d \<and> epoch c \<le> epochs h"
  by (auto simp: hub_ok_def list_all_iff dest!: map_of_SomeD)

lemma hub_ok_attach:
  assumes "hub_ok h" "epochs h + 1 < 2 ^ 64"
  shows "hub_ok (fst (hub_attach now d nm v caps h))"
  using assms
  by (auto simp: hub_ok_def hub_attach_def Let_def list_all_iff distinct_update
        dest!: set_alist_update)

lemma hub_ok_detach: "hub_ok h \<Longrightarrow> hub_ok (fst (hub_detach d n h))"
  by (auto simp: hub_ok_def hub_detach_def list_all_iff distinct_delete
        dest!: set_alist_delete split: option.splits)

lemma hub_ok_map_entry:
  assumes "hub_ok h"
    and "\<And>c. device_id (worker (f c)) = device_id (worker c)" "\<And>c. epoch (f c) = epoch c"
  shows "hub_ok (h\<lparr>connections := AList.map_entry d f (connections h)\<rparr>)"
  using assms
  by (auto simp: hub_ok_def list_all_iff dom_map_entry distinct_map_entry
        dest!: set_alist_map_entry)

lemma hub_ok_touch [simp]: "hub_ok h \<Longrightarrow> hub_ok (hub_touch now d h)"
  unfolding hub_touch_def by (rule hub_ok_map_entry) auto

lemma hub_ok_hang_up [simp]: "hub_ok h \<Longrightarrow> hub_ok (hub_hang_up d h)"
  unfolding hub_hang_up_def by (rule hub_ok_map_entry) auto

lemma hub_ok_send [simp]: "hub_ok h \<Longrightarrow> hub_ok (fst (hub_send d f h))"
  by (auto simp: hub_send_def intro: hub_ok_map_entry split: option.splits)

section \<open>Who is capable\<close>

lemma hub_capable_worker_Some:
  assumes ok: "hub_ok h" and found: "hub_capable_worker r h = Some w"
  obtains c where "map_of (connections h) (device_id w) = Some c" "worker c = w"
    "satisfies (capabilities w) r"
proof -
  let ?ws = "filter (\<lambda>w. satisfies (capabilities w) r) (map (worker \<circ> snd) (connections h))"
  from found obtain rest where "sort_key device_id ?ws = w # rest"
    by (auto simp: hub_capable_worker_def split: list.splits)
  then have "w \<in> set ?ws" by (metis list.set_intros(1) set_sort)
  then obtain d c where dc: "(d, c) \<in> set (connections h)" "worker c = w"
    and sat: "satisfies (capabilities w) r"
    by auto
  with ok have "device_id w = d" "map_of (connections h) d = Some c"
    by (auto simp: hub_ok_def list_all_iff)
  with dc sat that show thesis by simp
qed

lemma hub_capable_worker_None:
  "hub_capable_worker r h = None \<longleftrightarrow>
     (\<forall>w \<in> set (hub_connected h). \<not> satisfies (capabilities w) r)"
proof -
  have "hub_capable_worker r h = None \<longleftrightarrow>
      set (filter (\<lambda>w. satisfies (capabilities w) r) (map (worker \<circ> snd) (connections h))) = {}"
    unfolding hub_capable_worker_def
    by (metis (no_types, lifting) list.case_eq_if option.distinct(1) set_empty set_sort)
  then show ?thesis by (auto simp: hub_connected_def filter_empty_conv)
qed

lemma hub_capable_worker_least:
  "hub_capable_worker r h = Some w \<Longrightarrow> w' \<in> set (hub_connected h) \<Longrightarrow>
     satisfies (capabilities w') r \<Longrightarrow> device_id w \<le> device_id w'"
proof -
  let ?ws = "sort_key device_id
    (filter (\<lambda>w. satisfies (capabilities w) r) (map (worker \<circ> snd) (connections h)))"
  assume "hub_capable_worker r h = Some w" "w' \<in> set (hub_connected h)"
    "satisfies (capabilities w') r"
  then have "?ws \<noteq> []" "hd ?ws = w" "w' \<in> set ?ws"
    by (auto simp: hub_capable_worker_def hub_connected_def split: list.splits)
  moreover have "sorted (map device_id ?ws)" by (rule sorted_sort_key)
  ultimately show ?thesis by (cases ?ws) auto
qed

section \<open>What a send changes\<close>

definition outbound_to :: "string \<Rightarrow> worker_hub \<Rightarrow> server_frame list" where
  "outbound_to d h = (case map_of (connections h) d of Some c \<Rightarrow> outbound c | None \<Rightarrow> [])"

definition reachable :: "string \<Rightarrow> worker_hub \<Rightarrow> bool" where
  "reachable d h \<longleftrightarrow> (case map_of (connections h) d of Some c \<Rightarrow> receiving c | None \<Rightarrow> False)"

lemma map_entry_workers:
  "(\<And>c. worker (f c) = worker c) \<Longrightarrow>
     map (worker \<circ> snd) (AList.map_entry d f xs) = map (worker \<circ> snd) xs"
  by (induction xs) auto

lemma hub_send_workers [simp]:
  "map (worker \<circ> snd) (connections (fst (hub_send d f h))) = map (worker \<circ> snd) (connections h)"
  by (auto simp: hub_send_def map_entry_workers simp del: map_map split: option.splits)

lemma hub_send_capable [simp]:
  "hub_capable_worker r (fst (hub_send d f h)) = hub_capable_worker r h"
  "hub_connected (fst (hub_send d f h)) = hub_connected h"
  by (simp_all only: hub_capable_worker_def hub_connected_def hub_send_workers)

lemma hub_send_sent [simp]: "snd (hub_send d f h) = reachable d h"
  by (auto simp: hub_send_def reachable_def split: option.splits)

lemma hub_send_outbound [simp]:
  "outbound_to e (fst (hub_send d f h)) =
     outbound_to e h @ (if e = d \<and> reachable d h then [f] else [])"
  by (cases "map_of (connections h) e")
    (auto simp: hub_send_def reachable_def outbound_to_def map_of_map_entry split: option.splits)

lemma hub_send_reachable [simp]: "reachable e (fst (hub_send d f h)) = reachable e h"
  by (cases "map_of (connections h) e")
    (auto simp: hub_send_def reachable_def map_of_map_entry split: option.splits)

lemma hub_attach_reachable [simp]:
  "reachable e (fst (hub_attach now d nm v caps h)) \<longleftrightarrow> e = d \<or> reachable e h"
  by (auto simp: hub_attach_def Let_def reachable_def update_conv')

lemma hub_attach_outbound [simp]: "outbound_to d (fst (hub_attach now d nm v caps h)) = []"
  by (auto simp: hub_attach_def Let_def outbound_to_def update_conv')

section \<open>Registries of connections\<close>

text \<open>
  What the dispatcher and the transports rely on: an attach replaces the connection of
  its device under an epoch that was never issued before, and a detach removes a
  connection only by the epoch it was attached with. \<open>step\<close> is any step of the registry.
\<close>

locale connection_registry =
  fixes inv :: "'h \<Rightarrow> bool"
    and current :: "'h \<Rightarrow> string \<Rightarrow> nat option"
    and issued :: "'h \<Rightarrow> nat set"
    and attaches :: "string \<Rightarrow> nat \<Rightarrow> 'h \<Rightarrow> 'h \<Rightarrow> bool"
    and detach :: "string \<Rightarrow> nat \<Rightarrow> 'h \<Rightarrow> 'h \<times> bool"
    and step :: "'h \<Rightarrow> 'h \<Rightarrow> bool"
  assumes attach_step: "attaches d n h h' \<Longrightarrow> step h h'"
    and attach_current: "inv h \<Longrightarrow> attaches d n h h' \<Longrightarrow> current h' d = Some n"
    and attach_fresh: "inv h \<Longrightarrow> attaches d n h h' \<Longrightarrow> n \<notin> issued h"
    and current_issued: "inv h \<Longrightarrow> current h d = Some n \<Longrightarrow> n \<in> issued h"
    and step_inv: "inv h \<Longrightarrow> step h h' \<Longrightarrow> inv h'"
    and step_issued: "inv h \<Longrightarrow> step h h' \<Longrightarrow> issued h \<subseteq> issued h'"
    and step_current: "inv h \<Longrightarrow> step h h' \<Longrightarrow> current h' d = Some n \<Longrightarrow>
      current h d = Some n \<or> n \<notin> issued h"
    and detach_stale: "current h d \<noteq> Some n \<Longrightarrow> detach d n h = (h, False)"
begin

lemma steps_inv: "step\<^sup>*\<^sup>* h h' \<Longrightarrow> inv h \<Longrightarrow> inv h'"
  by (induction rule: rtranclp_induct) (auto intro: step_inv)

lemma steps_issued: "step\<^sup>*\<^sup>* h h' \<Longrightarrow> inv h \<Longrightarrow> issued h \<subseteq> issued h'"
  by (induction rule: rtranclp_induct) (auto dest: step_issued steps_inv)

lemma steps_not_current:
  "step\<^sup>*\<^sup>* h h' \<Longrightarrow> inv h \<Longrightarrow> n \<in> issued h \<Longrightarrow> current h d \<noteq> Some n \<Longrightarrow> current h' d \<noteq> Some n"
proof (induction rule: rtranclp_induct)
  case (step y z)
  then have "inv y" "n \<in> issued y" by (auto dest: steps_inv steps_issued)
  with step show ?case by (auto dest: step_current)
qed

lemma replaced_never_evicts:
  assumes "inv h" "attaches d n h h1" "step\<^sup>*\<^sup>* h1 h2" "attaches d m h2 h3" "step\<^sup>*\<^sup>* h3 h4"
  shows "detach d n h4 = (h4, False)"
proof -
  have i1: "inv h1" using assms(1,2) by (blast intro: step_inv attach_step)
  have i2: "inv h2" using assms(3) i1 by (rule steps_inv)
  have n1: "n \<in> issued h1" using i1 assms(1,2) by (blast intro: current_issued attach_current)
  then have n2: "n \<in> issued h2" using steps_issued [OF assms(3) i1] by blast
  then have "m \<noteq> n" using attach_fresh [OF i2 assms(4)] by auto
  then have "current h3 d \<noteq> Some n" using attach_current [OF i2 assms(4)] by simp
  moreover have "inv h3" "n \<in> issued h3"
    using i2 n2 attach_step [OF assms(4)] by (auto dest: step_inv step_issued)
  ultimately have "current h4 d \<noteq> Some n" using assms(5) by (blast dest: steps_not_current)
  then show ?thesis by (rule detach_stale)
qed

end

text \<open>Every way the hub changes. The counter never reaches its wrap-around.\<close>

inductive hub_step :: "worker_hub \<Rightarrow> worker_hub \<Rightarrow> bool" where
  attach: "epochs h + 1 < 2 ^ 64 \<Longrightarrow> hub_step h (fst (hub_attach now d nm v caps h))"
| detach: "hub_step h (fst (hub_detach d n h))"
| touch: "hub_step h (hub_touch now d h)"
| send: "hub_step h (fst (hub_send d f h))"
| hang_up: "hub_step h (hub_hang_up d h)"

definition hub_current :: "worker_hub \<Rightarrow> string \<Rightarrow> nat option" where
  "hub_current h d = map_option epoch (map_of (connections h) d)"

definition hub_issued :: "worker_hub \<Rightarrow> nat set" where
  "hub_issued h = {n. n \<le> epochs h}"

definition hub_attaches :: "string \<Rightarrow> nat \<Rightarrow> worker_hub \<Rightarrow> worker_hub \<Rightarrow> bool" where
  "hub_attaches d n h h' \<longleftrightarrow>
     epochs h + 1 < 2 ^ 64
     \<and> (\<exists>now nm v caps. (h', n) = hub_attach now d nm v caps h)"

lemma hub_current_map_entry:
  "(\<And>c. epoch (f c) = epoch c) \<Longrightarrow>
     hub_current (h\<lparr>connections := AList.map_entry e f (connections h)\<rparr>) d = hub_current h d"
  by (cases "map_of (connections h) d")
    (auto simp: hub_current_def map_of_map_entry split: option.splits)

lemma hub_current_same [simp]:
  "hub_current (hub_touch now e h) d = hub_current h d"
  "hub_current (hub_hang_up e h) d = hub_current h d"
  "hub_current (fst (hub_send e f h)) d = hub_current h d"
  by (auto simp: hub_touch_def hub_hang_up_def hub_send_def hub_current_map_entry
      split: option.splits)

lemma hub_current_step:
  "hub_step h h' \<Longrightarrow> hub_current h' d = Some n \<Longrightarrow> hub_current h d = Some n \<or> n = epochs h + 1"
proof (induction rule: hub_step.induct)
  case (attach h now e nm v caps)
  then show ?case
    by (auto simp: hub_attach_def Let_def update_conv' hub_current_def split: if_splits)
next
  case (detach h e m)
  then show ?case
    by (auto simp: hub_detach_def hub_current_def delete_conv' split: option.splits if_splits)
qed auto

lemma hub_epochs_step: "hub_step h h' \<Longrightarrow> epochs h \<le> epochs h'"
  by (induction rule: hub_step.induct) (auto simp: hub_defs split: option.splits)

lemma hub_ok_step: "hub_step h h' \<Longrightarrow> hub_ok h \<Longrightarrow> hub_ok h'"
  by (induction rule: hub_step.induct) (auto intro: hub_ok_attach hub_ok_detach)

interpretation whub: connection_registry hub_ok hub_current hub_issued hub_attaches
  hub_detach hub_step
proof unfold_locales
  fix d n h h'
  show "hub_attaches d n h h' \<Longrightarrow> hub_step h h'"
    unfolding hub_attaches_def by (metis fst_conv hub_step.attach)
  show "hub_ok h \<Longrightarrow> hub_attaches d n h h' \<Longrightarrow> hub_current h' d = Some n"
    "hub_ok h \<Longrightarrow> hub_attaches d n h h' \<Longrightarrow> n \<notin> hub_issued h"
    by (auto simp: hub_attaches_def hub_attach_def Let_def hub_current_def update_conv'
        hub_issued_def)
  show "hub_ok h \<Longrightarrow> hub_current h d = Some n \<Longrightarrow> n \<in> hub_issued h"
    by (auto simp: hub_current_def hub_issued_def dest: hub_ok_lookup)
  show "hub_current h d \<noteq> Some n \<Longrightarrow> hub_detach d n h = (h, False)"
    by (auto simp: hub_current_def hub_detach_def split: option.splits)
qed (auto simp: hub_issued_def intro: hub_ok_step dest: hub_epochs_step hub_current_step)

section \<open>Properties of the hub\<close>

text \<open>
  A transport that was replaced by a newer connection of its device never evicts it:
  after a second attach, whatever the hub did before and after, detaching with the first
  epoch changes nothing and says so.
\<close>

theorem stale_detach_keeps:
  assumes "hub_ok h" "hub_attaches d n h h1" "hub_step\<^sup>*\<^sup>* h1 h2"
    "hub_attaches d m h2 h3" "hub_step\<^sup>*\<^sup>* h3 h4"
  shows "hub_detach d n h4 = (h4, False)"
  using assms by (rule whub.replaced_never_evicts)

text \<open>
  The worker chosen for a requirement is connected and satisfies it, no connected
  worker with a smaller device id does, and nobody is chosen only when no connected worker
  satisfies it.
\<close>

theorem capable_worker_choice:
  assumes "hub_ok h"
  shows "case hub_capable_worker r h of
      None \<Rightarrow> \<forall>w \<in> set (hub_connected h). \<not> satisfies (capabilities w) r
    | Some w \<Rightarrow> hub_is_connected (device_id w) h \<and> satisfies (capabilities w) r
        \<and> (\<forall>w' \<in> set (hub_connected h). satisfies (capabilities w') r \<longrightarrow>
              device_id w \<le> device_id w')"
  using hub_capable_worker_None [of r h] hub_capable_worker_Some [OF assms, of r]
    hub_capable_worker_least [of r h]
  by (cases "hub_capable_worker r h") (auto simp: hub_is_connected_def, metis option.simps(3))

theorem stale_detach_keeps_witness:
  "hub_detach ''w'' 1 (fst (hub_attach 2 ''w'' ''n'' None JNull
      (fst (hub_attach 1 ''w'' ''n'' None JNull hub_new)))) =
   (fst (hub_attach 2 ''w'' ''n'' None JNull (fst (hub_attach 1 ''w'' ''n'' None JNull hub_new))), False)"
proof -
  let ?h1 = "fst (hub_attach 1 ''w'' ''n'' None JNull hub_new)"
  let ?h2 = "fst (hub_attach 2 ''w'' ''n'' None JNull ?h1)"
  have "hub_attaches ''w'' 1 hub_new ?h1" "hub_attaches ''w'' 2 ?h1 ?h2"
    by (auto simp: hub_attaches_def hub_attach_def hub_new_def Let_def)
  from stale_detach_keeps [OF hub_ok_new this(1) _ this(2)] show ?thesis by simp
qed

theorem capable_worker_choice_witness:
  "hub_is_connected ''w'' (fst (hub_attach 1 ''w'' ''n'' None (JObject [(TRANSCODE, JBool True)]) hub_new))"
proof -
  let ?h = "fst (hub_attach 1 ''w'' ''n'' None (JObject [(TRANSCODE, JBool True)]) hub_new)"
  have "hub_ok ?h" by (rule hub_ok_attach [OF hub_ok_new]) (simp add: hub_new_def)
  from capable_worker_choice [OF this, of transcode_requires] show ?thesis
    by (simp add: hub_capable_worker_def hub_attach_def hub_new_def Let_def
        transcode_requires_def jget_def)
qed

end
