(* ===== verification/Guarded_Write.thy ===== *)
theory Guarded_Write
  imports Prelude
begin

text \<open>
  One conditional \<open>UPDATE\<close> of a table, the way the services write their rows: a key and
  a guard select the row, the update gives the row its new columns, and the caller learns
  the row as it now stands, or that the guard did not match. A table is the list of its
  rows; \<open>ident\<close> is the primary key.
\<close>

locale guarded_write =
  fixes ident :: "'row \<Rightarrow> 'k"
    and key :: 'k
    and hits :: "'row \<Rightarrow> bool"
    and effect :: "'row \<Rightarrow> 'row"
    and exec :: "'row list \<Rightarrow> 'row list \<times> 'row option"
  assumes rows: "fst (exec t) = map (\<lambda>r. if hits r then effect r else r) t"
    and found: "snd (exec t) =
      (if list_ex hits t then find (\<lambda>r. ident r = key) (fst (exec t)) else None)"
    and hits_key: "hits r \<Longrightarrow> ident r = key"
    and effect_ident: "ident (effect r) = ident r"
begin

lemma ids: "map ident (fst (exec t)) = map ident t"
  by (simp add: rows effect_ident)

lemma frame: "r \<in> set t \<Longrightarrow> \<not> hits r \<Longrightarrow> r \<in> set (fst (exec t))"
  by (force simp: rows)

lemma row_cases:
  assumes "r' \<in> set (fst (exec t))"
  obtains "r' \<in> set t" "\<not> hits r'" | r where "r \<in> set t" "hits r" "r' = effect r"
  using assms by (auto simp: rows split: if_splits)

lemma successor:
  "r \<in> set t \<Longrightarrow> (if hits r then effect r else r) \<in> set (fst (exec t))"
  by (auto simp: rows)

lemma found_key: "snd (exec t) = Some r \<Longrightarrow> ident r = key \<and> r \<in> set (fst (exec t))"
  by (auto simp: found find_Some_iff split: if_splits)

lemma missed: "snd (exec t) = None \<Longrightarrow> fst (exec t) = t \<and> (\<forall>r \<in> set t. \<not> hits r)"
proof -
  assume none: "snd (exec t) = None"
  have "\<not> list_ex hits t"
  proof
    assume ex: "list_ex hits t"
    then obtain r where "r \<in> set t" "hits r" by (auto simp: list_ex_iff)
    then have "effect r \<in> set (fst (exec t))" "ident (effect r) = key"
      using successor [of r t] by (auto simp: effect_ident hits_key)
    then show False using none ex by (auto simp: found find_None_iff)
  qed
  then show ?thesis by (auto simp: rows list_ex_iff intro: map_idI)
qed

lemma moved:
  assumes "distinct (map ident t)" "snd (exec t) = Some r'"
  shows "\<exists>r \<in> set t. hits r \<and> r' = effect r"
proof -
  from assms(2) obtain r where r: "r \<in> set t" "hits r"
    by (auto simp: found list_ex_iff split: if_splits)
  then have "effect r \<in> set (fst (exec t))" "ident (effect r) = key"
    using successor [of r t] by (auto simp: effect_ident hits_key)
  moreover have "distinct (map ident (fst (exec t)))" using assms(1) by (simp add: ids)
  ultimately have "r' = effect r"
    using found_key [OF assms(2)] by (metis (mono_tags) distinct_map inj_onD)
  with r show ?thesis by blast
qed

lemma lookup:
  "find (\<lambda>r. ident r = k) (fst (exec t)) =
     map_option (\<lambda>r. if hits r then effect r else r) (find (\<lambda>r. ident r = k) t)"
  unfolding rows by (induction t) (auto simp: effect_ident)

lemma hit:
  "find (\<lambda>r. ident r = key) t = Some r \<Longrightarrow> hits r \<Longrightarrow> snd (exec t) = Some (effect r)"
  by (auto simp: found lookup list_ex_iff find_Some_iff)

lemma miss:
  assumes "distinct (map ident t)" "find (\<lambda>r. ident r = key) t = Some r" "\<not> hits r"
  shows "snd (exec t) = None" "fst (exec t) = t"
proof -
  have "\<not> hits r'" if "r' \<in> set t" for r'
    using assms hits_key that by (metis (mono_tags) distinct_map find_Some_iff inj_on_def nth_mem)
  then show "snd (exec t) = None" by (simp add: found list_ex_iff)
  then show "fst (exec t) = t" using missed by blast
qed

lemma preserves:
  "\<forall>r \<in> set t. P r \<Longrightarrow> (\<And>r. r \<in> set t \<Longrightarrow> hits r \<Longrightarrow> P r \<Longrightarrow> P (effect r)) \<Longrightarrow>
     \<forall>r \<in> set (fst (exec t)). P r"
  by (auto elim!: row_cases)

end

end
