(* ===== verification/Worker_Store.thy ===== *)
theory Worker_Store
  imports Worker_Kind Guarded_Write
begin

text \<open>
  The \<open>worker_jobs\<close> table and its two writes: the row type
  (\<^verbatim>\<open>crates/models/src/entity/worker_job.rs\<close>), the status
  (\<^verbatim>\<open>crates/models/src/shared/enums.rs\<close>), and \<open>update_status\<close> and \<open>finish\<close> of
  \<^verbatim>\<open>crates/worker/src/service.rs\<close>. Both are single guarded updates, so every interleaving
  of handlers is a sequence of the steps of \<open>store_step\<close>. Database failures are left out.
\<close>

section \<open>Rows\<close>

datatype worker_job_status = Queued | Claimed | Running | Done | Failed | NeedsWorker

definition is_terminal :: "worker_job_status \<Rightarrow> bool" where
  "is_terminal st \<longleftrightarrow> st \<in> {Done, Failed}"

definition is_assigned :: "worker_job_status \<Rightarrow> bool" where
  "is_assigned st \<longleftrightarrow> st \<in> {Queued, Claimed, Running}"

fun as_str :: "worker_job_status \<Rightarrow> string" where
  "as_str Queued = ''queued''"
| "as_str Claimed = ''claimed''"
| "as_str Running = ''running''"
| "as_str Done = ''done''"
| "as_str Failed = ''failed''"
| "as_str NeedsWorker = ''needs_worker''"

record worker_job =
  job_id :: string
  kind :: string
  input :: json
  requires :: json
  status :: worker_job_status
  worker_id :: "string option"
  priority :: int
  progress :: f64
  progress_message :: "string option"
  job_result :: "json option"
  job_error :: "string option"
  created_at :: int
  updated_at :: int
  started_at :: "int option"
  finished_at :: "int option"

definition new_job :: "int \<Rightarrow> string \<Rightarrow> string \<Rightarrow> json \<Rightarrow> json \<Rightarrow> int \<Rightarrow> worker_job" where
  "new_job now jid k inp req prio =
     \<lparr>job_id = jid, kind = k, input = inp, requires = req, status = Queued,
      worker_id = None, priority = prio, progress = Fin 0, progress_message = None,
      job_result = None, job_error = None, created_at = now, updated_at = now,
      started_at = None, finished_at = None\<rparr>"

definition find_by_id :: "string \<Rightarrow> worker_job list \<Rightarrow> worker_job option" where
  "find_by_id jid t = find (\<lambda>j. job_id j = jid) t"

section \<open>The guarded status write\<close>

record transition =
  tr_worker_id_guard :: "string option"
  tr_worker_id :: "string option option"
  tr_progress :: "f64 option"
  tr_message :: "string option option"
  tr_error :: "string option"
  tr_started_at :: bool
  tr_finished_at :: bool

definition no_change :: transition where
  "no_change =
     \<lparr>tr_worker_id_guard = None, tr_worker_id = None, tr_progress = None,
      tr_message = None, tr_error = None, tr_started_at = False, tr_finished_at = False\<rparr>"

definition status_hits ::
  "string \<Rightarrow> worker_job_status list \<Rightarrow> transition \<Rightarrow> worker_job \<Rightarrow> bool" where
  "status_hits jid frm ch j \<longleftrightarrow>
     job_id j = jid \<and> status j \<in> set frm
     \<and> (case tr_worker_id_guard ch of None \<Rightarrow> True | Some w \<Rightarrow> worker_id j = Some w)"

definition status_set ::
  "int \<Rightarrow> worker_job_status \<Rightarrow> transition \<Rightarrow> worker_job \<Rightarrow> worker_job" where
  "status_set now to ch j =
     j\<lparr>status := to, updated_at := now,
       worker_id := (case tr_worker_id ch of None \<Rightarrow> worker_id j | Some w \<Rightarrow> w),
       progress := (case tr_progress ch of None \<Rightarrow> progress j | Some p \<Rightarrow> p),
       progress_message :=
         (case tr_message ch of None \<Rightarrow> progress_message j | Some m \<Rightarrow> m),
       job_error := (case tr_error ch of None \<Rightarrow> job_error j | Some e \<Rightarrow> Some e),
       started_at := (if tr_started_at ch then Some now else started_at j),
       finished_at := (if tr_finished_at ch then Some now else finished_at j)\<rparr>"

definition update_status ::
  "int \<Rightarrow> string \<Rightarrow> worker_job_status list \<Rightarrow> worker_job_status \<Rightarrow> transition
     \<Rightarrow> worker_job list \<Rightarrow> worker_job list \<times> worker_job option" where
  "update_status now jid frm to ch t =
     (let t' = map (\<lambda>j. if status_hits jid frm ch j then status_set now to ch j else j) t
      in if list_ex (status_hits jid frm ch) t then (t', find_by_id jid t') else (t, None))"

section \<open>The terminal write\<close>

text \<open>
  A validator belongs to the host: it is a parameter that accepts a result (\<open>None\<close>) or
  gives the reason it is refused.
\<close>

type_synonym validator = "worker_job \<Rightarrow> json \<Rightarrow> string option"

definition finish_from :: "worker_job_status list" where
  "finish_from = [Queued, Claimed, Running]"

definition finish_hits :: "string \<Rightarrow> worker_job \<Rightarrow> bool" where
  "finish_hits jid j \<longleftrightarrow> job_id j = jid \<and> status j \<in> set finish_from"

fun finish_set :: "int \<Rightarrow> (string, json) result \<Rightarrow> worker_job \<Rightarrow> worker_job" where
  "finish_set now (Inr res) j =
     j\<lparr>status := Done, updated_at := now, finished_at := Some now,
       job_result := Some res, job_error := None, progress := Fin 1\<rparr>"
| "finish_set now (Inl err) j =
     j\<lparr>status := Failed, updated_at := now, finished_at := Some now,
       job_result := None, job_error := Some err\<rparr>"

definition finish_write ::
  "int \<Rightarrow> string \<Rightarrow> (string, json) result \<Rightarrow> worker_job list
     \<Rightarrow> worker_job list \<times> worker_job option" where
  "finish_write now jid outcome t =
     (let t' = map (\<lambda>j. if finish_hits jid j then finish_set now outcome j else j) t
      in if list_ex (finish_hits jid) t then (t', find_by_id jid t') else (t, None))"

definition finish ::
  "int \<Rightarrow> string \<Rightarrow> (string, json) result \<Rightarrow> validator option \<Rightarrow> worker_job list
     \<Rightarrow> worker_job list \<times> worker_job option" where
  "finish now jid outcome validator t =
     (case (outcome, validator) of
        (Inr res, Some v) \<Rightarrow>
          (case find_by_id jid t of
             None \<Rightarrow> (t, None)
           | Some job \<Rightarrow>
               if status job \<notin> set finish_from then (t, None)
               else (case v job res of
                       None \<Rightarrow> finish_write now jid (Inr res) t
                     | Some err \<Rightarrow> finish_write now jid (Inl err) t))
      | _ \<Rightarrow> finish_write now jid outcome t)"

lemmas row_defs = status_hits_def status_set_def no_change_def finish_hits_def finish_from_def
  is_terminal_def is_assigned_def

section \<open>Both writes are guarded writes\<close>

lemma find_by_id_Some: "find_by_id jid t = Some j \<Longrightarrow> j \<in> set t \<and> job_id j = jid"
  by (auto simp: find_by_id_def find_Some_iff)

lemma find_by_id_in:
  "distinct (map job_id t) \<Longrightarrow> j \<in> set t \<Longrightarrow> find_by_id (job_id j) t = Some j"
  by (induction t) (auto simp: find_by_id_def)

lemma status_set_id [simp]: "job_id (status_set now to ch j) = job_id j"
  by (simp add: status_set_def)

lemma finish_set_id [simp]: "job_id (finish_set now outcome j) = job_id j"
  by (cases outcome) auto

interpretation ust: guarded_write job_id jid "status_hits jid frm ch" "status_set now to ch"
  "update_status now jid frm to ch" for now jid frm to ch
proof unfold_locales
  fix t
  show "fst (update_status now jid frm to ch t) =
      map (\<lambda>j. if status_hits jid frm ch j then status_set now to ch j else j) t"
    by (auto simp: update_status_def Let_def list_ex_iff intro!: map_idI [symmetric])
qed (auto simp: update_status_def Let_def status_hits_def find_by_id_def)

interpretation fin: guarded_write job_id jid "finish_hits jid" "finish_set now outcome"
  "finish_write now jid outcome" for now jid outcome
proof unfold_locales
  fix t
  show "fst (finish_write now jid outcome t) =
      map (\<lambda>j. if finish_hits jid j then finish_set now outcome j else j) t"
    by (auto simp: finish_write_def Let_def list_ex_iff intro!: map_idI [symmetric])
qed (auto simp: finish_write_def Let_def finish_hits_def find_by_id_def)

lemmas find_update = ust.lookup [folded find_by_id_def]
lemmas update_hit = ust.hit [folded find_by_id_def]
lemmas update_miss = ust.miss [folded find_by_id_def]
lemmas find_finish_write = fin.lookup [folded find_by_id_def]
lemmas finish_write_hit = fin.hit [folded find_by_id_def]
lemmas finish_write_miss = fin.miss [folded find_by_id_def]

text \<open>With a validator, \<open>finish\<close> is the write of the outcome the validator leaves.\<close>

definition judged ::
  "(string, json) result \<Rightarrow> validator option \<Rightarrow> worker_job \<Rightarrow> (string, json) result" where
  "judged outcome validator j =
     (case (outcome, validator) of
        (Inr res, Some v) \<Rightarrow> (case v j res of None \<Rightarrow> Inr res | Some err \<Rightarrow> Inl err)
      | _ \<Rightarrow> outcome)"

lemma finish_judged:
  assumes "distinct (map job_id t)"
  shows "finish now jid outcome validator t =
    (case find_by_id jid t of
       None \<Rightarrow> (t, None)
     | Some j \<Rightarrow> finish_write now jid (judged outcome validator j) t)"
proof (cases "find_by_id jid t")
  case None
  then have "\<not> list_ex (finish_hits jid) t"
    by (auto simp: find_by_id_def find_None_iff list_ex_iff finish_hits_def)
  with None show ?thesis
    by (auto simp: finish_def finish_write_def split: option.splits sum.splits)
next
  case (Some j)
  have "status j \<notin> set finish_from \<Longrightarrow> \<not> list_ex (finish_hits jid) t"
  proof
    assume "status j \<notin> set finish_from" "list_ex (finish_hits jid) t"
    then obtain i where "i \<in> set t" "finish_hits jid i" by (auto simp: list_ex_iff)
    moreover from this have "find_by_id jid t = Some i"
      using find_by_id_in [OF assms] by (auto simp: finish_hits_def)
    ultimately show False
      using Some \<open>status j \<notin> set finish_from\<close> by (simp add: finish_hits_def)
  qed
  with Some show ?thesis
    by (auto simp: finish_def judged_def finish_write_def split: option.splits sum.splits)
qed

section \<open>Every write of the service\<close>

inductive store_step :: "worker_job list \<Rightarrow> worker_job list \<Rightarrow> bool" where
  insert: "find_by_id jid t = None \<Longrightarrow> store_step t (t @ [new_job now jid k inp req prio])"
| offer: "store_step t (fst (update_status now jid [Queued, NeedsWorker] Queued
    (no_change\<lparr>tr_worker_id := Some (Some dev)\<rparr>) t))"
| park: "store_step t (fst (update_status now jid [Queued] NeedsWorker no_change t))"
| unpark: "store_step t (fst (update_status now jid [NeedsWorker] Queued no_change t))"
| release: "store_step t (fst (update_status now jid [Queued] Queued
    (no_change\<lparr>tr_worker_id := Some None, tr_worker_id_guard := guard\<rparr>) t))"
| start: "store_step t (fst (update_status now jid [Queued] Running
    (no_change\<lparr>tr_started_at := True\<rparr>) t))"
| claim: "store_step t (fst (update_status now jid [Queued] Claimed
    (no_change\<lparr>tr_worker_id_guard := Some dev, tr_started_at := True\<rparr>) t))"
| advance: "fraction \<noteq> NaN \<Longrightarrow>
    store_step t (fst (update_status now jid [Claimed, Running] Running
      (no_change\<lparr>tr_progress := Some (f64_clamp fraction (Fin 0) (Fin 1)),
        tr_message := Some msg\<rparr>) t))"
| cancelled: "store_step t (fst (update_status now jid [Queued, Claimed, Running, NeedsWorker]
    Failed (no_change\<lparr>tr_error := Some reason, tr_finished_at := True\<rparr>) t))"
| finished: "store_step t (fst (finish now jid outcome validator t))"

definition row_ok :: "worker_job \<Rightarrow> bool" where
  "row_ok j \<longleftrightarrow>
     f64_unit (progress j)
     \<and> (is_terminal (status j) \<longleftrightarrow> finished_at j \<noteq> None)
     \<and> (status j = Done \<longleftrightarrow> job_result j \<noteq> None)
     \<and> (status j = Failed \<longleftrightarrow> job_error j \<noteq> None)
     \<and> (status j = Done \<longrightarrow> progress j = Fin 1)
     \<and> (status j = Claimed \<longrightarrow> worker_id j \<noteq> None)
     \<and> (status j \<in> {Claimed, Running} \<longrightarrow> started_at j \<noteq> None)"

definition table_ok :: "worker_job list \<Rightarrow> bool" where
  "table_ok t \<longleftrightarrow> distinct (map job_id t) \<and> (\<forall>j \<in> set t. row_ok j)"

lemma finish_set_ok: "finish_hits jid j \<Longrightarrow> row_ok j \<Longrightarrow> row_ok (finish_set now outcome j)"
  by (cases outcome) (auto simp: row_ok_def row_defs)

lemma finish_either:
  "distinct (map job_id t) \<Longrightarrow>
     finish now jid outcome validator t = (t, None)
     \<or> (\<exists>o'. finish now jid outcome validator t = finish_write now jid o' t)"
  using finish_judged [of t now jid outcome validator] by (cases "find_by_id jid t") auto

lemma table_ok_update:
  assumes "table_ok t"
    and "\<And>j. status_hits jid frm ch j \<Longrightarrow> row_ok j \<Longrightarrow> row_ok (status_set now to ch j)"
  shows "table_ok (fst (update_status now jid frm to ch t))"
  using assms by (auto simp: table_ok_def ust.ids elim!: ust.row_cases)

lemma table_ok_finish:
  assumes "table_ok t"
  shows "table_ok (fst (finish now jid outcome validator t))"
proof -
  have "table_ok (fst (finish_write now jid o' t))" for o'
    using assms by (auto simp: table_ok_def fin.ids elim!: fin.row_cases intro: finish_set_ok)
  with assms show ?thesis
    using finish_either [of t now jid outcome validator] by (auto simp: table_ok_def)
qed

lemma table_ok_step: "store_step t t' \<Longrightarrow> table_ok t \<Longrightarrow> table_ok t'"
proof (induction rule: store_step.induct)
  case (insert jid t now k inp req prio)
  then show ?case
    by (auto simp: table_ok_def new_job_def row_ok_def row_defs find_by_id_def find_None_iff)
next
  case (finished t now jid outcome validator)
  then show ?case by (rule table_ok_finish)
qed (rule table_ok_update, assumption, force simp: row_ok_def row_defs)+

lemma table_ok_steps: "store_step\<^sup>*\<^sup>* t t' \<Longrightarrow> table_ok t \<Longrightarrow> table_ok t'"
  by (induction rule: rtranclp_induct) (auto intro: table_ok_step)

section \<open>What becomes of a row\<close>

text \<open>
  \<open>later j j'\<close>: what a row may have become. A terminal row is the same row; a claimed or
  running one keeps its holder and its start, and only moves forward.
\<close>

definition later :: "worker_job \<Rightarrow> worker_job \<Rightarrow> bool" where
  "later j j' \<longleftrightarrow>
     job_id j' = job_id j \<and> kind j' = kind j \<and> input j' = input j
     \<and> requires j' = requires j \<and> priority j' = priority j \<and> created_at j' = created_at j
     \<and> (is_terminal (status j) \<longrightarrow> j' = j)
     \<and> (status j \<in> {Claimed, Running} \<longrightarrow>
          worker_id j' = worker_id j \<and> started_at j' = started_at j
          \<and> (status j' \<in> {Claimed, Running} \<or> is_terminal (status j')))
     \<and> (status j = Running \<longrightarrow> status j' \<noteq> Claimed)"

lemma later_refl [simp]: "later j j"
  by (auto simp: later_def)

lemma later_trans: "later i j \<Longrightarrow> later j k \<Longrightarrow> later i k"
  unfolding later_def is_terminal_def by (cases "status i") auto

lemma later_finish: "finish_hits jid j \<Longrightarrow> later j (finish_set now outcome j)"
  by (cases outcome) (auto simp: later_def row_defs)

lemma later_update:
  assumes "j \<in> set t"
    and "\<And>j. status_hits jid frm ch j \<Longrightarrow> later j (status_set now to ch j)"
  shows "\<exists>j' \<in> set (fst (update_status now jid frm to ch t)). later j j'"
  using ust.successor [OF assms(1)] assms(2) by (metis later_refl)

lemma later_step:
  "store_step t t' \<Longrightarrow> distinct (map job_id t) \<Longrightarrow> j \<in> set t \<Longrightarrow> \<exists>j' \<in> set t'. later j j'"
proof (induction rule: store_step.induct)
  case (insert jid t now k inp req prio)
  then show ?case using later_refl by fastforce
next
  case (finished t now jid outcome validator)
  have "\<exists>j' \<in> set (fst (finish_write now jid o' t)). later j j'" for o'
    using fin.successor [OF finished(2)] later_finish by (metis later_refl)
  with finished show ?case
    using finish_either [of t now jid outcome validator] later_refl by fastforce
qed (rule later_update, assumption, force simp: later_def row_defs)+

lemma store_step_distinct: "store_step t t' \<Longrightarrow> distinct (map job_id t) \<Longrightarrow> distinct (map job_id t')"
proof (induction rule: store_step.induct)
  case (finished t now jid outcome validator)
  then show ?case
    using finish_either [of t now jid outcome validator] by (auto simp: fin.ids)
qed (auto simp: ust.ids new_job_def find_by_id_def find_None_iff)

lemma later_steps:
  assumes "store_step\<^sup>*\<^sup>* t t'" "distinct (map job_id t)" "j \<in> set t"
  shows "distinct (map job_id t') \<and> (\<exists>j' \<in> set t'. later j j')"
  using assms(1)
proof (induction rule: rtranclp_induct)
  case base
  with assms later_refl show ?case by blast
next
  case (step u v)
  then obtain k where "k \<in> set u" "later j k" by blast
  moreover obtain k' where "k' \<in> set v" "later k k'"
    using later_step [OF step(2) _ \<open>k \<in> set u\<close>] step.IH by blast
  ultimately show ?case using store_step_distinct [OF step(2)] step.IH later_trans by blast
qed

end
