(* ===== verification/Worker_Jobs.thy ===== *)
theory Worker_Jobs
  imports Worker_Hub Worker_Store
begin

text \<open>
  \<open>WorkerJobs\<close> of \<^verbatim>\<open>crates/worker/src/service.rs\<close>: the queue, the dispatcher and the
  frame handler, on the hub of \<open>Worker_Hub\<close> and the table of \<open>Worker_Store\<close>. The clock
  reading and the fresh uuid of an operation are arguments. A spawned local run is an
  element of \<open>tasks\<close>, which the two steps \<open>local_start\<close> and \<open>local_finish\<close> execute;
  a oneshot channel is a number, and \<open>delivered\<close> lists what was sent into each. The
  files under the output directory are the set of job ids that have one.
\<close>

section \<open>State\<close>

datatype worker_error =
    Database string
  | NotFound string
  | NotAssigned string string
  | Timeout string
  | Io string
  | Invalid string

datatype job_outcome = OutDone json string | OutFailed string | OutNeedsWorker

record worker_job_changed =
  ev_id :: string
  ev_kind :: string
  ev_status :: worker_job_status
  ev_worker_id :: "string option"
  ev_progress :: f64
  ev_message :: "string option"
  ev_error :: "string option"

definition changed_from :: "worker_job \<Rightarrow> worker_job_changed" where
  "changed_from j =
     \<lparr>ev_id = job_id j, ev_kind = kind j, ev_status = status j, ev_worker_id = worker_id j,
      ev_progress = progress j, ev_message = progress_message j, ev_error = job_error j\<rparr>"

datatype local_task = Routed worker_job | Executing worker_job

record worker_jobs =
  hub :: worker_hub
  table :: "worker_job list"
  registry :: "string list"
  output_dir :: string
  on_change :: bool
  events :: "worker_job_changed list"
  waiters :: "(string \<times> nat list) list"
  delivered :: "(nat \<times> job_outcome) list"
  claim_deadline :: int
  claim_sweep_started :: bool
  result_validator :: "validator option"
  outputs :: "string set"
  tasks :: "local_task list"

definition CLAIM_DEADLINE :: int where "CLAIM_DEADLINE = 30000"
definition BACKGROUND_PRIORITY :: int where "BACKGROUND_PRIORITY = -10"
definition INTERACTIVE_PRIORITY :: int where "INTERACTIVE_PRIORITY = 0"

definition jobs_new :: "string \<Rightarrow> worker_job list \<Rightarrow> worker_jobs" where
  "jobs_new dir t =
     \<lparr>hub = hub_new, table = t, registry = [], output_dir = dir, on_change = False,
      events = [], waiters = [], delivered = [], claim_deadline = CLAIM_DEADLINE,
      claim_sweep_started = False, result_validator = None, outputs = {}, tasks = []\<rparr>"

text \<open>\<open>with_claim_deadline\<close> asserts: \<open>None\<close> is the panic.\<close>

definition with_claim_deadline :: "int \<Rightarrow> worker_jobs \<Rightarrow> worker_jobs option" where
  "with_claim_deadline d s = (if d = 0 then None else Some (s\<lparr>claim_deadline := d\<rparr>))"

definition start_claim_sweep :: "worker_jobs \<Rightarrow> worker_jobs \<times> bool" where
  "start_claim_sweep s =
     (if claim_sweep_started s then (s, False)
      else (s\<lparr>claim_sweep_started := True\<rparr>, True))"

definition with_registry :: "string list \<Rightarrow> worker_jobs \<Rightarrow> worker_jobs" where
  "with_registry ks s = s\<lparr>registry := ks\<rparr>"

definition with_change_listener :: "worker_jobs \<Rightarrow> worker_jobs" where
  "with_change_listener s = s\<lparr>on_change := True\<rparr>"

definition set_result_validator :: "validator \<Rightarrow> worker_jobs \<Rightarrow> worker_jobs \<times> bool" where
  "set_result_validator v s =
     (case result_validator s of
        None \<Rightarrow> (s\<lparr>result_validator := Some v\<rparr>, True)
      | Some _ \<Rightarrow> (s, False))"

definition has_result_validator :: "worker_jobs \<Rightarrow> bool" where
  "has_result_validator s \<longleftrightarrow> result_validator s \<noteq> None"

definition output_path :: "string \<Rightarrow> string \<Rightarrow> string" where
  "output_path dir jid = dir @ ''/'' @ jid"

section \<open>Queries\<close>

definition get_job :: "string \<Rightarrow> worker_jobs \<Rightarrow> worker_job option" where
  "get_job jid s = find_by_id jid (table s)"

definition upload_path :: "string \<Rightarrow> string \<Rightarrow> worker_jobs \<Rightarrow> (worker_error, string) result" where
  "upload_path jid dev s =
     (case get_job jid s of
        None \<Rightarrow> Inl (NotFound jid)
      | Some job \<Rightarrow>
          if worker_id job \<noteq> Some dev \<or> \<not> is_assigned (status job)
          then Inl (NotAssigned jid dev)
          else Inr (output_path (output_dir s) jid))"

definition list_jobs :: "worker_job_status option \<Rightarrow> nat \<Rightarrow> worker_jobs \<Rightarrow> worker_job list" where
  "list_jobs st limit s =
     take limit (sort_key (\<lambda>j. - created_at j)
       (filter (\<lambda>j. case st of None \<Rightarrow> True | Some st \<Rightarrow> status j = st) (table s)))"

definition list_of_kind ::
  "string \<Rightarrow> worker_job_status option \<Rightarrow> nat \<Rightarrow> worker_jobs \<Rightarrow> worker_job list" where
  "list_of_kind k st limit s =
     take limit (sort_key (\<lambda>j. - created_at j)
       (filter (\<lambda>j. kind j = k \<and> (case st of None \<Rightarrow> True | Some st \<Rightarrow> status j = st))
         (table s)))"

definition active_of_kind :: "string \<Rightarrow> worker_jobs \<Rightarrow> worker_job list" where
  "active_of_kind k s =
     sort_key created_at
       (filter (\<lambda>j. kind j = k \<and> status j \<in> {Queued, Claimed, Running, NeedsWorker}) (table s))"

section \<open>Announcing and waking\<close>

definition announce :: "worker_job \<Rightarrow> worker_jobs \<Rightarrow> worker_jobs" where
  "announce j s = (if on_change s then s\<lparr>events := events s @ [changed_from j]\<rparr> else s)"

definition outcome_of :: "worker_job \<Rightarrow> string \<Rightarrow> job_outcome" where
  "outcome_of j dir =
     (case status j of
        Done \<Rightarrow> OutDone (case job_result j of None \<Rightarrow> JNull | Some r \<Rightarrow> r)
          (output_path dir (job_id j))
      | NeedsWorker \<Rightarrow> OutNeedsWorker
      | _ \<Rightarrow> OutFailed (case job_error j of Some e \<Rightarrow> e | None \<Rightarrow> as_str (status j)))"

definition wake :: "worker_job \<Rightarrow> worker_jobs \<Rightarrow> worker_jobs" where
  "wake j s =
     (case map_of (waiters s) (job_id j) of
        None \<Rightarrow> s
      | Some blocked \<Rightarrow>
          s\<lparr>waiters := AList.delete (job_id j) (waiters s),
            delivered := delivered s @ map (\<lambda>rx. (rx, outcome_of j (output_dir s))) blocked\<rparr>)"

definition transition ::
  "int \<Rightarrow> string \<Rightarrow> worker_job_status list \<Rightarrow> worker_job_status \<Rightarrow> transition
     \<Rightarrow> worker_jobs \<Rightarrow> worker_jobs \<times> worker_job option" where
  "transition now jid frm to ch s =
     (case update_status now jid frm to ch (table s) of (t, r) \<Rightarrow> (s\<lparr>table := t\<rparr>, r))"

section \<open>Dispatch\<close>

definition job_frame :: "worker_job \<Rightarrow> server_frame" where
  "job_frame j = JobFrame (job_id j) (kind j) (input j) (priority j)"

definition send_to :: "string \<Rightarrow> server_frame \<Rightarrow> worker_jobs \<Rightarrow> worker_jobs \<times> bool" where
  "send_to dev f s = (case hub_send dev f (hub s) of (h, ok) \<Rightarrow> (s\<lparr>hub := h\<rparr>, ok))"

definition offer ::
  "int \<Rightarrow> worker_job \<Rightarrow> connected_worker \<Rightarrow> worker_jobs \<Rightarrow> worker_jobs \<times> bool" where
  "offer now job w s =
     (case send_to (device_id w) (job_frame job) s of (s, sent) \<Rightarrow>
        if \<not> sent then (s, False)
        else (case transition now (job_id job) [Queued, NeedsWorker] Queued
                     (no_change\<lparr>tr_worker_id := Some (Some (device_id w))\<rparr>) s of
                (s, updated) \<Rightarrow> (s, updated \<noteq> None)))"

definition run_locally :: "worker_job \<Rightarrow> worker_jobs \<Rightarrow> worker_jobs" where
  "run_locally job s = s\<lparr>tasks := tasks s @ [Routed job]\<rparr>"

definition select_worker ::
  "worker_job \<Rightarrow> string option \<Rightarrow> worker_hub \<Rightarrow> connected_worker option" where
  "select_worker job avoid h =
     (case (case avoid of
              None \<Rightarrow> None
            | Some a \<Rightarrow> find (\<lambda>w. device_id w \<noteq> a \<and> satisfies (capabilities w) (requires job))
                (hub_connected h)) of
        Some w \<Rightarrow> Some w
      | None \<Rightarrow> hub_capable_worker (requires job) h)"

definition dispatch_unoffered ::
  "int \<Rightarrow> worker_job \<Rightarrow> worker_jobs \<Rightarrow> worker_jobs \<times> (worker_error, worker_job) result" where
  "dispatch_unoffered now job s =
     (if kind job \<in> set (registry s)
      then (run_locally job s, Inr (job\<lparr>status := Running\<rparr>))
      else (case transition now (job_id job) [Queued] NeedsWorker no_change s of
              (s, None) \<Rightarrow> (s, Inl (NotFound (job_id job)))
            | (s, Some row) \<Rightarrow> (s, Inr row)))"

definition dispatch_avoiding ::
  "int \<Rightarrow> worker_job \<Rightarrow> string option \<Rightarrow> worker_jobs
     \<Rightarrow> worker_jobs \<times> (worker_error, worker_job) result" where
  "dispatch_avoiding now job avoid s =
     (case select_worker job avoid (hub s) of
        None \<Rightarrow> dispatch_unoffered now job s
      | Some w \<Rightarrow>
          (case offer now job w s of (s, taken) \<Rightarrow>
             if taken then (s, Inr (job\<lparr>worker_id := Some (device_id w)\<rparr>))
             else dispatch_unoffered now job s))"

definition dispatch ::
  "int \<Rightarrow> worker_job \<Rightarrow> worker_jobs \<Rightarrow> worker_jobs \<times> (worker_error, worker_job) result" where
  "dispatch now job s = dispatch_avoiding now job None s"

definition enqueue ::
  "int \<Rightarrow> string \<Rightarrow> string \<Rightarrow> json \<Rightarrow> json \<Rightarrow> int \<Rightarrow> worker_jobs
     \<Rightarrow> worker_jobs \<times> (worker_error, worker_job) result" where
  "enqueue now jid k inp req prio s =
     (let job = new_job now jid k inp req prio
      in dispatch now job (announce job (s\<lparr>table := table s @ [job]\<rparr>)))"

text \<open>
  \<open>enqueue_and_wait\<close> up to the point where it blocks: \<open>Inr (Some outcome)\<close> when it
  answers at once, \<open>Inr None\<close> when it is left waiting on \<open>rx\<close>. What ends the wait is
  an entry of \<open>delivered\<close>, or \<open>wait_timeout\<close>.
\<close>

definition push_waiter :: "string \<Rightarrow> nat \<Rightarrow> worker_jobs \<Rightarrow> worker_jobs" where
  "push_waiter jid rx s =
     s\<lparr>waiters := AList.update jid
         ((case map_of (waiters s) jid of None \<Rightarrow> [] | Some ws \<Rightarrow> ws) @ [rx]) (waiters s)\<rparr>"

definition drop_waiters :: "string \<Rightarrow> worker_jobs \<Rightarrow> worker_jobs" where
  "drop_waiters jid s = s\<lparr>waiters := AList.delete jid (waiters s)\<rparr>"

definition enqueue_and_wait ::
  "int \<Rightarrow> string \<Rightarrow> nat \<Rightarrow> string \<Rightarrow> json \<Rightarrow> json \<Rightarrow> int \<Rightarrow> worker_jobs
     \<Rightarrow> worker_jobs \<times> (worker_error, job_outcome option) result" where
  "enqueue_and_wait now jid rx k inp req prio s =
     (let s = push_waiter jid rx s; job = new_job now jid k inp req prio
      in case dispatch now job (announce job (s\<lparr>table := table s @ [job]\<rparr>)) of
           (s, Inl e) \<Rightarrow> (s, Inl e)
         | (s, Inr routed) \<Rightarrow>
             if status routed = NeedsWorker
             then (drop_waiters jid s, Inr (Some OutNeedsWorker))
             else (s, Inr None))"

definition wait_timeout ::
  "string \<Rightarrow> worker_jobs \<Rightarrow> worker_jobs \<times> (worker_error, job_outcome) result" where
  "wait_timeout jid s = (drop_waiters jid s, Inl (Timeout jid))"

section \<open>Local runs\<close>

text \<open>
  The spawned task of \<open>run_locally\<close>: it marks the row running, executes the kind's
  runner, and writes the outcome. The runner is the host's; its outcome, and whether it
  left a file at the output path, are arguments.
\<close>

definition local_start :: "int \<Rightarrow> worker_job \<Rightarrow> worker_jobs \<Rightarrow> worker_jobs" where
  "local_start now job s =
     (if Routed job \<in> set (tasks s)
      then (let s = s\<lparr>tasks := remove1 (Routed job) (tasks s)\<rparr>
            in case transition now (job_id job) [Queued] Running
                      (no_change\<lparr>tr_started_at := True\<rparr>) s of
                 (s, Some row) \<Rightarrow> announce row (s\<lparr>tasks := tasks s @ [Executing job]\<rparr>)
               | (s, None) \<Rightarrow> s)
      else s)"

definition local_finish ::
  "int \<Rightarrow> worker_job \<Rightarrow> bool \<Rightarrow> (string, json) result \<Rightarrow> worker_jobs \<Rightarrow> worker_jobs" where
  "local_finish now job wrote outcome s =
     (if Executing job \<in> set (tasks s)
      then (let s = s\<lparr>tasks := remove1 (Executing job) (tasks s),
                      outputs := (if wrote then insert (job_id job) (outputs s) else outputs s)\<rparr>
            in case finish now (job_id job) outcome (result_validator s) (table s) of
                 (t, Some row) \<Rightarrow> wake row (announce row (s\<lparr>table := t\<rparr>))
               | (t, None) \<Rightarrow> s\<lparr>table := t\<rparr>)
      else s)"

section \<open>Claim deadlines\<close>

fun sweep_loop ::
  "int \<Rightarrow> worker_job list \<Rightarrow> nat \<Rightarrow> worker_jobs \<Rightarrow> worker_jobs \<times> (worker_error, nat) result" where
  "sweep_loop now [] released s = (s, Inr released)"
| "sweep_loop now (job # jobs) released s =
     (case worker_id job of
        None \<Rightarrow> sweep_loop now jobs released s
      | Some dev \<Rightarrow>
          (case transition now (job_id job) [Queued] Queued
                  (no_change\<lparr>tr_worker_id := Some None, tr_worker_id_guard := Some dev\<rparr>) s of
             (s, None) \<Rightarrow> sweep_loop now jobs released s
           | (s, Some requeued) \<Rightarrow>
               (case dispatch_avoiding now requeued (Some dev) (announce requeued s) of
                  (s, Inl e) \<Rightarrow> (s, Inl e)
                | (s, Inr _) \<Rightarrow> sweep_loop now jobs (released + 1) s)))"

definition sweep_claim_deadlines ::
  "int \<Rightarrow> worker_jobs \<Rightarrow> worker_jobs \<times> (worker_error, nat) result" where
  "sweep_claim_deadlines now s =
     (let cutoff = now - claim_deadline s
      in sweep_loop now
           (filter (\<lambda>j. status j = Queued \<and> worker_id j \<noteq> None \<and> updated_at j < cutoff)
             (table s)) 0 s)"

section \<open>Transport callbacks\<close>

fun resend_loop :: "string \<Rightarrow> worker_job list \<Rightarrow> nat \<Rightarrow> worker_jobs \<Rightarrow> worker_jobs \<times> nat" where
  "resend_loop dev [] resumed s = (s, resumed)"
| "resend_loop dev (job # jobs) resumed s =
     (case send_to dev (job_frame job) s of (s, sent) \<Rightarrow>
        resend_loop dev jobs (if sent then resumed + 1 else resumed) s)"

fun unpark_loop ::
  "int \<Rightarrow> worker_job list \<Rightarrow> worker_jobs \<Rightarrow> worker_jobs \<times> (worker_error, unit) result" where
  "unpark_loop now [] s = (s, Inr ())"
| "unpark_loop now (job # jobs) s =
     (if hub_capable_worker (requires job) (hub s) = None then unpark_loop now jobs s
      else (case transition now (job_id job) [NeedsWorker] Queued no_change s of
              (s, None) \<Rightarrow> unpark_loop now jobs s
            | (s, Some requeued) \<Rightarrow>
                (case dispatch now requeued s of
                   (s, Inl e) \<Rightarrow> (s, Inl e)
                 | (s, Inr _) \<Rightarrow> unpark_loop now jobs s)))"

definition assigned_to :: "string \<Rightarrow> worker_job list \<Rightarrow> worker_job list" where
  "assigned_to dev t =
     sort_key created_at
       (filter (\<lambda>j. worker_id j = Some dev \<and> status j \<in> {Queued, Claimed, Running}) t)"

definition parked :: "worker_job list \<Rightarrow> worker_job list" where
  "parked t = sort_key (\<lambda>j. (- priority j, created_at j)) (filter (\<lambda>j. status j = NeedsWorker) t)"

definition on_worker_connected ::
  "int \<Rightarrow> string \<Rightarrow> worker_jobs \<Rightarrow> worker_jobs \<times> (worker_error, nat) result" where
  "on_worker_connected now dev s =
     (case resend_loop dev (assigned_to dev (table s)) 0 s of (s, resumed) \<Rightarrow>
        (case unpark_loop now (parked (table s)) s of
           (s, Inl e) \<Rightarrow> (s, Inl e)
         | (s, Inr _) \<Rightarrow> (s, Inr resumed)))"

fun release_loop ::
  "int \<Rightarrow> worker_job list \<Rightarrow> worker_jobs \<Rightarrow> worker_jobs \<times> (worker_error, unit) result" where
  "release_loop now [] s = (s, Inr ())"
| "release_loop now (job # jobs) s =
     (case transition now (job_id job) [Queued] Queued
             (no_change\<lparr>tr_worker_id := Some None\<rparr>) s of
        (s, None) \<Rightarrow> release_loop now jobs s
      | (s, Some released) \<Rightarrow>
          (case dispatch now released s of
             (s, Inl e) \<Rightarrow> (s, Inl e)
           | (s, Inr _) \<Rightarrow> release_loop now jobs s))"

definition on_worker_disconnected ::
  "int \<Rightarrow> string \<Rightarrow> worker_jobs \<Rightarrow> worker_jobs \<times> (worker_error, unit) result" where
  "on_worker_disconnected now dev s =
     release_loop now
       (filter (\<lambda>j. worker_id j = Some dev \<and> status j = Queued) (table s)) s"

definition attach_worker ::
  "int \<Rightarrow> string \<Rightarrow> string \<Rightarrow> worker_frame \<Rightarrow> worker_jobs
     \<Rightarrow> worker_jobs \<times> (worker_error, nat) result" where
  "attach_worker now dev device_name hello s =
     (case hello of
        Hello caps name ver \<Rightarrow>
          (case hub_attach now dev (case name of Some n \<Rightarrow> n | None \<Rightarrow> device_name) ver caps
                  (hub s) of
             (h, n) \<Rightarrow>
               (case on_worker_connected now dev (s\<lparr>hub := h\<rparr>) of
                  (s, Inl e) \<Rightarrow> (s, Inl e)
                | (s, Inr _) \<Rightarrow> (s, Inr n)))
      | _ \<Rightarrow> (s, Inl (Invalid ''the first frame on a worker socket must be `hello`'')))"

definition detach_worker ::
  "int \<Rightarrow> string \<Rightarrow> nat \<Rightarrow> worker_jobs \<Rightarrow> worker_jobs \<times> (worker_error, unit) result" where
  "detach_worker now dev n s =
     (case hub_detach dev n (hub s) of (h, removed) \<Rightarrow>
        if removed then on_worker_disconnected now dev (s\<lparr>hub := h\<rparr>)
        else (s\<lparr>hub := h\<rparr>, Inr ()))"

section \<open>Frames\<close>

definition assert_holder :: "string \<Rightarrow> string \<Rightarrow> worker_jobs \<Rightarrow> (worker_error, unit) result" where
  "assert_holder dev jid s =
     (case get_job jid s of
        None \<Rightarrow> Inl (NotFound jid)
      | Some job \<Rightarrow> if worker_id job = Some dev then Inr () else Inl (NotAssigned jid dev))"

definition apply_frame ::
  "int \<Rightarrow> string \<Rightarrow> string \<Rightarrow> worker_job_status list \<Rightarrow> worker_job_status \<Rightarrow> transition
     \<Rightarrow> worker_jobs \<Rightarrow> worker_jobs \<times> (worker_error, unit) result" where
  "apply_frame now dev jid frm to ch s =
     (case assert_holder dev jid s of
        Inl e \<Rightarrow> (s, Inl e)
      | Inr _ \<Rightarrow>
          (case transition now jid frm to ch s of
             (s, Some job) \<Rightarrow> (announce job s, Inr ())
           | (s, None) \<Rightarrow> (s, Inr ())))"

definition complete ::
  "int \<Rightarrow> string \<Rightarrow> string \<Rightarrow> (string, json) result \<Rightarrow> worker_jobs
     \<Rightarrow> worker_jobs \<times> (worker_error, unit) result" where
  "complete now dev jid outcome s =
     (case assert_holder dev jid s of
        Inl e \<Rightarrow> (s, Inl e)
      | Inr _ \<Rightarrow>
          (case finish now jid outcome (result_validator s) (table s) of
             (t, None) \<Rightarrow> (s\<lparr>table := t\<rparr>, Inr ())
           | (t, Some job) \<Rightarrow>
               (let s = s\<lparr>table := t,
                          outputs := (if status job = Failed then outputs s - {jid}
                                      else outputs s)\<rparr>
                in (wake job (announce job s), Inr ()))))"

definition handle_frame ::
  "int \<Rightarrow> string \<Rightarrow> worker_frame \<Rightarrow> worker_jobs \<Rightarrow> worker_jobs \<times> (worker_error, unit) result" where
  "handle_frame now dev frame s =
     (let s = s\<lparr>hub := hub_touch now dev (hub s)\<rparr>
      in case frame of
           Hello _ _ _ \<Rightarrow> (s, Inr ())
         | Claim jid \<Rightarrow>
             apply_frame now dev jid [Queued] Claimed
               (no_change\<lparr>tr_worker_id_guard := Some dev, tr_started_at := True\<rparr>) s
         | Progress jid fraction message \<Rightarrow>
             apply_frame now dev jid [Claimed, Running] Running
               (no_change\<lparr>tr_progress := Some (f64_clamp fraction (Fin 0) (Fin 1)),
                 tr_message := Some message\<rparr>) s
         | Result jid out \<Rightarrow> complete now dev jid (Inr out) s
         | Fail jid err \<Rightarrow> complete now dev jid (Inl err) s)"

section \<open>Cancellation\<close>

text \<open>
  \<open>cancel\<close> reads the row, sends the cancel frame, and then writes: other handlers may
  run between the two, so it is its two halves \<open>cancel_read\<close> and \<open>cancel_commit\<close>,
  and \<open>cancel\<close> is both in one go.
\<close>

definition cancel_read ::
  "string \<Rightarrow> worker_jobs \<Rightarrow> worker_jobs \<times> (worker_error, worker_job \<times> bool) result" where
  "cancel_read jid s =
     (case get_job jid s of
        None \<Rightarrow> (s, Inl (NotFound jid))
      | Some job \<Rightarrow>
          if is_terminal (status job) then (s, Inr (job, True))
          else (case worker_id job of
                  None \<Rightarrow> (s, Inr (job, False))
                | Some dev \<Rightarrow> (fst (send_to dev (CancelFrame jid) s), Inr (job, False))))"

definition cancel_commit ::
  "int \<Rightarrow> string \<Rightarrow> worker_job \<Rightarrow> string \<Rightarrow> worker_jobs \<Rightarrow> worker_jobs \<times> worker_job" where
  "cancel_commit now jid job reason s =
     (case transition now jid [Queued, Claimed, Running, NeedsWorker] Failed
             (no_change\<lparr>tr_error := Some reason, tr_finished_at := True\<rparr>) s of
        (s, updated) \<Rightarrow>
          (let cancelled = (case updated of Some row \<Rightarrow> row | None \<Rightarrow> job)
           in (wake cancelled (s\<lparr>outputs := outputs s - {jid}\<rparr>), cancelled)))"

definition cancel ::
  "int \<Rightarrow> string \<Rightarrow> string \<Rightarrow> worker_jobs \<Rightarrow> worker_jobs \<times> (worker_error, worker_job) result" where
  "cancel now jid reason s =
     (case cancel_read jid s of
        (s, Inl e) \<Rightarrow> (s, Inl e)
      | (s, Inr (job, over)) \<Rightarrow>
          if over then (s, Inr job)
          else (case cancel_commit now jid job reason s of (s, row) \<Rightarrow> (s, Inr row)))"

text \<open>The upload route of the host, once \<open>upload_path\<close> has answered.\<close>

definition upload :: "string \<Rightarrow> string \<Rightarrow> worker_jobs \<Rightarrow> worker_jobs" where
  "upload jid dev s =
     (case upload_path jid dev s of
        Inl _ \<Rightarrow> s
      | Inr _ \<Rightarrow> s\<lparr>outputs := insert jid (outputs s)\<rparr>)"

section \<open>What the helpers leave alone\<close>

lemma announce_simps [simp]:
  "table (announce j s) = table s" "hub (announce j s) = hub s"
  "waiters (announce j s) = waiters s" "delivered (announce j s) = delivered s"
  "outputs (announce j s) = outputs s" "tasks (announce j s) = tasks s"
  "registry (announce j s) = registry s" "output_dir (announce j s) = output_dir s"
  "result_validator (announce j s) = result_validator s"
  by (auto simp: announce_def)

lemma wake_simps [simp]:
  "table (wake j s) = table s" "hub (wake j s) = hub s" "outputs (wake j s) = outputs s"
  "tasks (wake j s) = tasks s" "registry (wake j s) = registry s" "events (wake j s) = events s"
  by (auto simp: wake_def split: option.splits)

lemma transition_simps [simp]:
  "table (fst (transition now jid frm to ch s)) = fst (update_status now jid frm to ch (table s))"
  "snd (transition now jid frm to ch s) = snd (update_status now jid frm to ch (table s))"
  "hub (fst (transition now jid frm to ch s)) = hub s"
  "registry (fst (transition now jid frm to ch s)) = registry s"
  "tasks (fst (transition now jid frm to ch s)) = tasks s"
  "waiters (fst (transition now jid frm to ch s)) = waiters s"
  "events (fst (transition now jid frm to ch s)) = events s"
  by (auto simp: transition_def split: prod.splits)

lemma send_to_simps [simp]:
  "table (fst (send_to dev f s)) = table s" "registry (fst (send_to dev f s)) = registry s"
  "tasks (fst (send_to dev f s)) = tasks s" "waiters (fst (send_to dev f s)) = waiters s"
  "hub (fst (send_to dev f s)) = fst (hub_send dev f (hub s))"
  "snd (send_to dev f s) = reachable dev (hub s)"
  by (simp_all add: send_to_def split_beta)

lemma transition_pair:
  "transition now jid frm to ch s = (s', r) \<Longrightarrow>
     update_status now jid frm to ch (table s) = (table s', r) \<and> hub s' = hub s
     \<and> registry s' = registry s \<and> tasks s' = tasks s \<and> waiters s' = waiters s
     \<and> events s' = events s"
  by (auto simp: transition_def split: prod.splits)

section \<open>Every operation is a sequence of guarded writes\<close>

definition writes :: "worker_jobs \<Rightarrow> worker_jobs \<Rightarrow> bool" where
  "writes s s' \<longleftrightarrow> store_step\<^sup>*\<^sup>* (table s) (table s')"

lemma writes_refl: "table s' = table s \<Longrightarrow> writes s s'"
  by (simp add: writes_def)

lemma writes_trans [trans]: "writes s s' \<Longrightarrow> writes s' s'' \<Longrightarrow> writes s s''"
  unfolding writes_def by (rule rtranclp_trans)

lemma writes_step: "store_step (table s) (table s') \<Longrightarrow> writes s s'"
  by (simp add: writes_def)

lemma writes_transition:
  "(\<And>t. store_step t (fst (update_status now jid frm to ch t))) \<Longrightarrow>
     writes s (fst (transition now jid frm to ch s))"
  by (simp add: writes_step)

lemma writes_offer: "writes s (fst (offer now job w s))"
proof -
  obtain s1 sent where s1: "send_to (device_id w) (job_frame job) s = (s1, sent)" by fastforce
  then have "table s1 = table s" by (metis fst_conv send_to_simps(1))
  then have "writes s s1" by (rule writes_refl)
  also have "writes s1 (fst (offer now job w s))"
  proof (cases sent)
    case True
    with s1 show ?thesis
      by (auto simp: offer_def split_beta intro: writes_transition store_step.offer)
  qed (auto simp: offer_def s1 intro: writes_refl)
  finally show ?thesis .
qed

lemma writes_dispatch_unoffered: "writes s (fst (dispatch_unoffered now job s))"
proof -
  have "writes s (fst (transition now (job_id job) [Queued] NeedsWorker no_change s))"
    by (intro writes_transition store_step.park)
  then show ?thesis
    by (auto simp: dispatch_unoffered_def run_locally_def writes_refl
        split: prod.splits option.splits)
qed

lemma writes_dispatch_avoiding: "writes s (fst (dispatch_avoiding now job avoid s))"
  using writes_offer [of s now job] writes_dispatch_unoffered [of _ now job]
  by (auto simp: dispatch_avoiding_def split: option.splits prod.splits)
    (metis fst_conv writes_trans)+

lemma writes_dispatch: "writes s (fst (dispatch now job s))"
  unfolding dispatch_def by (rule writes_dispatch_avoiding)

lemma writes_insert:
  "get_job jid s = None \<Longrightarrow>
     writes s (announce j (s\<lparr>table := table s @ [new_job now jid k inp req prio]\<rparr>))"
  by (rule writes_step) (simp add: get_job_def store_step.insert)

lemma writes_enqueue: "get_job jid s = None \<Longrightarrow> writes s (fst (enqueue now jid k inp req prio s))"
  unfolding enqueue_def Let_def by (rule writes_trans [OF writes_insert writes_dispatch])

lemma writes_enqueue_and_wait:
  assumes "get_job jid s = None"
  shows "writes s (fst (enqueue_and_wait now jid rx k inp req prio s))"
proof -
  let ?s = "push_waiter jid rx s" and ?job = "new_job now jid k inp req prio"
  let ?d = "dispatch now ?job (announce ?job (?s\<lparr>table := table ?s @ [?job]\<rparr>))"
  have same: "table ?s = table s" by (simp add: push_waiter_def)
  have "writes s ?s" using same by (rule writes_refl)
  also have "writes ?s (fst ?d)"
    using assms same
    by (intro writes_trans [OF writes_insert writes_dispatch]) (simp add: get_job_def)
  also have "writes (fst ?d) (fst (enqueue_and_wait now jid rx k inp req prio s))"
    by (intro writes_refl)
      (auto simp: enqueue_and_wait_def Let_def drop_waiters_def split: prod.splits sum.splits)
  finally show ?thesis .
qed

lemma writes_sweep_loop: "writes s (fst (sweep_loop now jobs n s))"
proof (induction now jobs n s rule: sweep_loop.induct)
  case (2 now job jobs n s)
  show ?case
  proof (cases "worker_id job")
    case (Some dev)
    let ?ch = "no_change\<lparr>tr_worker_id := Some None, tr_worker_id_guard := Some dev\<rparr>"
    obtain s1 r where s1: "transition now (job_id job) [Queued] Queued ?ch s = (s1, r)"
      by fastforce
    have w1: "writes s s1"
      using writes_transition [OF store_step.release] s1 by (metis fst_conv)
    show ?thesis
    proof (cases r)
      case None
      with 2(2) Some s1 w1 show ?thesis by (auto intro: writes_trans)
    next
      case (Some requeued)
      obtain s2 q where s2: "dispatch_avoiding now requeued (Some dev) (announce requeued s1) = (s2, q)"
        by fastforce
      have "writes s1 s2"
        using writes_dispatch_avoiding [of "announce requeued s1" now requeued "Some dev"] s2
        by (simp add: writes_def)
      with w1 have "writes s s2" by (rule writes_trans)
      with 2(3) \<open>worker_id job = Some dev\<close> Some s1 s2 show ?thesis
        by (cases q) (auto intro: writes_trans)
    qed
  qed (use 2(1) in auto)
qed (simp add: writes_refl)

lemma writes_resend_loop: "writes s (fst (resend_loop dev jobs n s))"
proof (induction dev jobs n s rule: resend_loop.induct)
  case (2 dev job jobs n s)
  obtain s1 sent where s1: "send_to dev (job_frame job) s = (s1, sent)" by fastforce
  then have "writes s s1" by (metis fst_conv send_to_simps(1) writes_refl)
  with 2 s1 show ?case by (auto intro: writes_trans)
qed (simp add: writes_refl)

lemma writes_unpark_loop: "writes s (fst (unpark_loop now jobs s))"
proof (induction now jobs s rule: unpark_loop.induct)
  case (2 now job jobs s)
  obtain s1 r where s1: "transition now (job_id job) [NeedsWorker] Queued no_change s = (s1, r)"
    by fastforce
  have w1: "writes s s1" using writes_transition [OF store_step.unpark] s1 by (metis fst_conv)
  show ?case
  proof (cases "hub_capable_worker (requires job) (hub s) = None \<or> r = None")
    case True
    with 2(1,2) s1 w1 show ?thesis by (auto intro: writes_trans)
  next
    case False
    then obtain requeued where r: "r = Some requeued" by auto
    obtain s2 q where s2: "dispatch now requeued s1 = (s2, q)" by fastforce
    have "writes s s2" using w1 writes_dispatch [of s1 now requeued] s2
      by (auto intro: writes_trans)
    with 2(3) False s1 r s2 show ?thesis by (cases q) (auto intro: writes_trans)
  qed
qed (simp add: writes_refl)

lemma writes_release_loop: "writes s (fst (release_loop now jobs s))"
proof (induction now jobs s rule: release_loop.induct)
  case (2 now job jobs s)
  let ?ch = "no_change\<lparr>tr_worker_id := Some None\<rparr>"
  have ch: "?ch = no_change\<lparr>tr_worker_id := Some None, tr_worker_id_guard := None\<rparr>"
    by (simp add: no_change_def)
  obtain s1 r where s1: "transition now (job_id job) [Queued] Queued ?ch s = (s1, r)"
    by fastforce
  have w1: "writes s s1"
    using writes_transition [OF store_step.release [where guard = None, folded ch]] s1
    by (metis fst_conv)
  show ?case
  proof (cases r)
    case None
    with 2(1) s1 w1 show ?thesis by (auto intro: writes_trans)
  next
    case (Some released)
    obtain s2 q where s2: "dispatch now released s1 = (s2, q)" by fastforce
    have "writes s s2" using w1 writes_dispatch [of s1 now released] s2
      by (auto intro: writes_trans)
    with 2(2) s1 Some s2 show ?thesis by (cases q) (auto intro: writes_trans)
  qed
qed (simp add: writes_refl)

lemma writes_sweep: "writes s (fst (sweep_claim_deadlines now s))"
  unfolding sweep_claim_deadlines_def Let_def by (rule writes_sweep_loop)

lemma writes_disconnected: "writes s (fst (on_worker_disconnected now dev s))"
  unfolding on_worker_disconnected_def by (rule writes_release_loop)

lemma writes_connected: "writes s (fst (on_worker_connected now dev s))"
proof -
  obtain s1 n where s1: "resend_loop dev (assigned_to dev (table s)) 0 s = (s1, n)" by fastforce
  then have "writes s s1" using writes_resend_loop by (metis fst_conv)
  also have "writes s1 (fst (on_worker_connected now dev s))"
    using writes_unpark_loop [of s1 now "parked (table s1)"] s1
    by (auto simp: on_worker_connected_def split: prod.splits sum.splits)
  finally show ?thesis .
qed

lemma writes_attach: "writes s (fst (attach_worker now dev nm hello s))"
proof (cases hello)
  case (Hello caps name ver)
  obtain h n where h: "hub_attach now dev (case name of Some n \<Rightarrow> n | None \<Rightarrow> nm) ver caps
      (hub s) = (h, n)" by fastforce
  have "writes s (s\<lparr>hub := h\<rparr>)" by (simp add: writes_refl)
  also have "writes (s\<lparr>hub := h\<rparr>) (fst (attach_worker now dev nm hello s))"
    using writes_connected [of "s\<lparr>hub := h\<rparr>" now dev] Hello h
    by (auto simp: attach_worker_def split: prod.splits sum.splits)
  finally show ?thesis .
qed (auto simp: attach_worker_def writes_refl)

lemma writes_detach: "writes s (fst (detach_worker now dev n s))"
proof -
  have "writes s (s\<lparr>hub := h\<rparr>)" for h by (simp add: writes_refl)
  then show ?thesis
    using writes_disconnected [of _ now dev]
    by (auto simp: detach_worker_def split: prod.splits intro: writes_trans)
qed

lemma writes_finish:
  "finish now jid outcome v (table s) = (t, r) \<Longrightarrow> table s' = t \<Longrightarrow> writes s s'"
  by (metis fst_conv store_step.finished writes_step)

lemma writes_complete: "writes s (fst (complete now dev jid outcome s))"
  by (auto simp: complete_def Let_def writes_refl split: prod.splits sum.splits option.splits
      intro: writes_finish)

lemma writes_apply:
  "(\<And>t. store_step t (fst (update_status now jid frm to ch t))) \<Longrightarrow>
     writes s (fst (apply_frame now dev jid frm to ch s))"
  by (drule writes_transition [of _ _ _ _ _ s])
    (auto simp: apply_frame_def writes_def split: prod.splits sum.splits option.splits
      dest!: transition_pair)

fun frame_finite :: "worker_frame \<Rightarrow> bool" where
  "frame_finite (Progress _ fraction _) = f64_is_finite fraction"
| "frame_finite _ = True"

lemma writes_frame: "frame_finite frame \<Longrightarrow> writes s (fst (handle_frame now dev frame s))"
proof -
  let ?s = "s\<lparr>hub := hub_touch now dev (hub s)\<rparr>"
  assume "frame_finite frame"
  then have "writes ?s (fst (handle_frame now dev frame s))"
    by (cases frame)
      (auto simp: handle_frame_def Let_def writes_refl intro!: writes_apply writes_complete
        store_step.claim store_step.advance)
  then show ?thesis by (simp add: writes_def)
qed

lemma writes_local_start: "writes s (local_start now job s)"
proof -
  let ?s = "s\<lparr>tasks := remove1 (Routed job) (tasks s)\<rparr>"
  have "writes ?s (fst (transition now (job_id job) [Queued] Running
      (no_change\<lparr>tr_started_at := True\<rparr>) ?s))"
    by (intro writes_transition store_step.start)
  then show ?thesis
    by (auto simp: local_start_def Let_def writes_def split: prod.splits option.splits
        dest!: transition_pair)
qed

lemma writes_local_finish: "writes s (local_finish now job wrote outcome s)"
proof -
  have "writes s s'" if "finish now (job_id job) outcome (result_validator s) (table s) = (t, r)"
    "table s' = t" for t r s'
    using that by (rule writes_finish)
  then show ?thesis
    by (auto simp: local_finish_def Let_def writes_refl split: prod.splits option.splits)
qed

lemma writes_cancel_read: "writes s (fst (cancel_read jid s))"
  by (auto simp: cancel_read_def writes_refl split: option.splits)

lemma writes_cancel_commit: "writes s (fst (cancel_commit now jid job reason s))"
  using writes_transition [OF store_step.cancelled, of s now jid reason]
  by (auto simp: cancel_commit_def Let_def writes_def split: prod.splits dest!: transition_pair)

section \<open>Steps of the service\<close>

inductive jobs_step :: "worker_jobs \<Rightarrow> worker_jobs \<Rightarrow> bool" where
  enqueue: "get_job jid s = None \<Longrightarrow> jobs_step s (fst (enqueue now jid k inp req prio s))"
| enqueue_and_wait: "get_job jid s = None \<Longrightarrow>
    jobs_step s (fst (enqueue_and_wait now jid rx k inp req prio s))"
| wait_timeout: "jobs_step s (fst (wait_timeout jid s))"
| local_start: "jobs_step s (local_start now job s)"
| local_finish: "jobs_step s (local_finish now job wrote outcome s)"
| sweep: "jobs_step s (fst (sweep_claim_deadlines now s))"
| attach: "jobs_step s (fst (attach_worker now dev nm hello s))"
| detach: "jobs_step s (fst (detach_worker now dev n s))"
| frame: "frame_finite frame \<Longrightarrow> jobs_step s (fst (handle_frame now dev frame s))"
| cancel_read: "jobs_step s (fst (cancel_read jid s))"
| cancel_commit: "jobs_step s (fst (cancel_commit now jid job reason s))"
| upload: "jobs_step s (upload jid dev s)"
| hang_up: "jobs_step s (s\<lparr>hub := hub_hang_up dev (hub s)\<rparr>)"
| validator: "jobs_step s (fst (set_result_validator v s))"

lemma jobs_step_writes: "jobs_step s s' \<Longrightarrow> writes s s'"
proof (induction rule: jobs_step.induct)
  case (wait_timeout s jid)
  then show ?case by (simp add: wait_timeout_def drop_waiters_def writes_refl)
next
  case (upload s jid dev)
  then show ?case by (auto simp: upload_def writes_refl split: sum.splits)
next
  case (validator s v)
  then show ?case by (auto simp: set_result_validator_def writes_refl split: option.splits)
next
  case (hang_up s dev)
  then show ?case by (simp add: writes_refl)
qed (intro writes_enqueue writes_enqueue_and_wait writes_local_start writes_local_finish
      writes_sweep writes_attach writes_detach writes_frame writes_cancel_read
      writes_cancel_commit; assumption)+

lemma jobs_steps_writes: "jobs_step\<^sup>*\<^sup>* s s' \<Longrightarrow> writes s s'"
  by (induction rule: rtranclp_induct) (auto simp: writes_refl dest: jobs_step_writes writes_trans)

section \<open>Routing\<close>

datatype route = ToWorker string | Locally | Parked

definition route_of :: "worker_job \<Rightarrow> worker_jobs \<Rightarrow> route" where
  "route_of j s =
     (let rest = (if kind j \<in> set (registry s) then Locally else Parked)
      in case hub_capable_worker (requires j) (hub s) of
           None \<Rightarrow> rest
         | Some w \<Rightarrow> if reachable (device_id w) (hub s) then ToWorker (device_id w) else rest)"

lemma send_unreachable: "\<not> reachable d (hub s) \<Longrightarrow> send_to d f s = (s, False)"
  by (auto simp: send_to_def hub_send_def reachable_def split: option.splits)

lemma offer_unreachable: "\<not> reachable (device_id w) (hub s) \<Longrightarrow> offer now j w s = (s, False)"
  by (simp add: offer_def send_unreachable)

lemma get_job_transition:
  "get_job k (fst (transition now jid frm to ch s)) =
     map_option (\<lambda>j. if status_hits jid frm ch j then status_set now to ch j else j) (get_job k s)"
  by (simp add: get_job_def find_update)

lemma transition_hit:
  "get_job jid s = Some j \<Longrightarrow> status_hits jid frm ch j \<Longrightarrow>
     snd (transition now jid frm to ch s) = Some (status_set now to ch j)"
  by (simp add: get_job_def update_hit)

lemma offer_reachable:
  assumes "reachable (device_id w) (hub s)" "get_job (job_id j) s = Some j"
    "status j \<in> {Queued, NeedsWorker}"
  shows "snd (offer now j w s)"
    and "get_job (job_id j) (fst (offer now j w s)) =
      Some (j\<lparr>status := Queued, worker_id := Some (device_id w), updated_at := now\<rparr>)"
    and "hub (fst (offer now j w s)) = fst (hub_send (device_id w) (job_frame j) (hub s))"
    and "tasks (fst (offer now j w s)) = tasks s"
proof -
  let ?s = "fst (send_to (device_id w) (job_frame j) s)"
  let ?ch = "no_change\<lparr>tr_worker_id := Some (Some (device_id w))\<rparr>"
  let ?t = "transition now (job_id j) [Queued, NeedsWorker] Queued ?ch ?s"
  have g: "get_job (job_id j) ?s = Some j" using assms(2) by (simp add: get_job_def)
  have h: "status_hits (job_id j) [Queued, NeedsWorker] ?ch j"
    using assms(3) by (auto simp: row_defs)
  have o: "offer now j w s = (fst ?t, snd ?t \<noteq> None)"
    using assms(1) by (simp add: offer_def split_beta)
  show "snd (offer now j w s)" unfolding o using transition_hit [OF g h] by simp
  show "get_job (job_id j) (fst (offer now j w s)) =
      Some (j\<lparr>status := Queued, worker_id := Some (device_id w), updated_at := now\<rparr>)"
    unfolding o using h by (simp add: get_job_transition g status_set_def no_change_def)
qed (use assms(1) in \<open>simp_all add: offer_def split_beta\<close>)

lemma dispatch_eq:
  "dispatch now j s =
     (case hub_capable_worker (requires j) (hub s) of
        None \<Rightarrow> dispatch_unoffered now j s
      | Some w \<Rightarrow>
          if snd (offer now j w s)
          then (fst (offer now j w s), Inr (j\<lparr>worker_id := Some (device_id w)\<rparr>))
          else dispatch_unoffered now j (fst (offer now j w s)))"
  by (simp add: dispatch_def dispatch_avoiding_def select_worker_def split_beta
      split: option.splits)

definition routed :: "int \<Rightarrow> worker_job \<Rightarrow> route \<Rightarrow> worker_jobs \<Rightarrow> worker_jobs \<Rightarrow> bool" where
  "routed now j to s s' \<longleftrightarrow>
     (case to of
        ToWorker d \<Rightarrow>
          get_job (job_id j) s' = Some (j\<lparr>worker_id := Some d, updated_at := now\<rparr>)
          \<and> outbound_to d (hub s') = outbound_to d (hub s) @ [job_frame j]
          \<and> tasks s' = tasks s
      | Locally \<Rightarrow>
          get_job (job_id j) s' = Some j \<and> hub s' = hub s \<and> tasks s' = tasks s @ [Routed j]
      | Parked \<Rightarrow>
          get_job (job_id j) s' = Some (j\<lparr>status := NeedsWorker, updated_at := now\<rparr>)
          \<and> hub s' = hub s \<and> tasks s' = tasks s)"

lemma dispatch_unoffered_routed:
  assumes "get_job (job_id j) s = Some j" "status j = Queued"
  shows "routed now j (if kind j \<in> set (registry s) then Locally else Parked) s
      (fst (dispatch_unoffered now j s))"
    and "snd (dispatch_unoffered now j s) \<noteq> Inl e"
proof -
  let ?t = "transition now (job_id j) [Queued] NeedsWorker no_change s"
  have h: "status_hits (job_id j) [Queued] no_change j" using assms(2) by (simp add: row_defs)
  then have "snd ?t = Some (status_set now NeedsWorker no_change j)"
    using assms(1) by (simp only: transition_hit)
  moreover have "get_job (job_id j) (fst ?t) = Some (j\<lparr>status := NeedsWorker, updated_at := now\<rparr>)"
    using h assms(1) by (simp add: get_job_transition status_set_def no_change_def)
  ultimately show "routed now j (if kind j \<in> set (registry s) then Locally else Parked) s
      (fst (dispatch_unoffered now j s))" "snd (dispatch_unoffered now j s) \<noteq> Inl e"
    using assms(1)
    by (auto simp: routed_def dispatch_unoffered_def run_locally_def get_job_def
        split: prod.splits option.splits dest!: transition_pair)
qed

lemma dispatch_routed:
  assumes "get_job (job_id j) s = Some j" "status j = Queued"
  shows "routed now j (route_of j s) s (fst (dispatch now j s)) \<and> snd (dispatch now j s) \<noteq> Inl e"
proof (cases "hub_capable_worker (requires j) (hub s)")
  case None
  then show ?thesis
    using dispatch_unoffered_routed [OF assms] by (simp add: dispatch_eq route_of_def Let_def)
next
  case (Some w)
  show ?thesis
  proof (cases "reachable (device_id w) (hub s)")
    case True
    with Some assms show ?thesis
      by (simp add: dispatch_eq route_of_def Let_def routed_def offer_reachable)
  next
    case False
    with Some show ?thesis
      using dispatch_unoffered_routed [OF assms]
      by (simp add: dispatch_eq route_of_def Let_def offer_unreachable)
  qed
qed

section \<open>Completing a job\<close>

lemma wake_delivers:
  assumes "map_of (waiters s) (job_id j) = Some rxs"
  shows "map_of (waiters (wake j s)) (job_id j) = None"
    and "delivered (wake j s) = delivered s @ map (\<lambda>rx. (rx, outcome_of j (output_dir s))) rxs"
  using assms by (auto simp: wake_def delete_conv')

lemma wake_nobody: "map_of (waiters s) (job_id j) = None \<Longrightarrow> wake j s = s"
  by (simp add: wake_def)

lemma finish_hit:
  assumes "distinct (map job_id t)" "find_by_id jid t = Some j" "status j \<in> set finish_from"
  shows "snd (finish now jid outcome v t) = Some (finish_set now (judged outcome v j) j)"
    and "find_by_id jid (fst (finish now jid outcome v t)) =
      Some (finish_set now (judged outcome v j) j)"
proof -
  have "finish_hits jid j" using assms(2,3) find_by_id_Some by (auto simp: finish_hits_def)
  then show "snd (finish now jid outcome v t) = Some (finish_set now (judged outcome v j) j)"
    "find_by_id jid (fst (finish now jid outcome v t)) =
      Some (finish_set now (judged outcome v j) j)"
    using assms by (simp_all add: finish_judged finish_write_hit find_finish_write)
qed

lemma complete_holder:
  assumes "distinct (map job_id (table s))" "get_job jid s = Some j" "worker_id j = Some dev"
    "status j \<in> set finish_from"
    and row_def: "row = finish_set now (judged outcome (result_validator s) j) j"
  shows "get_job jid (fst (complete now dev jid outcome s)) = Some row"
    and "map_of (waiters (fst (complete now dev jid outcome s))) jid = None"
    and "delivered (fst (complete now dev jid outcome s)) = delivered s @
      map (\<lambda>rx. (rx, outcome_of row (output_dir s)))
        (case map_of (waiters s) jid of None \<Rightarrow> [] | Some rxs \<Rightarrow> rxs)"
    and "outputs (fst (complete now dev jid outcome s)) =
      (if status row = Failed then outputs s - {jid} else outputs s)"
proof -
  obtain t where f: "finish now jid outcome (result_validator s) (table s) = (t, Some row)"
    and t: "find_by_id jid t = Some row"
    using finish_hit [OF assms(1) _ assms(4), of jid] assms(2)
    by (metis get_job_def prod.collapse row_def)
  define u where "u = announce row (s\<lparr>table := t,
    outputs := (if status row = Failed then outputs s - {jid} else outputs s)\<rparr>)"
  have c: "fst (complete now dev jid outcome s) = wake row u"
    using assms(2,3) f by (simp add: complete_def assert_holder_def u_def Let_def)
  have id: "job_id row = jid" using find_by_id_Some [OF t] by simp
  show "get_job jid (fst (complete now dev jid outcome s)) = Some row"
    "outputs (fst (complete now dev jid outcome s)) =
      (if status row = Failed then outputs s - {jid} else outputs s)"
    using t by (simp_all add: c get_job_def u_def)
  show "map_of (waiters (fst (complete now dev jid outcome s))) jid = None"
    "delivered (fst (complete now dev jid outcome s)) = delivered s @
      map (\<lambda>rx. (rx, outcome_of row (output_dir s)))
        (case map_of (waiters s) jid of None \<Rightarrow> [] | Some rxs \<Rightarrow> rxs)"
    unfolding c by (auto simp: wake_def u_def id delete_conv' split: option.splits)
qed

section \<open>Frames of a worker that does not hold the job\<close>

lemma handle_frame_refused:
  assumes "frame_job_id frame = Some jid" "get_job jid s = Some j" "worker_id j \<noteq> Some dev"
  shows "handle_frame now dev frame s =
    (s\<lparr>hub := hub_touch now dev (hub s)\<rparr>, Inl (NotAssigned jid dev))"
  using assms
  by (cases frame)
    (auto simp: handle_frame_def Let_def apply_frame_def complete_def assert_holder_def get_job_def)

section \<open>Reconnecting\<close>

lemma resend_loop_hub:
  "hub (fst (resend_loop dev jobs n s)) =
     fold (\<lambda>j h. fst (hub_send dev (job_frame j) h)) jobs (hub s)"
  by (induction jobs arbitrary: n s) (simp_all add: split_beta)

lemma resend_loop_table: "table (fst (resend_loop dev jobs n s)) = table s"
  by (induction jobs arbitrary: n s) (simp_all add: split_beta)

lemma fold_send:
  assumes "reachable dev h"
  shows "reachable dev (fold (\<lambda>j h. fst (hub_send dev (job_frame j) h)) jobs h)
    \<and> outbound_to dev (fold (\<lambda>j h. fst (hub_send dev (job_frame j) h)) jobs h) =
        outbound_to dev h @ map job_frame jobs"
  using assms by (induction jobs arbitrary: h) auto

lemma fold_send_same:
  "hub_connected (fold (\<lambda>j h. fst (hub_send dev (job_frame j) h)) jobs h) = hub_connected h"
  "reachable e (fold (\<lambda>j h. fst (hub_send dev (job_frame j) h)) jobs h) = reachable e h"
  by (induction jobs arbitrary: h) auto

lemma hub_dispatch:
  "hub (fst (dispatch now j s)) = hub s
   \<or> (\<exists>d. hub (fst (dispatch now j s)) = fst (hub_send d (job_frame j) (hub s)))"
proof -
  have un: "hub (fst (dispatch_unoffered now j s)) = hub s" for s
    by (auto simp: dispatch_unoffered_def run_locally_def split: prod.splits option.splits
        dest!: transition_pair)
  have "hub (fst (offer now j w s)) = fst (hub_send (device_id w) (job_frame j) (hub s))" for w
    by (simp add: offer_def split_beta)
  then show ?thesis by (auto simp: dispatch_eq un split: option.splits)
qed

lemma hub_dispatch_same [simp]:
  "hub_capable_worker r (hub (fst (dispatch now j s))) = hub_capable_worker r (hub s)"
  "hub_connected (hub (fst (dispatch now j s))) = hub_connected (hub s)"
  "reachable e (hub (fst (dispatch now j s))) = reachable e (hub s)"
  using hub_dispatch [of now j s] by auto

lemma dispatch_outbound:
  "\<exists>fs. outbound_to d (hub (fst (dispatch now j s))) = outbound_to d (hub s) @ fs"
  using hub_dispatch [of now j s] by auto

lemma unpark_loop_outbound:
  "\<exists>fs. outbound_to d (hub (fst (unpark_loop now jobs s))) = outbound_to d (hub s) @ fs"
proof (induction now jobs s rule: unpark_loop.induct)
  case (2 now job jobs s)
  obtain s1 r where s1: "transition now (job_id job) [NeedsWorker] Queued no_change s = (s1, r)"
    by fastforce
  then have h: "hub s1 = hub s" by (auto dest: transition_pair)
  show ?case
  proof (cases "hub_capable_worker (requires job) (hub s) = None \<or> r = None")
    case True
    with 2(1,2) s1 h show ?thesis by auto
  next
    case False
    then obtain requeued where r: "r = Some requeued" by auto
    obtain s2 q where s2: "dispatch now requeued s1 = (s2, q)" by fastforce
    obtain fs where "outbound_to d (hub s2) = outbound_to d (hub s) @ fs"
      using dispatch_outbound [of d now requeued s1] s2 h by auto
    moreover have "\<exists>gs. outbound_to d (hub (fst (unpark_loop now jobs s2))) =
        outbound_to d (hub s2) @ gs" if "q = Inr row" for row
      using 2(3) [of s1 r requeued s2 q row] False s1 r s2 that by simp
    ultimately show ?thesis using False s1 r s2 by (cases q) auto
  qed
qed simp

lemma on_worker_connected_resends:
  assumes "reachable dev (hub s)"
  shows "\<exists>fs. outbound_to dev (hub (fst (on_worker_connected now dev s))) =
    outbound_to dev (hub s) @ map job_frame (assigned_to dev (table s)) @ fs"
proof -
  let ?r = "fst (resend_loop dev (assigned_to dev (table s)) 0 s)"
  have 1: "outbound_to dev (hub ?r) =
      outbound_to dev (hub s) @ map job_frame (assigned_to dev (table s))"
    using fold_send [OF assms] by (simp add: resend_loop_hub)
  have "hub (fst (on_worker_connected now dev s)) = hub (fst (unpark_loop now (parked (table ?r)) ?r))"
    by (auto simp: on_worker_connected_def split: prod.splits sum.splits)
  then show ?thesis
    using 1 unpark_loop_outbound [of dev now "parked (table ?r)" ?r] by auto
qed

lemma attach_worker_hub:
  assumes "attach_worker now dev nm (Hello caps name ver) s = (s', r)"
  shows "\<exists>h n. hub_attach now dev (case name of Some n \<Rightarrow> n | None \<Rightarrow> nm) ver caps (hub s) = (h, n)
    \<and> s' = fst (on_worker_connected now dev (s\<lparr>hub := h\<rparr>)) \<and> (\<forall>m. r = Inr m \<longrightarrow> m = n)"
  using assms by (auto simp: attach_worker_def split: prod.splits sum.splits)

lemma attach_worker_resends:
  assumes "attach_worker now dev nm (Hello caps name ver) s = (s', r)"
  shows "\<exists>fs. outbound_to dev (hub s') = map job_frame (assigned_to dev (table s)) @ fs"
proof -
  from attach_worker_hub [OF assms] obtain h n where
    h: "hub_attach now dev (case name of Some n \<Rightarrow> n | None \<Rightarrow> nm) ver caps (hub s) = (h, n)"
    and s': "s' = fst (on_worker_connected now dev (s\<lparr>hub := h\<rparr>))" by blast
  have "reachable dev h" "outbound_to dev h = []"
    using hub_attach_reachable hub_attach_outbound h by (metis fst_conv)+
  then show ?thesis
    using on_worker_connected_resends [of dev "s\<lparr>hub := h\<rparr>" now] s' by simp
qed

section \<open>No runnable job stays parked\<close>

lemma get_job_id: "get_job k s = Some j \<Longrightarrow> job_id j = k"
  by (auto simp: get_job_def dest: find_by_id_Some)

lemma transition_frame:
  "k \<noteq> jid \<Longrightarrow> get_job k (fst (transition now jid frm to ch s)) = get_job k s"
  by (cases "get_job k s") (auto simp: get_job_transition status_hits_def dest: get_job_id)

lemma dispatch_frame: "k \<noteq> job_id j \<Longrightarrow> get_job k (fst (dispatch now j s)) = get_job k s"
proof -
  assume k: "k \<noteq> job_id j"
  have "get_job k (fst (dispatch_unoffered now j s)) = get_job k s" for s
    using transition_frame [OF k, of now "[Queued]" NeedsWorker no_change s]
    by (auto simp: dispatch_unoffered_def run_locally_def get_job_def
        split: prod.splits option.splits dest!: transition_pair)
  moreover have "get_job k (fst (offer now j w s)) = get_job k s" for w
    using transition_frame [OF k]
    by (simp add: offer_def split_beta) (simp add: get_job_def)
  ultimately show ?thesis by (simp add: dispatch_eq split: option.splits)
qed

lemma writes_distinct:
  "writes s s' \<Longrightarrow> distinct (map job_id (table s)) \<Longrightarrow> distinct (map job_id (table s'))"
  unfolding writes_def
  by (induction rule: rtranclp_induct) (auto intro: store_step_distinct)

definition all_reachable :: "worker_hub \<Rightarrow> bool" where
  "all_reachable h \<longleftrightarrow> (\<forall>w \<in> set (hub_connected h). reachable (device_id w) h)"

definition parked_only :: "worker_job list \<Rightarrow> worker_jobs \<Rightarrow> bool" where
  "parked_only jobs s \<longleftrightarrow>
     (\<forall>k j. get_job k s = Some j \<longrightarrow> status j = NeedsWorker \<longrightarrow>
        j \<in> set jobs \<or> hub_capable_worker (requires j) (hub s) = None)"

lemma capable_connected: "hub_capable_worker r h = Some w \<Longrightarrow> w \<in> set (hub_connected h)"
proof -
  assume "hub_capable_worker r h = Some w"
  then obtain ws where ws: "sort_key device_id (filter (\<lambda>w. satisfies (capabilities w) r)
      (map (worker \<circ> snd) (connections h))) = w # ws"
    by (auto simp: hub_capable_worker_def split: list.splits)
  have "set (w # ws) \<subseteq> set (hub_connected h)"
    by (subst ws [symmetric]) (auto simp: hub_connected_def)
  then show ?thesis by simp
qed

lemma dispatch_parks_nobody:
  assumes "get_job (job_id j) s = Some j" "status j = Queued" "all_reachable (hub s)"
    "get_job (job_id j) (fst (dispatch now j s)) = Some j'" "status j' = NeedsWorker"
  shows "requires j' = requires j" "hub_capable_worker (requires j) (hub s) = None"
proof -
  have r: "routed now j (route_of j s) s (fst (dispatch now j s))"
    using dispatch_routed [OF assms(1,2)] by blast
  with assms show "hub_capable_worker (requires j) (hub s) = None"
    by (cases "hub_capable_worker (requires j) (hub s)")
      (auto simp: routed_def route_of_def Let_def all_reachable_def dest: capable_connected)
  from r assms show "requires j' = requires j"
    by (auto simp: routed_def split: route.splits)
qed

lemma unpark_step:
  assumes "distinct (map job_id (table s))" "all_reachable (hub s)"
    and "parked_only (job # jobs) s" "distinct (map job_id (job # jobs))"
    and tr: "transition now (job_id job) [NeedsWorker] Queued no_change s = (s1, Some requeued)"
  shows "parked_only jobs (fst (dispatch now requeued s1))"
    and "snd (dispatch now requeued s1) \<noteq> Inl e"
proof -
  have "snd (update_status now (job_id job) [NeedsWorker] Queued no_change (table s)) = Some requeued"
    and h: "hub s1 = hub s"
    using transition_pair [OF tr] by simp_all
  from ust.moved [OF assms(1) this(1)] obtain row where row: "row \<in> set (table s)"
    "status_hits (job_id job) [NeedsWorker] no_change row"
    "requeued = status_set now Queued no_change row" by blast
  then have id: "job_id row = job_id job" "status row = NeedsWorker"
    "job_id requeued = job_id job" "status requeued = Queued" "requires requeued = requires row"
    by (auto simp: status_hits_def status_set_def)
  have g: "get_job (job_id job) s = Some row"
    using find_by_id_in [OF assms(1) row(1)] id(1) by (simp add: get_job_def)
  have g1: "get_job (job_id requeued) s1 = Some requeued"
    using get_job_transition [of "job_id job" now "job_id job" "[NeedsWorker]" Queued no_change s]
      tr g row id by simp
  show "snd (dispatch now requeued s1) \<noteq> Inl e"
    using dispatch_routed [OF g1 id(4)] by blast
  show "parked_only jobs (fst (dispatch now requeued s1))"
    unfolding parked_only_def
  proof (intro allI impI)
    fix k j assume j: "get_job k (fst (dispatch now requeued s1)) = Some j" "status j = NeedsWorker"
    show "j \<in> set jobs \<or> hub_capable_worker (requires j) (hub (fst (dispatch now requeued s1))) = None"
    proof (cases "k = job_id requeued")
      case True
      with j assms(2) h show ?thesis
        using dispatch_parks_nobody [OF g1 id(4), of now j] by simp
    next
      case False
      then have "get_job k s = Some j"
        using j(1) tr id(3) dispatch_frame [OF False, of now s1]
          transition_frame [of k "job_id job" now "[NeedsWorker]" Queued no_change s] by simp
      then have "j \<in> set (job # jobs) \<or> hub_capable_worker (requires j) (hub s) = None"
        using assms(3) [unfolded parked_only_def, rule_format, of k j] j(2) by simp
      moreover have "j \<noteq> job" using False id(3) get_job_id [OF \<open>get_job k s = Some j\<close>] by auto
      ultimately show ?thesis using h by simp
    qed
  qed
qed

lemma unpark_loop_drains:
  assumes "distinct (map job_id (table s))" "all_reachable (hub s)" "parked_only jobs s"
    "distinct (map job_id jobs)"
  shows "snd (unpark_loop now jobs s) = Inr () \<and> parked_only [] (fst (unpark_loop now jobs s))"
  using assms
proof (induction jobs arbitrary: s)
  case (Cons job jobs)
  obtain s1 r where s1: "transition now (job_id job) [NeedsWorker] Queued no_change s = (s1, r)"
    by fastforce
  note tp = transition_pair [OF s1]
  have rest: "distinct (map job_id jobs)" using Cons.prems(4) by simp
  show ?case
  proof (cases "hub_capable_worker (requires job) (hub s) = None")
    case True
    with Cons.prems(3) have "parked_only jobs s"
      unfolding parked_only_def by (metis set_ConsD)
    with True Cons rest show ?thesis by simp
  next
    case capable: False
    show ?thesis
    proof (cases r)
      case None
      have same: "table s1 = table s" and miss: "\<forall>j \<in> set (table s).
          \<not> status_hits (job_id job) [NeedsWorker] no_change j"
        using ust.missed [of now "job_id job" "[NeedsWorker]" Queued no_change "table s"] tp None
        by simp_all
      have "get_job k s \<noteq> Some job \<or> status job \<noteq> NeedsWorker" for k
        using miss by (auto simp: get_job_def status_hits_def no_change_def dest: find_by_id_Some)
      with Cons.prems(3) have "parked_only jobs s"
        unfolding parked_only_def by (metis set_ConsD)
      then have "parked_only jobs s1" using same tp by (simp add: parked_only_def get_job_def)
      then have "snd (unpark_loop now jobs s1) = Inr () \<and> parked_only [] (fst (unpark_loop now jobs s1))"
        using Cons.prems(1,2) same tp rest by (intro Cons.IH) simp_all
      with capable None s1 show ?thesis by auto
    next
      case (Some requeued)
      obtain s2 q where s2: "dispatch now requeued s1 = (s2, q)" by fastforce
      have d: "parked_only jobs s2" "q \<noteq> Inl e" for e
        using unpark_step [OF Cons.prems s1 [unfolded Some]] s2 by simp_all
      then obtain row where q: "q = Inr row" by (cases q) auto
      have "writes s s1" using writes_transition [OF store_step.unpark] s1 by (metis fst_conv)
      also have "writes s1 s2" using writes_dispatch [of s1 now requeued] s2 by simp
      finally have "distinct (map job_id (table s2))" using Cons.prems(1) by (rule writes_distinct)
      moreover have "all_reachable (hub s2)"
        using Cons.prems(2) s2 tp
          hub_dispatch_same(2,3) [where now = now and j = requeued and s = s1]
        by (simp add: all_reachable_def)
      ultimately have "snd (unpark_loop now jobs s2) = Inr () \<and> parked_only [] (fst (unpark_loop now jobs s2))"
        using d(1) rest by (intro Cons.IH)
      with capable s1 s2 Some q show ?thesis by auto
    qed
  qed
qed simp

section \<open>The claim sweep\<close>

definition stale :: "int \<Rightarrow> worker_job \<Rightarrow> bool" where
  "stale cutoff j \<longleftrightarrow> status j = Queued \<and> worker_id j \<noteq> None \<and> updated_at j < cutoff"

lemma transition_touches:
  "get_job k (fst (transition now jid frm to ch s)) = get_job k s
   \<or> k = jid \<and> (\<exists>j. get_job k (fst (transition now jid frm to ch s)) = Some j \<and> updated_at j = now)"
proof (cases "k = jid")
  case True
  then show ?thesis
    by (cases "get_job k s") (auto simp: get_job_transition status_set_def)
qed (simp add: transition_frame)

lemma dispatch_avoiding_touches:
  "get_job k (fst (dispatch_avoiding now j avoid s)) = get_job k s
   \<or> k = job_id j
     \<and> (\<exists>j'. get_job k (fst (dispatch_avoiding now j avoid s)) = Some j' \<and> updated_at j' = now)"
proof -
  have un: "get_job k (fst (dispatch_unoffered now j s)) = get_job k s
      \<or> k = job_id j
        \<and> (\<exists>j'. get_job k (fst (dispatch_unoffered now j s)) = Some j' \<and> updated_at j' = now)" for s
    using transition_touches [of k now "job_id j" "[Queued]" NeedsWorker no_change s]
    by (auto simp: dispatch_unoffered_def run_locally_def get_job_def
        split: prod.splits option.splits dest!: transition_pair)
  have off: "get_job k (fst (offer now j w s)) = get_job k s
      \<or> k = job_id j \<and> (\<exists>j'. get_job k (fst (offer now j w s)) = Some j' \<and> updated_at j' = now)" for w
    using transition_touches [of k now "job_id j" "[Queued, NeedsWorker]" Queued
        "no_change\<lparr>tr_worker_id := Some (Some (device_id w))\<rparr>"
        "fst (send_to (device_id w) (job_frame j) s)"]
    by (simp add: offer_def split_beta) (simp add: get_job_def)
  show ?thesis
  proof (cases "select_worker j avoid (hub s)")
    case None
    then show ?thesis using un by (simp add: dispatch_avoiding_def)
  next
    case (Some w)
    then show ?thesis
      using un [of "fst (offer now j w s)"] off [of w]
      by (simp add: dispatch_avoiding_def split_beta) metis
  qed
qed

lemma dispatch_avoiding_ok:
  assumes "get_job (job_id j) s = Some j" "status j = Queued"
  shows "snd (dispatch_avoiding now j avoid s) \<noteq> Inl e"
proof (cases "select_worker j avoid (hub s)")
  case None
  then show ?thesis
    using dispatch_unoffered_routed(2) [OF assms] by (simp add: dispatch_avoiding_def)
next
  case (Some w)
  then show ?thesis
    using dispatch_unoffered_routed(2) [OF assms] offer_reachable(1) [OF _ assms(1)] assms(2)
    by (cases "reachable (device_id w) (hub s)")
      (auto simp: dispatch_avoiding_def split_beta offer_unreachable)
qed

lemma sweep_step:
  assumes "get_job (job_id j) s = Some j" "status j = Queued" "worker_id j = Some dev"
  obtains s1 requeued s2 row where
    "transition now (job_id j) [Queued] Queued
       (no_change\<lparr>tr_worker_id := Some None, tr_worker_id_guard := Some dev\<rparr>) s = (s1, Some requeued)"
    "dispatch_avoiding now requeued (Some dev) (announce requeued s1) = (s2, Inr row)"
    "\<forall>k. k \<noteq> job_id j \<longrightarrow> get_job k s2 = get_job k s"
    "\<forall>j'. get_job (job_id j) s2 = Some j' \<longrightarrow> updated_at j' = now"
proof -
  let ?ch = "no_change\<lparr>tr_worker_id := Some None, tr_worker_id_guard := Some dev\<rparr>"
  let ?q = "status_set now Queued ?ch j"
  have hits: "status_hits (job_id j) [Queued] ?ch j" using assms(2,3) by (simp add: row_defs)
  define s1 where "s1 = fst (transition now (job_id j) [Queued] Queued ?ch s)"
  have s1: "transition now (job_id j) [Queued] Queued ?ch s = (s1, Some ?q)"
    using transition_hit [OF assms(1) hits, of now Queued] by (simp add: s1_def prod_eq_iff)
  have g: "get_job k s1 = (if k = job_id j then Some ?q else get_job k s)" for k
    using get_job_transition [of k now "job_id j" "[Queued]" Queued ?ch s]
      transition_frame [of k "job_id j" now "[Queued]" Queued ?ch s] s1 assms(1) hits
    by simp
  let ?a = "announce ?q s1"
  have ga: "get_job k ?a = get_job k s1" for k by (simp add: get_job_def)
  obtain s2 r where s2: "dispatch_avoiding now ?q (Some dev) ?a = (s2, r)" by fastforce
  have "r \<noteq> Inl e" for e
    using dispatch_avoiding_ok [of ?q ?a now "Some dev" e] s2 ga g by (simp add: status_set_def)
  then obtain row where r: "r = Inr row" by (cases r) auto
  have t: "get_job k s2 = get_job k ?a
      \<or> k = job_id j \<and> (\<exists>j'. get_job k s2 = Some j' \<and> updated_at j' = now)" for k
    using dispatch_avoiding_touches [of k now ?q "Some dev" ?a] s2 by simp
  show thesis
  proof (rule that [OF s1])
    show "dispatch_avoiding now ?q (Some dev) ?a = (s2, Inr row)" using s2 r by simp
    have "get_job k s2 = get_job k s" if "k \<noteq> job_id j" for k
      using t [of k] ga [of k] g [of k] that by simp
    then show "\<forall>k. k \<noteq> job_id j \<longrightarrow> get_job k s2 = get_job k s" by blast
    show "\<forall>j'. get_job (job_id j) s2 = Some j' \<longrightarrow> updated_at j' = now"
      using t [of "job_id j"] ga g by (auto simp: status_set_def)
  qed
qed

lemma sweep_loop_releases:
  assumes "\<forall>j \<in> set jobs. get_job (job_id j) s = Some j \<and> status j = Queued \<and> worker_id j \<noteq> None"
    "distinct (map job_id jobs)"
  shows "snd (sweep_loop now jobs n s) = Inr (n + length jobs)
    \<and> (\<forall>k. k \<notin> job_id ` set jobs \<longrightarrow> get_job k (fst (sweep_loop now jobs n s)) = get_job k s)
    \<and> (\<forall>k j. k \<in> job_id ` set jobs \<longrightarrow> get_job k (fst (sweep_loop now jobs n s)) = Some j \<longrightarrow>
         updated_at j = now)"
  using assms
proof (induction jobs arbitrary: n s)
  case (Cons job jobs)
  then obtain dev where dev: "get_job (job_id job) s = Some job" "status job = Queued"
    "worker_id job = Some dev" by auto
  obtain requeued s1 s2 row where st:
    "transition now (job_id job) [Queued] Queued
       (no_change\<lparr>tr_worker_id := Some None, tr_worker_id_guard := Some dev\<rparr>) s = (s1, Some requeued)"
    "dispatch_avoiding now requeued (Some dev) (announce requeued s1) = (s2, Inr row)"
    and frame: "\<forall>k. k \<noteq> job_id job \<longrightarrow> get_job k s2 = get_job k s"
    and new: "\<forall>j'. get_job (job_id job) s2 = Some j' \<longrightarrow> updated_at j' = now"
    by (rule sweep_step [OF dev, of now])
  have loop: "sweep_loop now (job # jobs) n s = sweep_loop now jobs (n + 1) s2"
    using dev st by simp
  have "\<forall>j \<in> set jobs. job_id j \<noteq> job_id job"
    using Cons.prems(2) by (metis distinct.simps(2) imageI list.simps(9) set_map)
  then have "\<forall>j \<in> set jobs. get_job (job_id j) s2 = Some j \<and> status j = Queued \<and> worker_id j \<noteq> None"
    using Cons.prems(1) frame by simp
  from Cons.IH [OF this] Cons.prems(2) have ih:
    "snd (sweep_loop now jobs (n + 1) s2) = Inr (n + 1 + length jobs)"
    "k \<notin> job_id ` set jobs \<Longrightarrow> get_job k (fst (sweep_loop now jobs (n + 1) s2)) = get_job k s2"
    "k \<in> job_id ` set jobs \<Longrightarrow> get_job k (fst (sweep_loop now jobs (n + 1) s2)) = Some j \<Longrightarrow>
       updated_at j = now" for k j
    by auto
  have mine: "job_id job \<notin> job_id ` set jobs" using Cons.prems(2) by auto
  show ?case unfolding loop
  proof (intro conjI allI impI)
    show "snd (sweep_loop now jobs (n + 1) s2) = Inr (n + length (job # jobs))" using ih(1) by simp
    show "get_job k (fst (sweep_loop now jobs (n + 1) s2)) = get_job k s"
      if "k \<notin> job_id ` set (job # jobs)" for k
      using that ih(2) [of k] frame by simp
    show "updated_at j = now" if "k \<in> job_id ` set (job # jobs)"
      "get_job k (fst (sweep_loop now jobs (n + 1) s2)) = Some j" for k j
      using that ih(2,3) new mine by (cases "k = job_id job") auto
  qed
qed simp

section \<open>Properties of the job service\<close>

text \<open>
  C1. Whatever the service does afterwards, in any order and interleaving of its
  operations, a job that was in the table stays there under its id with the same kind,
  input, requirements, priority and creation time; once terminal its row never changes
  again, and once claimed or running it keeps its worker and its start time and never goes
  back to the queue.
\<close>

theorem job_history:
  assumes "jobs_step\<^sup>*\<^sup>* s s'" "distinct (map job_id (table s))" "get_job jid s = Some j"
  shows "\<exists>j'. get_job jid s' = Some j' \<and> later j j'"
proof -
  have "j \<in> set (table s)" and jid: "job_id j = jid"
    using assms(3) by (auto simp: get_job_def dest: find_by_id_Some)
  with later_steps [of "table s" "table s'" j] jobs_steps_writes [OF assms(1)] assms(2)
  obtain j' where "distinct (map job_id (table s'))" "j' \<in> set (table s')" "later j j'"
    by (auto simp: writes_def)
  with find_by_id_in [of "table s'" j'] jid show ?thesis
    by (auto simp: get_job_def later_def)
qed

text \<open>
  C14. In every state the service reaches from a sound table, job ids are unique, a row
  has an end time exactly when it is terminal, a result exactly when it is done, an error
  exactly when it failed, a progress between 0 and 1 (1 when done), a worker when claimed
  and a start time when claimed or running.
\<close>

theorem table_invariant:
  assumes "jobs_step\<^sup>*\<^sup>* s s'" "table_ok (table s)"
  shows "table_ok (table s')"
  using jobs_steps_writes [OF assms(1)] assms(2) by (simp add: writes_def table_ok_steps)

text \<open>
  A new job is offered to the capable worker with the smallest device id when its
  socket still takes frames: that worker holds the queued row and its last frame is the
  offer. Otherwise a kind with a local implementation is handed to a local task, and every
  other job is parked as \<open>needs_worker\<close>. Routing a new job never fails.
\<close>

theorem enqueue_routes:
  assumes "get_job jid s = None"
  shows "routed now (new_job now jid k inp req prio)
      (route_of (new_job now jid k inp req prio) s) s (fst (enqueue now jid k inp req prio s))
    \<and> (\<exists>row. snd (enqueue now jid k inp req prio s) = Inr row)"
proof -
  let ?j = "new_job now jid k inp req prio"
  let ?s = "announce ?j (s\<lparr>table := table s @ [?j]\<rparr>)"
  have "get_job (job_id ?j) ?s = Some ?j"
    using assms by (simp add: get_job_def find_by_id_def find_append new_job_def)
  moreover have "status ?j = Queued" by (simp add: new_job_def)
  ultimately have "routed now ?j (route_of ?j ?s) ?s (fst (dispatch now ?j ?s))"
    "snd (dispatch now ?j ?s) \<noteq> Inl e" for e
    using dispatch_routed by blast+
  moreover have "routed now ?j r ?s s' = routed now ?j r s s'" "route_of ?j ?s = route_of ?j s"
    for r s'
    by (cases r; simp add: routed_def) (simp add: route_of_def cong: option.case_cong)
  ultimately show ?thesis
    by (cases "snd (dispatch now ?j ?s)") (auto simp: enqueue_def Let_def)
qed

text \<open>
  A \<open>result\<close> or \<open>fail\<close> frame from the holder of a queued, claimed or running job
  makes the row terminal: done with the result when no validator refuses it, failed with
  the reason otherwise. Every caller waiting on the job is sent that row's outcome exactly
  once, nobody is left waiting on it, and a failed job's uploaded bytes are gone.
\<close>

theorem completion:
  fixes now :: int
  assumes "distinct (map job_id (table s))" "get_job jid s = Some j" "worker_id j = Some dev"
    and "status j \<in> {Queued, Claimed, Running}"
    and frame: "frame = Result jid out \<and> outcome = Inr out \<or> frame = Fail jid err \<and> outcome = Inl err"
  defines "s' \<equiv> fst (handle_frame now dev frame s)"
    and "row \<equiv> finish_set now (judged outcome (result_validator s) j) j"
  shows "get_job jid s' = Some row \<and> map_of (waiters s') jid = None
    \<and> delivered s' = delivered s @ map (\<lambda>rx. (rx, outcome_of row (output_dir s)))
        (case map_of (waiters s) jid of None \<Rightarrow> [] | Some rxs \<Rightarrow> rxs)
    \<and> outputs s' = (if status row = Failed then outputs s - {jid} else outputs s)"
proof -
  let ?s = "s\<lparr>hub := hub_touch now dev (hub s)\<rparr>"
  have s': "s' = fst (complete now dev jid outcome ?s)"
    using frame by (auto simp: s'_def handle_frame_def)
  have "row = finish_set now (judged outcome (result_validator ?s) j) j" by (simp add: row_def)
  from complete_holder [of ?s jid j dev row now outcome, OF _ _ assms(3) _ this] assms(1,2,4)
  show ?thesis unfolding s' by (simp add: get_job_def finish_from_def)
qed

text \<open>
  A frame about a job that its sender does not hold changes neither the table nor
  anything else of the service but the sender's last-frame time, and answers
  \<open>NotAssigned\<close>.
\<close>

theorem foreign_frame_refused:
  assumes "frame_job_id frame = Some jid" "get_job jid s = Some j" "worker_id j \<noteq> Some dev"
  shows "handle_frame now dev frame s =
    (s\<lparr>hub := hub_touch now dev (hub s)\<rparr>, Inl (NotAssigned jid dev))"
  using assms by (rule handle_frame_refused)

text \<open>
  A worker that reconnects is sent, first and in creation order, one offer for every
  queued, claimed or running job that is still assigned to it.
\<close>

theorem reconnect_resends:
  "\<exists>fs. outbound_to dev (hub (fst (attach_worker now dev nm (Hello caps name ver) s))) =
     map job_frame (assigned_to dev (table s)) @ fs"
  using attach_worker_resends by (metis prod.collapse)

text \<open>
  After a worker connects, when every socket takes frames, no job is parked as
  \<open>needs_worker\<close> that a connected worker could run.
\<close>

theorem connect_drains_parked:
  assumes "distinct (map job_id (table s))" "all_reachable (hub s)"
    and "get_job jid (fst (on_worker_connected now dev s)) = Some j" "status j = NeedsWorker"
  shows "hub_capable_worker (requires j) (hub (fst (on_worker_connected now dev s))) = None"
proof -
  let ?r = "fst (resend_loop dev (assigned_to dev (table s)) 0 s)"
  have t: "table ?r = table s" by (rule resend_loop_table)
  have "hub_connected (hub ?r) = hub_connected (hub s)" "reachable e (hub ?r) = reachable e (hub s)" for e
    by (simp_all add: resend_loop_hub fold_send_same)
  then have "all_reachable (hub ?r)" using assms(2) by (simp add: all_reachable_def)
  moreover have "parked_only (parked (table ?r)) ?r"
    by (auto simp: parked_only_def parked_def get_job_def dest: find_by_id_Some)
  moreover have "distinct (map job_id (parked (table s)))"
    using assms(1) by (simp add: parked_def distinct_map inj_on_def)
  ultimately have "parked_only [] (fst (unpark_loop now (parked (table ?r)) ?r))"
    using assms(1) unpark_loop_drains [of ?r "parked (table ?r)" now] by (simp add: t)
  moreover have "fst (on_worker_connected now dev s) = fst (unpark_loop now (parked (table ?r)) ?r)"
    by (auto simp: on_worker_connected_def split: prod.splits sum.splits)
  ultimately show ?thesis using assms(3,4) by (auto simp: parked_only_def)
qed

text \<open>
  The claim sweep releases exactly the offers that are queued and assigned longer
  than the deadline, reports how many, and leaves no such offer behind; every other row is
  untouched.
\<close>

theorem sweep_releases_stale:
  fixes now :: int
  assumes "distinct (map job_id (table s))" "0 \<le> claim_deadline s"
  defines "cutoff \<equiv> now - claim_deadline s" and "s' \<equiv> fst (sweep_claim_deadlines now s)"
  shows "snd (sweep_claim_deadlines now s) = Inr (length (filter (stale cutoff) (table s)))
    \<and> (\<forall>jid j. get_job jid s' = Some j \<longrightarrow> \<not> stale cutoff j)
    \<and> (\<forall>jid j. get_job jid s = Some j \<longrightarrow> \<not> stale cutoff j \<longrightarrow> get_job jid s' = Some j)"
proof -
  let ?jobs = "filter (stale cutoff) (table s)"
  have sweep: "sweep_claim_deadlines now s = sweep_loop now ?jobs 0 s"
    unfolding sweep_claim_deadlines_def cutoff_def stale_def [abs_def] Let_def ..
  have got: "\<forall>j \<in> set ?jobs. get_job (job_id j) s = Some j \<and> status j = Queued \<and> worker_id j \<noteq> None"
    using find_by_id_in [OF assms(1)] by (auto simp: get_job_def stale_def)
  have "distinct (map job_id ?jobs)" using assms(1) by (rule distinct_map_filter)
  from sweep_loop_releases [OF got this, of now 0, folded sweep, folded s'_def]
  have count: "snd (sweep_claim_deadlines now s) = Inr (length ?jobs)"
    and other: "jid \<notin> job_id ` set ?jobs \<Longrightarrow> get_job jid s' = get_job jid s"
    and new: "jid \<in> job_id ` set ?jobs \<Longrightarrow> get_job jid s' = Some j \<Longrightarrow> updated_at j = now" for jid j
    by (simp, blast, blast)
  have mine: "stale cutoff j \<longleftrightarrow> jid \<in> job_id ` set ?jobs" if g: "get_job jid s = Some j" for jid j
  proof
    have j: "j \<in> set (table s)" "job_id j = jid"
      using g by (auto simp: get_job_def dest: find_by_id_Some)
    show "jid \<in> job_id ` set ?jobs" if "stale cutoff j" using that j by auto
    assume "jid \<in> job_id ` set ?jobs"
    then obtain i where i: "i \<in> set ?jobs" "jid = job_id i" by blast
    with got g have "i = j" by simp
    with i(1) show "stale cutoff j" by simp
  qed
  have "\<not> stale cutoff j" if g: "get_job jid s' = Some j" for jid j
  proof (cases "jid \<in> job_id ` set ?jobs")
    case True
    from new [OF True g] assms(2) show ?thesis by (simp add: stale_def cutoff_def)
  next
    case False
    from mine [of jid j] other [OF False] False g show ?thesis by simp
  qed
  moreover have "get_job jid s' = Some j"
    if "get_job jid s = Some j" "\<not> stale cutoff j" for jid j
    using that mine [OF that(1)] other [of jid] by simp
  ultimately show ?thesis using count by blast
qed

section \<open>Cancellation\<close>

lemma cancel_commit_hit:
  fixes now :: int and reason :: string
  assumes "get_job jid s = Some j" "\<not> is_terminal (status j)"
  defines "row \<equiv> j\<lparr>status := Failed, updated_at := now, job_error := Some reason,
    finished_at := Some now\<rparr>"
  shows "get_job jid (fst (cancel_commit now jid job reason s)) = Some row"
    and "snd (cancel_commit now jid job reason s) = row"
    and "map_of (waiters (fst (cancel_commit now jid job reason s))) jid = None"
    and "delivered (fst (cancel_commit now jid job reason s)) = delivered s @
      map (\<lambda>rx. (rx, OutFailed reason))
        (case map_of (waiters s) jid of None \<Rightarrow> [] | Some rxs \<Rightarrow> rxs)"
    and "outputs (fst (cancel_commit now jid job reason s)) = outputs s - {jid}"
proof -
  let ?frm = "[Queued, Claimed, Running, NeedsWorker]"
  let ?ch = "no_change\<lparr>tr_error := Some reason, tr_finished_at := True\<rparr>"
  define u where "u = fst (transition now jid ?frm Failed ?ch s)"
  have hits: "status_hits jid ?frm ?ch j"
    using assms(1,2) get_job_id by (cases "status j") (auto simp: row_defs)
  have row: "status_set now Failed ?ch j = row"
    by (simp add: row_def status_set_def no_change_def)
  have tr: "transition now jid ?frm Failed ?ch s = (u, Some row)"
    using transition_hit [OF assms(1) hits, of now Failed] by (simp add: u_def prod_eq_iff row)
  have c: "cancel_commit now jid job reason s = (wake row (u\<lparr>outputs := outputs u - {jid}\<rparr>), row)"
    by (simp add: cancel_commit_def tr)
  have g: "get_job jid u = Some row"
    using get_job_transition [of jid now jid ?frm Failed ?ch s] assms(1) hits by (simp add: u_def row)
  have same: "waiters u = waiters s" "delivered u = delivered s" "outputs u = outputs s"
    "output_dir u = output_dir s"
    by (simp_all add: u_def transition_def split_beta)
  show "get_job jid (fst (cancel_commit now jid job reason s)) = Some row"
    "snd (cancel_commit now jid job reason s) = row"
    "outputs (fst (cancel_commit now jid job reason s)) = outputs s - {jid}"
    using g by (simp_all add: c same get_job_def)
  show "map_of (waiters (fst (cancel_commit now jid job reason s))) jid = None"
    "delivered (fst (cancel_commit now jid job reason s)) = delivered s @
      map (\<lambda>rx. (rx, OutFailed reason))
        (case map_of (waiters s) jid of None \<Rightarrow> [] | Some rxs \<Rightarrow> rxs)"
    using get_job_id [OF g]
    by (auto simp: c wake_def same delete_conv' outcome_of_def row_def split: option.splits)
qed

lemma cancel_read_same:
  "get_job k (fst (cancel_read jid s)) = get_job k s"
  "waiters (fst (cancel_read jid s)) = waiters s"
  "delivered (fst (cancel_read jid s)) = delivered s"
  "outputs (fst (cancel_read jid s)) = outputs s"
  "events (fst (cancel_read jid s)) = events s"
  by (auto simp: cancel_read_def send_to_def get_job_def split: option.splits prod.splits)

text \<open>Cancelling persists a transition and tells no listener about it.\<close>

lemma cancel_announces_nothing: "events (fst (cancel now jid reason s)) = events s"
proof -
  have "events (fst (cancel_commit now jid job reason s)) = events s" for s job
    by (simp add: cancel_commit_def split_beta Let_def)
  then show ?thesis
    using cancel_read_same(5) [of jid s]
    by (simp add: cancel_def split_beta split: sum.splits)
qed

text \<open>
  Cancelling a job that is not terminal fails its row with the reason, tells every
  waiting caller so exactly once, removes the job's bytes and returns that row.
\<close>

theorem cancel_settles:
  fixes now :: int and reason :: string
  assumes "get_job jid s = Some j" "\<not> is_terminal (status j)"
  defines "row \<equiv> j\<lparr>status := Failed, updated_at := now, job_error := Some reason,
      finished_at := Some now\<rparr>"
    and "s' \<equiv> fst (cancel now jid reason s)"
  shows "snd (cancel now jid reason s) = Inr row \<and> get_job jid s' = Some row
    \<and> jid \<notin> outputs s' \<and> map_of (waiters s') jid = None
    \<and> delivered s' = delivered s @ map (\<lambda>rx. (rx, OutFailed reason))
        (case map_of (waiters s) jid of None \<Rightarrow> [] | Some rxs \<Rightarrow> rxs)"
proof -
  let ?u = "fst (cancel_read jid s)"
  have "snd (cancel_read jid s) = Inr (j, False)"
    using assms(1,2) by (auto simp: cancel_read_def split: option.splits)
  then have c: "cancel now jid reason s =
      (fst (cancel_commit now jid j reason ?u), Inr (snd (cancel_commit now jid j reason ?u)))"
    by (auto simp: cancel_def split: prod.splits)
  have g: "get_job jid ?u = Some j" using assms(1) by (simp add: cancel_read_same)
  show ?thesis
    unfolding s'_def c row_def using cancel_commit_hit [OF g assms(2)]
    by (simp add: cancel_read_same)
qed


section \<open>The properties on concrete states\<close>

definition example_job :: worker_job where
  "example_job =
     (new_job 1 ''j'' ''transcode'' JNull transcode_requires 0)
       \<lparr>status := Claimed, worker_id := Some ''w'', started_at := Some 2\<rparr>"

definition example_jobs :: worker_jobs where
  "example_jobs =
     (jobs_new ''d'' [example_job])\<lparr>waiters := [(''j'', [7])], outputs := {''j''}\<rparr>"

lemmas example_eval = example_job_def example_jobs_def jobs_new_def new_job_def get_job_def
  find_by_id_def is_terminal_def hub_new_def

lemma example_get: "get_job ''j'' example_jobs = Some example_job"
  by (simp add: example_eval)

lemma example_distinct: "distinct (map job_id (table example_jobs))"
  by (simp add: example_eval)

lemma example_step:
  "jobs_step\<^sup>*\<^sup>* example_jobs (fst (handle_frame 3 ''w'' (Result ''j'' JNull) example_jobs))"
  by (intro r_into_rtranclp jobs_step.frame) simp

theorem job_history_witness:
  "\<exists>j'. get_job ''j'' (fst (handle_frame 3 ''w'' (Result ''j'' JNull) example_jobs)) = Some j'
     \<and> later example_job j'"
  using job_history [OF example_step example_distinct example_get] .

theorem table_invariant_witness:
  "table_ok (table (fst (handle_frame 3 ''w'' (Result ''j'' JNull) example_jobs)))"
proof (rule table_invariant [OF example_step])
  show "table_ok (table example_jobs)"
    by (simp add: table_ok_def row_ok_def example_eval)
qed

theorem enqueue_routes_witness:
  "routed 4 (new_job 4 ''k'' ''align'' JNull (JBool True) 0) Parked example_jobs
     (fst (enqueue 4 ''k'' ''align'' JNull (JBool True) 0 example_jobs))"
proof -
  have "get_job ''k'' example_jobs = None" by (simp add: example_eval)
  moreover have "route_of (new_job 4 ''k'' ''align'' JNull (JBool True) 0) example_jobs = Parked"
    by (simp add: route_of_def hub_capable_worker_def example_eval)
  ultimately show ?thesis using enqueue_routes by metis
qed

theorem completion_witness:
  "delivered (fst (handle_frame 3 ''w'' (Result ''j'' JNull) example_jobs)) =
     [(7, OutDone JNull ''d/j'')]"
proof -
  have "status example_job \<in> {Queued, Claimed, Running}" "worker_id example_job = Some ''w''"
    by (simp_all add: example_eval)
  from completion [OF example_distinct example_get this(2,1),
      of "Result ''j'' JNull" JNull "Inr JNull" "[]" 3]
  show ?thesis
    by (simp add: outcome_of_def judged_def output_path_def example_eval)
qed

theorem foreign_frame_refused_witness:
  "snd (handle_frame 3 ''x'' (Claim ''j'') example_jobs) = Inl (NotAssigned ''j'' ''x'')"
proof -
  have "frame_job_id (Claim ''j'') = Some ''j''" "worker_id example_job \<noteq> Some ''x''"
    by (simp_all add: example_eval)
  from foreign_frame_refused [OF this(1) example_get this(2)] show ?thesis by simp
qed

theorem sweep_releases_stale_witness:
  "snd (sweep_claim_deadlines 90000 (example_jobs\<lparr>table := [example_job\<lparr>status := Queued\<rparr>]\<rparr>)) =
     Inr 1"
proof -
  let ?s = "example_jobs\<lparr>table := [example_job\<lparr>status := Queued\<rparr>]\<rparr>"
  have "distinct (map job_id (table ?s))" "0 \<le> claim_deadline ?s"
    by (simp_all add: example_eval CLAIM_DEADLINE_def)
  from sweep_releases_stale [OF this, of 90000]
  show ?thesis by (simp add: stale_def example_eval CLAIM_DEADLINE_def)
qed

theorem connect_drains_parked_witness:
  "hub_capable_worker transcode_requires (hub (fst (on_worker_connected 5 ''w''
     (example_jobs\<lparr>table := [example_job\<lparr>status := NeedsWorker, worker_id := None\<rparr>]\<rparr>)))) = None"
proof -
  let ?j = "example_job\<lparr>status := NeedsWorker, worker_id := None\<rparr>"
  let ?s = "example_jobs\<lparr>table := [?j]\<rparr>"
  have "distinct (map job_id (table ?s))" "all_reachable (hub ?s)"
    by (simp_all add: example_eval all_reachable_def hub_connected_def)
  moreover have "get_job ''j'' (fst (on_worker_connected 5 ''w'' ?s)) = Some ?j"
    by (simp add: on_worker_connected_def assigned_to_def parked_def hub_capable_worker_def
        example_eval)
  ultimately have "hub_capable_worker (requires ?j) (hub (fst (on_worker_connected 5 ''w'' ?s))) = None"
    by (rule connect_drains_parked) simp
  then show ?thesis by (simp add: example_eval)
qed


theorem cancel_settles_witness:
  "delivered (fst (cancel 3 ''j'' ''stop'' example_jobs)) = [(7, OutFailed ''stop'')]"
proof -
  have "\<not> is_terminal (status example_job)" by (simp add: example_eval)
  from cancel_settles [OF example_get this, of 3 "''stop''"]
  show ?thesis by (simp add: example_eval)
qed

end
