(* ===== verification/Sync_Map.thy ===== *)
theory Sync_Map
  imports Json
begin

text \<open>
  \<^verbatim>\<open>crates/worker/src/alignment.rs\<close>: the alignment request, the SyncMap artifact and its
  validator. The numbers are only compared, so \<open>i32\<close> and \<open>i64\<close> are \<open>int\<close>. A duration map
  and the options are association lists in key order, as a \<open>BTreeMap\<close> iterates. The serde
  impls are left out, the media type check of \<open>AlignResult\<close> apart.
\<close>

section \<open>The contract\<close>

definition SYNC_MAP_SCHEMA_VERSION :: nat where "SYNC_MAP_SCHEMA_VERSION = 1"

definition SYNC_MAP_MIME :: string where
  "SYNC_MAP_MIME = ''application/vnd.stump.sync-map+json''"

datatype align_granularity = Sentence | Word

datatype align_execution_provider = Cpu | Cuda | Rocm | Metal

datatype align_precision = Fp32 | Fp16 | Int8

record align_input =
  in_text_media_id :: ustr
  in_text_digest :: ustr
  in_audio_media_id :: ustr
  in_audio_manifest_digest :: ustr
  in_algorithm :: ustr
  in_model :: ustr
  in_model_revision :: ustr
  in_language :: ustr
  in_granularity :: align_granularity
  in_execution_provider :: align_execution_provider
  in_precision :: align_precision
  in_options :: "(string \<times> json) list"

record align_result =
  ar_bytes :: nat
  ar_sha256 :: string

definition align_result_mime :: "align_result \<Rightarrow> string" where
  "align_result_mime r = SYNC_MAP_MIME"

text \<open>Reading a result back: the three wire fields, \<open>None\<close> for a foreign media type.\<close>

definition align_result_of :: "nat \<Rightarrow> string \<Rightarrow> string \<Rightarrow> align_result option" where
  "align_result_of bytes sha mime =
     (if mime \<noteq> SYNC_MAP_MIME then None else Some \<lparr>ar_bytes = bytes, ar_sha256 = sha\<rparr>)"

record text_fragment =
  spine_index :: int
  ordinal :: int
  element_id :: ustr

record audio_clip =
  track_index :: int
  begin_ms :: int
  end_ms :: int

record sync_cue =
  cue_text :: text_fragment
  cue_audio :: audio_clip
  confidence :: "f64 option"

record sync_map_provenance =
  text_digest :: ustr
  audio_manifest_digest :: ustr
  implementation :: ustr
  prov_version :: ustr
  algorithm :: ustr
  model :: ustr
  model_revision :: ustr
  language :: ustr
  granularity :: align_granularity
  execution_provider :: align_execution_provider
  precision :: align_precision
  options :: "(string \<times> json) list"

record sync_map_v1 =
  schema :: nat
  text_media_id :: ustr
  audio_media_id :: ustr
  provenance :: sync_map_provenance
  cues :: "sync_cue list"

type_synonym track_durations = "(int \<times> int) list"

datatype sync_map_error =
    UnsupportedSchema nat nat
  | MalformedDigest string
  | EmptyField string
  | InputMismatch string
  | EmptyMap
  | DuplicateTarget nat int ustr
  | NegativeSpineIndex nat int
  | NegativeOrdinal nat int
  | NegativeTrackIndex nat int
  | EmptyTarget nat
  | NonPositiveInterval nat int int
  | BackwardTextOrder nat text_fragment text_fragment
  | BackwardAudioOrder nat int int
  | SameTrackOverlap nat int
  | UnknownTrack nat int
  | ClipOutOfBounds nat int int int
  | InvalidConfidence nat f64
  | InvalidTrackDuration int int

section \<open>The validator\<close>

definition is_lowercase_sha256 :: "ustr \<Rightarrow> bool" where
  "is_lowercase_sha256 v \<longleftrightarrow>
     length (utf8 v) = 64
     \<and> list_all (\<lambda>b. is_ascii_digit b \<or> (97 \<le> b \<and> b \<le> 102)) (utf8 v)"

definition required_fields :: "sync_map_v1 \<Rightarrow> (string \<times> ustr) list" where
  "required_fields m =
     [(''text_media_id'', text_media_id m),
      (''audio_media_id'', audio_media_id m),
      (''provenance.implementation'', implementation (provenance m)),
      (''provenance.version'', prov_version (provenance m)),
      (''provenance.algorithm'', algorithm (provenance m)),
      (''provenance.model'', model (provenance m)),
      (''provenance.model_revision'', model_revision (provenance m)),
      (''provenance.language'', language (provenance m))]"

fun check_fields :: "(string \<times> ustr) list \<Rightarrow> (sync_map_error, unit) result" where
  "check_fields [] = Inr ()"
| "check_fields ((field, v) # rest) =
     (if trim v = [] then Inl (EmptyField field) else check_fields rest)"

fun check_durations :: "track_durations \<Rightarrow> (sync_map_error, unit) result" where
  "check_durations [] = Inr ()"
| "check_durations ((track, d) # rest) =
     (if d \<le> 0 then Inl (InvalidTrackDuration track d) else check_durations rest)"

definition target :: "sync_cue \<Rightarrow> int \<times> ustr" where
  "target c = (spine_index (cue_text c), element_id (cue_text c))"

definition position :: "text_fragment \<Rightarrow> int \<times> int" where
  "position f = (spine_index f, ordinal f)"

definition check_text :: "nat \<Rightarrow> (int \<times> ustr) set \<Rightarrow> sync_cue \<Rightarrow> (sync_map_error, unit) result" where
  "check_text i targets c =
     (if spine_index (cue_text c) < 0
      then Inl (NegativeSpineIndex i (spine_index (cue_text c)))
      else if ordinal (cue_text c) < 0 then Inl (NegativeOrdinal i (ordinal (cue_text c)))
      else if track_index (cue_audio c) < 0
      then Inl (NegativeTrackIndex i (track_index (cue_audio c)))
      else if element_id (cue_text c) = [] then Inl (EmptyTarget i)
      else if target c \<in> targets
      then Inl (DuplicateTarget i (spine_index (cue_text c)) (element_id (cue_text c)))
      else Inr ())"

definition check_clip ::
  "track_durations \<Rightarrow> nat \<Rightarrow> sync_cue \<Rightarrow> (sync_map_error, unit) result" where
  "check_clip durations i c =
     (let a = cue_audio c in
      if begin_ms a < 0 \<or> end_ms a \<le> begin_ms a
      then Inl (NonPositiveInterval i (begin_ms a) (end_ms a))
      else (case map_of durations (track_index a) of
              None \<Rightarrow> Inl (UnknownTrack i (track_index a))
            | Some d \<Rightarrow>
                if d < end_ms a then Inl (ClipOutOfBounds i (track_index a) (end_ms a) d)
                else (case confidence c of
                        None \<Rightarrow> Inr ()
                      | Some v \<Rightarrow>
                          if \<not> f64_is_finite v \<or> \<not> (f64_le (Fin 0) v \<and> f64_le v (Fin 1))
                          then Inl (InvalidConfidence i v)
                          else Inr ())))"

definition check_order ::
  "nat \<Rightarrow> text_fragment option \<Rightarrow> audio_clip option \<Rightarrow> sync_cue
     \<Rightarrow> (sync_map_error, unit) result" where
  "check_order i previous_text previous_audio c =
     bind_result
       (case previous_text of
          None \<Rightarrow> Inr ()
        | Some p \<Rightarrow>
            if position (cue_text c) < position p
            then Inl (BackwardTextOrder i p (cue_text c)) else Inr ())
       (\<lambda>_. case previous_audio of
          None \<Rightarrow> Inr ()
        | Some p \<Rightarrow>
            let a = cue_audio c in
            if track_index a < track_index p
            then Inl (BackwardAudioOrder i (track_index p) (track_index a))
            else if track_index a = track_index p
            then (if begin_ms a < begin_ms p
                  then Inl (BackwardAudioOrder i (track_index p) (track_index a))
                  else if begin_ms a < end_ms p then Inl (SameTrackOverlap i (track_index a))
                  else Inr ())
            else Inr ())"

fun check_cues ::
  "track_durations \<Rightarrow> nat \<Rightarrow> (int \<times> ustr) set \<Rightarrow> text_fragment option \<Rightarrow> audio_clip option
     \<Rightarrow> sync_cue list \<Rightarrow> (sync_map_error, unit) result" where
  "check_cues durations i targets previous_text previous_audio [] = Inr ()"
| "check_cues durations i targets previous_text previous_audio (c # cs) =
     bind_result (check_text i targets c)
       (\<lambda>_. bind_result (check_clip durations i c)
         (\<lambda>_. bind_result (check_order i previous_text previous_audio c)
           (\<lambda>_. check_cues durations (i + 1) (insert (target c) targets)
             (Some (cue_text c)) (Some (cue_audio c)) cs)))"

definition validate :: "sync_map_v1 \<Rightarrow> track_durations \<Rightarrow> (sync_map_error, unit) result" where
  "validate m durations =
     (if schema m \<noteq> SYNC_MAP_SCHEMA_VERSION
      then Inl (UnsupportedSchema SYNC_MAP_SCHEMA_VERSION (schema m))
      else if \<not> is_lowercase_sha256 (text_digest (provenance m))
      then Inl (MalformedDigest ''provenance.text_digest'')
      else if \<not> is_lowercase_sha256 (audio_manifest_digest (provenance m))
      then Inl (MalformedDigest ''provenance.audio_manifest_digest'')
      else bind_result (check_fields (required_fields m))
        (\<lambda>_. if cues m = [] then Inl EmptyMap
          else bind_result (check_durations durations)
            (\<lambda>_. check_cues durations 0 {} None None (cues m))))"

definition identity_fields :: "sync_map_v1 \<Rightarrow> align_input \<Rightarrow> (string \<times> bool) list" where
  "identity_fields m inp =
     (let p = provenance m in
      [(''text_media_id'', text_media_id m = in_text_media_id inp),
       (''provenance.text_digest'', text_digest p = in_text_digest inp),
       (''audio_media_id'', audio_media_id m = in_audio_media_id inp),
       (''provenance.audio_manifest_digest'',
          audio_manifest_digest p = in_audio_manifest_digest inp),
       (''provenance.algorithm'', algorithm p = in_algorithm inp),
       (''provenance.model'', model p = in_model inp),
       (''provenance.model_revision'', model_revision p = in_model_revision inp),
       (''provenance.language'', language p = in_language inp),
       (''provenance.granularity'', granularity p = in_granularity inp),
       (''provenance.execution_provider'',
          execution_provider p = in_execution_provider inp),
       (''provenance.precision'', precision p = in_precision inp),
       (''provenance.options'', options p = in_options inp)])"

fun check_identity :: "(string \<times> bool) list \<Rightarrow> (sync_map_error, unit) result" where
  "check_identity [] = Inr ()"
| "check_identity ((field, matches) # rest) =
     (if \<not> matches then Inl (InputMismatch field) else check_identity rest)"

definition validate_for ::
  "sync_map_v1 \<Rightarrow> align_input \<Rightarrow> track_durations \<Rightarrow> (sync_map_error, unit) result" where
  "validate_for m inp durations =
     bind_result (validate m durations) (\<lambda>_. check_identity (identity_fields m inp))"

section \<open>What a valid map is\<close>

text \<open>
  The declarative counterpart of the validator: conditions on each cue alone, and on
  every pair of cues rather than on neighbours.
\<close>

definition clip_before :: "sync_cue \<Rightarrow> sync_cue \<Rightarrow> bool" where
  "clip_before c d \<longleftrightarrow>
     track_index (cue_audio c) < track_index (cue_audio d)
     \<or> track_index (cue_audio c) = track_index (cue_audio d)
       \<and> end_ms (cue_audio c) \<le> begin_ms (cue_audio d)"

definition text_before :: "sync_cue \<Rightarrow> sync_cue \<Rightarrow> bool" where
  "text_before c d \<longleftrightarrow> position (cue_text c) \<le> position (cue_text d)"

definition cue_ok :: "track_durations \<Rightarrow> sync_cue \<Rightarrow> bool" where
  "cue_ok durations c \<longleftrightarrow>
     0 \<le> spine_index (cue_text c) \<and> 0 \<le> ordinal (cue_text c) \<and> element_id (cue_text c) \<noteq> []
     \<and> 0 \<le> track_index (cue_audio c) \<and> 0 \<le> begin_ms (cue_audio c)
     \<and> begin_ms (cue_audio c) < end_ms (cue_audio c)
     \<and> (case map_of durations (track_index (cue_audio c)) of
          None \<Rightarrow> False | Some d \<Rightarrow> end_ms (cue_audio c) \<le> d)
     \<and> (case confidence c of None \<Rightarrow> True | Some v \<Rightarrow> f64_unit v)"

definition cues_ok :: "track_durations \<Rightarrow> sync_cue list \<Rightarrow> bool" where
  "cues_ok durations cs \<longleftrightarrow>
     (\<forall>c \<in> set cs. cue_ok durations c) \<and> distinct (map target cs)
     \<and> sorted_wrt text_before cs \<and> sorted_wrt clip_before cs"

definition is_hex_digest :: "ustr \<Rightarrow> bool" where
  "is_hex_digest v \<longleftrightarrow> length v = 64 \<and> set v \<subseteq> {48..57} \<union> {97..102}"

definition sync_map_ok :: "sync_map_v1 \<Rightarrow> track_durations \<Rightarrow> bool" where
  "sync_map_ok m durations \<longleftrightarrow>
     schema m = 1 \<and> is_hex_digest (text_digest (provenance m))
     \<and> is_hex_digest (audio_manifest_digest (provenance m))
     \<and> (\<forall>v \<in> snd ` set (required_fields m). trim v \<noteq> [])
     \<and> cues m \<noteq> [] \<and> (\<forall>d \<in> snd ` set durations. 0 < d)
     \<and> cues_ok durations (cues m)"

fun err_cue :: "sync_map_error \<Rightarrow> nat option" where
  "err_cue (DuplicateTarget i _ _) = Some i"
| "err_cue (NegativeSpineIndex i _) = Some i"
| "err_cue (NegativeOrdinal i _) = Some i"
| "err_cue (NegativeTrackIndex i _) = Some i"
| "err_cue (EmptyTarget i) = Some i"
| "err_cue (NonPositiveInterval i _ _) = Some i"
| "err_cue (BackwardTextOrder i _ _) = Some i"
| "err_cue (BackwardAudioOrder i _ _) = Some i"
| "err_cue (SameTrackOverlap i _) = Some i"
| "err_cue (UnknownTrack i _) = Some i"
| "err_cue (ClipOutOfBounds i _ _ _) = Some i"
| "err_cue (InvalidConfidence i _) = Some i"
| "err_cue _ = None"

section \<open>The validator decides it\<close>

lemma utf8_ascii: "\<forall>b \<in> set (utf8 v). b < 128 \<Longrightarrow> utf8 v = v"
proof (induction v)
  case (Cons c v)
  then have tl: "utf8 v = v" by (simp add: utf8_def)
  have "c < 128"
  proof (rule ccontr)
    assume "\<not> c < 128"
    then have "hd (utf8_char c) \<ge> 128" "utf8_char c \<noteq> []"
      by (auto simp: utf8_char.simps)
    with Cons.prems show False by (cases "utf8_char c") (auto simp: utf8_def)
  qed
  with tl show ?case by (simp add: utf8_def utf8_char.simps)
qed (simp add: utf8_def)

lemma utf8_ascii_id: "\<forall>c \<in> set v. c < 128 \<Longrightarrow> utf8 v = v"
  by (induction v) (auto simp: utf8_def utf8_char.simps)

lemma is_lowercase_sha256_iff: "is_lowercase_sha256 v \<longleftrightarrow> is_hex_digest v"
proof
  assume l: "is_lowercase_sha256 v"
  then have "\<forall>b \<in> set (utf8 v). b < 128"
    by (fastforce simp: is_lowercase_sha256_def list_all_iff is_ascii_digit_def)
  then have "utf8 v = v" by (rule utf8_ascii)
  with l show "is_hex_digest v"
    by (auto simp: is_lowercase_sha256_def is_hex_digest_def list_all_iff is_ascii_digit_def)
next
  assume h: "is_hex_digest v"
  then have "utf8 v = v" by (intro utf8_ascii_id) (auto simp: is_hex_digest_def)
  with h show "is_lowercase_sha256 v"
    by (auto simp: is_lowercase_sha256_def is_hex_digest_def list_all_iff is_ascii_digit_def)
qed

lemma check_fields_iff: "check_fields fs = Inr () \<longleftrightarrow> (\<forall>v \<in> snd ` set fs. trim v \<noteq> [])"
  by (induction fs rule: check_fields.induct) auto

lemma check_durations_iff: "check_durations ds = Inr () \<longleftrightarrow> (\<forall>d \<in> snd ` set ds. 0 < d)"
  by (induction ds rule: check_durations.induct) auto

lemma check_identity_iff: "check_identity fs = Inr () \<longleftrightarrow> (\<forall>b \<in> snd ` set fs. b)"
  by (induction fs rule: check_identity.induct) auto

lemma check_text_iff:
  "check_text i targets c = Inr () \<longleftrightarrow>
     0 \<le> spine_index (cue_text c) \<and> 0 \<le> ordinal (cue_text c) \<and> 0 \<le> track_index (cue_audio c)
     \<and> element_id (cue_text c) \<noteq> [] \<and> target c \<notin> targets"
  by (auto simp: check_text_def)

lemma check_clip_iff:
  "check_clip durations i c = Inr () \<longleftrightarrow>
     0 \<le> begin_ms (cue_audio c) \<and> begin_ms (cue_audio c) < end_ms (cue_audio c)
     \<and> (case map_of durations (track_index (cue_audio c)) of
          None \<Rightarrow> False | Some d \<Rightarrow> end_ms (cue_audio c) \<le> d)
     \<and> (case confidence c of None \<Rightarrow> True | Some v \<Rightarrow> f64_unit v)"
  by (auto simp: check_clip_def Let_def f64_unit_def not_less split: option.splits
      dest: f64_le_unit_finite)

lemma check_order_iff:
  assumes "begin_ms (cue_audio p) < end_ms (cue_audio p)"
  shows "check_order i (Some (cue_text p)) (Some (cue_audio p)) c = Inr () \<longleftrightarrow>
    text_before p c \<and> clip_before p c"
  using assms
  by (auto simp: check_order_def Let_def text_before_def clip_before_def not_less
      simp del: less_prod_simp less_eq_prod_simp)

lemma check_errors:
  "check_text i targets c = Inl e \<Longrightarrow> err_cue e = Some i"
  "check_clip durations i c = Inl e \<Longrightarrow> err_cue e = Some i"
  "check_order i pt pa c = Inl e \<Longrightarrow> err_cue e = Some i"
  by (auto simp: check_text_def check_clip_def check_order_def Let_def
      split: if_splits option.splits)

lemma clip_before_trans:
  "clip_before a b \<Longrightarrow> clip_before b c \<Longrightarrow> begin_ms (cue_audio b) < end_ms (cue_audio b) \<Longrightarrow>
     clip_before a c"
  by (auto simp: clip_before_def)

lemma all_before_last:
  assumes "sorted_wrt R xs" "xs \<noteq> []" "\<And>x. x \<in> set xs \<Longrightarrow> R x (last xs) \<Longrightarrow> R (last xs) y \<Longrightarrow> R x y"
    "R (last xs) y" "x \<in> set xs"
  shows "R x y"
proof (cases "x = last xs")
  case False
  obtain ys where xs: "xs = ys @ [last xs]" using assms(2) by (metis append_butlast_last_id)
  with False assms(5) have "x \<in> set ys" by (metis Un_iff empty_iff empty_set set_ConsD set_append)
  with assms(1) xs have "R x (last xs)" by (metis list.set_intros(1) sorted_wrt_append)
  with assms show ?thesis by blast
qed (use assms in simp)

lemma sorted_wrt_snoc_last:
  assumes "sorted_wrt R xs" "\<And>x. x \<in> set xs \<Longrightarrow> R x (last xs) \<Longrightarrow> R (last xs) y \<Longrightarrow> R x y"
  shows "sorted_wrt R (xs @ [y]) \<longleftrightarrow> xs = [] \<or> R (last xs) y"
proof
  show "xs = [] \<or> R (last xs) y" if "sorted_wrt R (xs @ [y])"
    using that by (cases "xs = []") (simp_all add: sorted_wrt_append)
  assume h: "xs = [] \<or> R (last xs) y"
  show "sorted_wrt R (xs @ [y])"
  proof (cases "xs = []")
    case False
    with h have l: "R (last xs) y" by simp
    have "R x y" if "x \<in> set xs" for x
      using assms(1) False assms(2) l that by (rule all_before_last)
    with assms(1) show ?thesis by (simp add: sorted_wrt_append)
  qed simp
qed

definition last_of :: "('a \<Rightarrow> 'b) \<Rightarrow> 'a list \<Rightarrow> 'b option" where
  "last_of f xs = (if xs = [] then None else Some (f (last xs)))"

lemma cues_ok_snoc:
  assumes "cues_ok durations prev"
  shows "cues_ok durations (prev @ [c]) \<longleftrightarrow>
    check_text i (set (map target prev)) c = Inr () \<and> check_clip durations i c = Inr ()
    \<and> check_order i (last_of cue_text prev) (last_of cue_audio prev) c = Inr ()"
proof -
  have clips: "begin_ms (cue_audio p) < end_ms (cue_audio p)" if "p \<in> set prev" for p
    using assms that by (auto simp: cues_ok_def cue_ok_def)
  have t: "sorted_wrt text_before (prev @ [c]) \<longleftrightarrow> prev = [] \<or> text_before (last prev) c"
    using assms by (intro sorted_wrt_snoc_last) (auto simp: cues_ok_def text_before_def)
  have a: "sorted_wrt clip_before (prev @ [c]) \<longleftrightarrow> prev = [] \<or> clip_before (last prev) c"
    using assms clips
    by (intro sorted_wrt_snoc_last)
      (auto simp: cues_ok_def elim!: clip_before_trans intro!: clips last_in_set)
  have o: "check_order i (last_of cue_text prev) (last_of cue_audio prev) c = Inr () \<longleftrightarrow>
      prev = [] \<or> text_before (last prev) c \<and> clip_before (last prev) c"
    using check_order_iff [OF clips, of "last prev" i c]
    by (auto simp: last_of_def check_order_def)
  have "cues_ok durations (prev @ [c]) \<longleftrightarrow>
      cue_ok durations c \<and> target c \<notin> set (map target prev)
      \<and> sorted_wrt text_before (prev @ [c]) \<and> sorted_wrt clip_before (prev @ [c])"
    using assms by (auto simp: cues_ok_def sorted_wrt_append)
  then show ?thesis
    unfolding t a o check_text_iff check_clip_iff by (auto simp: cue_ok_def)
qed

lemma check_cues_correct:
  assumes "cues_ok durations prev"
  shows "case check_cues durations (length prev) (set (map target prev)) (last_of cue_text prev)
        (last_of cue_audio prev) cs of
      Inr _ \<Rightarrow> cues_ok durations (prev @ cs)
    | Inl e \<Rightarrow> \<exists>k. err_cue e = Some k \<and> k < length (prev @ cs)
        \<and> cues_ok durations (take k (prev @ cs))
        \<and> \<not> cues_ok durations (take (Suc k) (prev @ cs))"
  using assms
proof (induction cs arbitrary: prev)
  case (Cons c cs)
  let ?i = "length prev"
  note snoc = cues_ok_snoc [OF Cons.prems, of c ?i]
  show ?case
  proof (cases "cues_ok durations (prev @ [c])")
    case True
    have l: "last_of f (prev @ [c]) = Some (f c)" for f :: "sync_cue \<Rightarrow> 'b"
      by (simp add: last_of_def)
    from True snoc Cons.IH [OF True] show ?thesis
      by (simp add: last_of_def insert_commute split: sum.splits)
  next
    case False
    define r where "r = check_cues durations ?i (set (map target prev)) (last_of cue_text prev)
      (last_of cue_audio prev) (c # cs)"
    from False snoc obtain e where e: "r = Inl e" "err_cue e = Some ?i"
      unfolding r_def
      by (cases "check_text ?i (set (map target prev)) c"; cases "check_clip durations ?i c";
          cases "check_order ?i (last_of cue_text prev) (last_of cue_audio prev) c")
        (auto dest: check_errors)
    moreover have "take (Suc ?i) (prev @ c # cs) = prev @ [c]" "take ?i (prev @ c # cs) = prev"
      by simp_all
    ultimately show ?thesis using False Cons.prems unfolding r_def [symmetric] by auto
  qed
qed simp

lemma cues_ok_append: "cues_ok durations (xs @ ys) \<Longrightarrow> cues_ok durations xs"
  by (auto simp: cues_ok_def sorted_wrt_append)

lemma check_cues_start:
  "case check_cues durations 0 {} None None cs of
      Inr _ \<Rightarrow> cues_ok durations cs
    | Inl e \<Rightarrow> \<exists>k. err_cue e = Some k \<and> k < length cs \<and> cues_ok durations (take k cs)
        \<and> \<not> cues_ok durations (take (Suc k) cs)"
proof -
  have "cues_ok durations []" by (simp add: cues_ok_def)
  from check_cues_correct [OF this, of cs] show ?thesis
    by (cases "check_cues durations 0 {} None None cs") (simp_all add: last_of_def)
qed

lemma check_cues_iff: "check_cues durations 0 {} None None cs = Inr () \<longleftrightarrow> cues_ok durations cs"
  using check_cues_start [where durations = durations and cs = cs]
    cues_ok_append [where durations = durations]
  by (cases "check_cues durations 0 {} None None cs") (auto, metis append_take_drop_id)

lemma validate_ok_iff: "validate m durations = Inr () \<longleftrightarrow> sync_map_ok m durations"
  using check_fields_iff [of "required_fields m"] check_durations_iff [of durations]
    check_cues_iff [where durations = durations and cs = "cues m"]
  by (cases "check_fields (required_fields m)"; cases "check_durations durations")
    (auto simp: validate_def sync_map_ok_def is_lowercase_sha256_iff SYNC_MAP_SCHEMA_VERSION_def)

section \<open>Properties of the validator\<close>

text \<open>
  C22. A SyncMap is accepted exactly when its schema and digests are well formed, its
  required names are not blank, every duration is positive, it has cues, every cue is
  well formed and ends within its track, no two cues share a text target, and any two
  cues, not only neighbours, are in text order and do not overlap in audio.
\<close>

theorem validate_iff: "validate m durations = Inr () \<longleftrightarrow> sync_map_ok m durations"
  by (rule validate_ok_iff)

text \<open>
  When validation fails at a cue, the reported index is the first offending cue: all
  cues before it would be accepted, and with it they are not.
\<close>

theorem validate_first_offender:
  assumes "validate m durations = Inl e" "err_cue e = Some k"
  shows "k < length (cues m) \<and> cues_ok durations (take k (cues m))
    \<and> \<not> cues_ok durations (take (Suc k) (cues m))"
proof -
  have "check_fields fs \<noteq> Inl e" for fs
    using assms(2) by (induction fs rule: check_fields.induct) auto
  moreover have "check_durations ds \<noteq> Inl e" for ds
    using assms(2) by (induction ds rule: check_durations.induct) auto
  ultimately have "check_cues durations 0 {} None None (cues m) = Inl e"
    using assms
    by (cases "check_fields (required_fields m)"; cases "check_durations durations")
      (auto simp: validate_def split: if_splits)
  with check_cues_start [where durations = durations and cs = "cues m"] assms(2)
  show ?thesis by auto
qed

text \<open>
  A SyncMap is accepted for an alignment request exactly when it is valid and agrees
  with the request on both media, both digests, the algorithm, model and revision, the
  language, granularity, provider, precision and options.
\<close>

theorem validate_for_iff:
  "validate_for m inp durations = Inr () \<longleftrightarrow>
     sync_map_ok m durations
     \<and> (text_media_id m, audio_media_id m) = (in_text_media_id inp, in_audio_media_id inp)
     \<and> (let p = provenance m in
          (text_digest p, audio_manifest_digest p, algorithm p, model p, model_revision p,
           language p, granularity p, execution_provider p, precision p, options p) =
          (in_text_digest inp, in_audio_manifest_digest inp, in_algorithm inp, in_model inp,
           in_model_revision inp, in_language inp, in_granularity inp,
           in_execution_provider inp, in_precision inp, in_options inp))"
  using validate_ok_iff [of m durations] check_identity_iff [of "identity_fields m inp"]
  by (cases "validate m durations") (auto simp: validate_for_def identity_fields_def Let_def)

section \<open>A concrete map\<close>

definition example_cue :: "int \<Rightarrow> int \<Rightarrow> sync_cue" where
  "example_cue n t =
     \<lparr>cue_text = \<lparr>spine_index = 0, ordinal = n, element_id = [nat n + 97]\<rparr>,
      cue_audio = \<lparr>track_index = 0, begin_ms = t, end_ms = t + 100\<rparr>, confidence = None\<rparr>"

definition example_map :: sync_map_v1 where
  "example_map =
     \<lparr>schema = 1, text_media_id = [97], audio_media_id = [97],
      provenance = \<lparr>text_digest = replicate 64 97, audio_manifest_digest = replicate 64 48,
        implementation = [97], prov_version = [97], algorithm = [97], model = [97],
        model_revision = [97], language = [97], granularity = Word,
        execution_provider = Cpu, precision = Fp32, options = []\<rparr>,
      cues = [example_cue 0 0, example_cue 1 50]\<rparr>"

lemma example_overlap: "validate example_map [(0, 1000)] = Inl (SameTrackOverlap 1 0)"
proof -
  have "is_lowercase_sha256 (replicate 64 97)" "is_lowercase_sha256 (replicate 64 48)"
    by (auto simp: is_lowercase_sha256_iff is_hex_digest_def)
  moreover have "trim [97] \<noteq> []" by (simp add: trim_def drop_end_while_def is_whitespace_def)
  ultimately show ?thesis
    by (simp add: validate_def example_map_def example_cue_def required_fields_def
        SYNC_MAP_SCHEMA_VERSION_def check_text_def check_clip_def check_order_def Let_def
        target_def position_def)
qed

theorem validate_first_offender_witness:
  "cues_ok [(0, 1000)] (take 1 (cues example_map))
   \<and> \<not> cues_ok [(0, 1000)] (take 2 (cues example_map))"
  using validate_first_offender [OF example_overlap, of 1] by (simp add: numeral_2_eq_2)

end
