(* ===== verification/Job_Queue.thy ===== *)
theory Job_Queue
  imports Prelude "HOL-Library.Multiset"
begin

text \<open>
  \<^verbatim>\<open>crates/jobs/src/queue.rs\<close>: the counters of queued and running jobs by kind. A
  \<open>BTreeMap\<close> of counts is an association list with distinct keys. Counts are \<open>i32\<close>: the
  counters saturate, the sums of a snapshot wrap.
\<close>

section \<open>Counters\<close>

type_synonym counts = "(string \<times> int) list"

record job_queue_status =
  count_of :: int
  count_by_type :: counts

record job_queue_counts =
  queued :: counts
  running :: counts

definition entry_or_zero :: "counts \<Rightarrow> string \<Rightarrow> int" where
  "entry_or_zero m k = (case map_of m k of None \<Rightarrow> 0 | Some c \<Rightarrow> c)"

definition add_entry :: "counts \<Rightarrow> string \<times> int \<Rightarrow> counts" where
  "add_entry m e =
     (if snd e > 0 then AList.update (fst e) (i32_wrap (entry_or_zero m (fst e) + snd e)) m else m)"

definition counts_snapshot :: "job_queue_counts \<Rightarrow> job_queue_status" where
  "counts_snapshot c =
     (let by_type = foldl add_entry (foldl add_entry [] (queued c)) (running c)
      in \<lparr>count_of = foldl (\<lambda>a b. i32_wrap (a + b)) 0 (map snd by_type),
          count_by_type = by_type\<rparr>)"

definition increment :: "counts \<Rightarrow> string \<Rightarrow> counts" where
  "increment m k = AList.update k (saturating_add (entry_or_zero m k) 1) m"

definition decrement :: "counts \<Rightarrow> string \<Rightarrow> counts" where
  "decrement m k =
     (case map_of m k of
        None \<Rightarrow> m
      | Some c \<Rightarrow>
          let c' = saturating_sub c 1
          in if c' = 0 then AList.delete k m else AList.update k c' m)"

definition queue_default :: job_queue_counts where
  "queue_default = \<lparr>queued = [], running = []\<rparr>"

definition enqueued :: "string \<Rightarrow> job_queue_counts \<Rightarrow> job_queue_counts" where
  "enqueued k c = c\<lparr>queued := increment (queued c) k\<rparr>"

definition enqueue_failed :: "string \<Rightarrow> job_queue_counts \<Rightarrow> job_queue_counts" where
  "enqueue_failed k c = c\<lparr>queued := decrement (queued c) k\<rparr>"

definition started :: "string \<Rightarrow> job_queue_counts \<Rightarrow> job_queue_counts" where
  "started k c = c\<lparr>queued := decrement (queued c) k, running := increment (running c) k\<rparr>"

definition finished :: "string \<Rightarrow> job_queue_counts \<Rightarrow> job_queue_counts" where
  "finished k c = c\<lparr>running := decrement (running c) k\<rparr>"

section \<open>Invariant\<close>

definition counts_ok :: "counts \<Rightarrow> bool" where
  "counts_ok m \<longleftrightarrow> distinct (map fst m) \<and> (\<forall>c \<in> snd ` set m. 0 < c \<and> c \<le> I32_MAX)"

lemma entry_range: "counts_ok m \<Longrightarrow> 0 \<le> entry_or_zero m k \<and> entry_or_zero m k \<le> I32_MAX"
  by (force simp: counts_ok_def entry_or_zero_def I32_MAX_def split: option.splits
      dest: map_of_SomeD)

lemma entry_zero: "counts_ok m \<Longrightarrow> map_of m k = None \<longleftrightarrow> entry_or_zero m k = 0"
  by (force simp: counts_ok_def entry_or_zero_def split: option.splits dest: map_of_SomeD)

lemma entry_update [simp]: "entry_or_zero (AList.update k v m) j = (if j = k then v else entry_or_zero m j)"
  by (simp add: entry_or_zero_def update_conv')

lemma entry_delete [simp]: "entry_or_zero (AList.delete k m) j = (if j = k then 0 else entry_or_zero m j)"
  by (simp add: entry_or_zero_def delete_conv')

lemma counts_ok_update:
  "counts_ok m \<Longrightarrow> 0 < v \<Longrightarrow> v \<le> I32_MAX \<Longrightarrow> counts_ok (AList.update k v m)"
  by (auto simp: counts_ok_def distinct_update dest!: set_alist_update)

lemma counts_ok_delete: "counts_ok m \<Longrightarrow> counts_ok (AList.delete k m)"
  by (auto simp: counts_ok_def distinct_delete) (auto simp: AList.delete_eq)

lemma counts_ok_increment: "counts_ok m \<Longrightarrow> counts_ok (increment m k)"
  using entry_range [of m k]
  by (auto simp: increment_def saturating_add_def I32_MAX_def I32_MIN_def
      intro!: counts_ok_update)

lemma counts_ok_decrement: "counts_ok m \<Longrightarrow> counts_ok (decrement m k)"
  by (auto simp: decrement_def Let_def saturating_sub_def I32_MIN_def I32_MAX_def
      split: option.splits intro!: counts_ok_update counts_ok_delete)
    (force simp: counts_ok_def I32_MAX_def dest: map_of_SomeD)+

lemma entry_increment:
  "counts_ok m \<Longrightarrow> entry_or_zero m k < I32_MAX \<Longrightarrow>
     entry_or_zero (increment m k) j = entry_or_zero m j + (if j = k then 1 else 0)"
  using entry_range [of m k]
  by (simp add: increment_def saturating_add_def I32_MIN_def)

lemma entry_decrement:
  assumes "counts_ok m"
  shows "entry_or_zero (decrement m k) j =
    (if j = k then max 0 (entry_or_zero m k - 1) else entry_or_zero m j)"
proof (cases "map_of m k")
  case None
  then show ?thesis by (simp add: decrement_def entry_or_zero_def)
next
  case (Some c)
  then have "entry_or_zero m k = c" by (simp add: entry_or_zero_def)
  with entry_range [OF assms, of k] entry_zero [OF assms, of k] Some show ?thesis
    by (auto simp: decrement_def Let_def saturating_sub_def I32_MIN_def I32_MAX_def)
qed

section \<open>Snapshots\<close>

definition total_of :: "counts \<Rightarrow> int" where
  "total_of m = sum_list (map snd m)"

lemma total_nonneg: "counts_ok m \<Longrightarrow> 0 \<le> total_of m"
  unfolding total_of_def counts_ok_def by (intro sum_list_nonneg) force

lemma entry_le_total: "counts_ok m \<Longrightarrow> entry_or_zero m k \<le> total_of m"
proof (induction m)
  case (Cons e m)
  then have m: "counts_ok m" "0 < snd e" "fst e \<notin> fst ` set m" by (auto simp: counts_ok_def)
  with Cons total_nonneg [OF m(1)] show ?case
    by (cases e) (auto simp: entry_or_zero_def total_of_def split: option.splits)
qed (simp add: entry_or_zero_def total_of_def)

lemma total_update:
  "distinct (map fst m) \<Longrightarrow> total_of (AList.update k v m) = total_of m - entry_or_zero m k + v"
proof (induction m)
  case (Cons e m)
  show ?case
  proof (cases "fst e = k")
    case True
    with Cons.prems have "map_of m k = None" by (auto simp: map_of_eq_None_iff)
    with True show ?thesis by (cases e) (simp add: total_of_def entry_or_zero_def)
  next
    case False
    with Cons show ?thesis by (cases e) (simp add: total_of_def entry_or_zero_def)
  qed
qed (simp add: total_of_def entry_or_zero_def)

lemma add_entries:
  assumes "counts_ok m" "counts_ok es" "total_of m + total_of es \<le> I32_MAX"
  shows "counts_ok (foldl add_entry m es)
    \<and> total_of (foldl add_entry m es) = total_of m + total_of es
    \<and> entry_or_zero (foldl add_entry m es) k = entry_or_zero m k + entry_or_zero es k"
  using assms
proof (induction es arbitrary: m)
  case (Cons e es)
  obtain j c where e: "e = (j, c)" by fastforce
  from Cons.prems(2) have es: "counts_ok es" "0 < c" "c \<le> I32_MAX" "map_of es j = None"
    by (auto simp: counts_ok_def e map_of_eq_None_iff)
  let ?v = "entry_or_zero m j + c"
  have t: "total_of (e # es) = c + total_of es" by (simp add: total_of_def e)
  have v: "0 < ?v" "?v \<le> I32_MAX"
    using Cons.prems(3) es(2) t entry_range [OF Cons.prems(1), of j] total_nonneg [OF es(1)]
      entry_le_total [OF Cons.prems(1), of j] by linarith+
  then have step: "add_entry m e = AList.update j ?v m"
    using es(2) by (simp add: add_entry_def e i32_wrap_id I32_MIN_def)
  have ok: "counts_ok (AList.update j ?v m)" using Cons.prems(1) v by (rule counts_ok_update)
  have tu: "total_of (AList.update j ?v m) = total_of m + c"
    using Cons.prems(1) by (simp add: total_update counts_ok_def)
  have "entry_or_zero (e # es) k = (if k = j then c else entry_or_zero es k)"
    "entry_or_zero es j = 0"
    using es(4) by (auto simp: entry_or_zero_def e)
  with Cons.IH [OF ok es(1)] Cons.prems(3) t tu step show ?case by auto
qed (simp add: total_of_def entry_or_zero_def)

lemma foldl_sum:
  "0 \<le> a \<Longrightarrow> \<forall>x \<in> set xs. 0 \<le> x \<Longrightarrow> a + sum_list xs \<le> I32_MAX \<Longrightarrow>
     foldl (\<lambda>a b. i32_wrap (a + b)) a xs = a + sum_list xs"
proof (induction xs arbitrary: a)
  case (Cons x xs)
  then have "0 \<le> sum_list xs" by (intro sum_list_nonneg) auto
  with Cons show ?case by (simp add: i32_wrap_id I32_MIN_def)
qed simp

lemma snapshot_correct:
  assumes "counts_ok (queued c)" "counts_ok (running c)"
    "total_of (queued c) + total_of (running c) \<le> I32_MAX"
  shows "count_of (counts_snapshot c) = total_of (queued c) + total_of (running c)"
    and "counts_ok (count_by_type (counts_snapshot c))"
    and "entry_or_zero (count_by_type (counts_snapshot c)) k =
      entry_or_zero (queued c) k + entry_or_zero (running c) k"
proof -
  have nil: "counts_ok []" "total_of [] = 0" "entry_or_zero [] k = 0"
    by (simp_all add: counts_ok_def total_of_def entry_or_zero_def)
  let ?q = "foldl add_entry [] (queued c)"
  have q: "counts_ok ?q" "total_of ?q = total_of (queued c)" "entry_or_zero ?q k = entry_or_zero (queued c) k"
    using add_entries [OF nil(1) assms(1), of k] assms(3) total_nonneg [OF assms(2)] nil by auto
  let ?r = "foldl add_entry ?q (running c)"
  have r: "counts_ok ?r" "total_of ?r = total_of (queued c) + total_of (running c)"
    "entry_or_zero ?r k = entry_or_zero (queued c) k + entry_or_zero (running c) k"
    using add_entries [OF q(1) assms(2), of k] assms(3) q by auto
  have "\<forall>x \<in> set (map snd ?r). 0 \<le> x" using r(1) by (auto simp: counts_ok_def order_less_imp_le)
  with foldl_sum [of 0 "map snd ?r"] r assms(3)
  show "count_of (counts_snapshot c) = total_of (queued c) + total_of (running c)"
    by (simp add: counts_snapshot_def total_of_def Let_def)
  show "counts_ok (count_by_type (counts_snapshot c))"
    "entry_or_zero (count_by_type (counts_snapshot c)) k =
      entry_or_zero (queued c) k + entry_or_zero (running c) k"
    using r by (simp_all add: counts_snapshot_def Let_def)
qed

section \<open>Counters refine multisets of jobs\<close>

text \<open>
  What the runtime relies on: as long as no counter is full, an operation on the
  counters moves one job of the kind between the jobs that are queued and those that run.
\<close>

locale job_counters =
  fixes ok :: "'s \<Rightarrow> bool"
    and queued_of running_of :: "'s \<Rightarrow> 'k \<Rightarrow> int"
    and room :: int
    and enqueued_op failed_op started_op finished_op :: "'k \<Rightarrow> 's \<Rightarrow> 's"
  assumes enqueued_law: "ok s \<Longrightarrow> queued_of s k < room \<Longrightarrow>
      ok (enqueued_op k s) \<and> queued_of (enqueued_op k s) = (queued_of s)(k := queued_of s k + 1)
      \<and> running_of (enqueued_op k s) = running_of s"
    and failed_law: "ok s \<Longrightarrow> 0 < queued_of s k \<Longrightarrow>
      ok (failed_op k s) \<and> queued_of (failed_op k s) = (queued_of s)(k := queued_of s k - 1)
      \<and> running_of (failed_op k s) = running_of s"
    and started_law: "ok s \<Longrightarrow> 0 < queued_of s k \<Longrightarrow> running_of s k < room \<Longrightarrow>
      ok (started_op k s) \<and> queued_of (started_op k s) = (queued_of s)(k := queued_of s k - 1)
      \<and> running_of (started_op k s) = (running_of s)(k := running_of s k + 1)"
    and finished_law: "ok s \<Longrightarrow> 0 < running_of s k \<Longrightarrow>
      ok (finished_op k s) \<and> queued_of (finished_op k s) = queued_of s
      \<and> running_of (finished_op k s) = (running_of s)(k := running_of s k - 1)"
begin

definition tracks :: "'s \<Rightarrow> 'k multiset \<Rightarrow> 'k multiset \<Rightarrow> bool" where
  "tracks s Q R \<longleftrightarrow>
     ok s \<and> queued_of s = (\<lambda>k. int (count Q k)) \<and> running_of s = (\<lambda>k. int (count R k))"

lemma tracks_enqueued:
  "tracks s Q R \<Longrightarrow> int (size Q) < room \<Longrightarrow> tracks (enqueued_op k s) (add_mset k Q) R"
  using enqueued_law [of s k] count_le_size [of Q k] by (auto simp: tracks_def fun_eq_iff)

lemma tracks_failed:
  "tracks s Q R \<Longrightarrow> k \<in># Q \<Longrightarrow> tracks (failed_op k s) (Q - {#k#}) R"
  using failed_law [of s k] by (auto simp: tracks_def fun_eq_iff)

lemma tracks_started:
  "tracks s Q R \<Longrightarrow> k \<in># Q \<Longrightarrow> int (size R) < room \<Longrightarrow>
     tracks (started_op k s) (Q - {#k#}) (add_mset k R)"
  using started_law [of s k] count_le_size [of R k] by (auto simp: tracks_def fun_eq_iff)

lemma tracks_finished:
  "tracks s Q R \<Longrightarrow> k \<in># R \<Longrightarrow> tracks (finished_op k s) Q (R - {#k#})"
  using finished_law [of s k] by (auto simp: tracks_def fun_eq_iff)

end

definition queue_ok :: "job_queue_counts \<Rightarrow> bool" where
  "queue_ok c \<longleftrightarrow> counts_ok (queued c) \<and> counts_ok (running c)"

definition queued_count :: "job_queue_counts \<Rightarrow> string \<Rightarrow> int" where
  "queued_count c k = entry_or_zero (queued c) k"

definition running_count :: "job_queue_counts \<Rightarrow> string \<Rightarrow> int" where
  "running_count c k = entry_or_zero (running c) k"

interpretation jq: job_counters queue_ok queued_count running_count I32_MAX
  enqueued enqueue_failed started finished
  by unfold_locales
    (auto simp: queue_ok_def queued_count_def running_count_def enqueued_def enqueue_failed_def
      started_def finished_def fun_eq_iff counts_ok_increment counts_ok_decrement
      entry_increment entry_decrement)

text \<open>What the jobs do, and the jobs that are queued and running after it.\<close>

datatype queue_op = Enqueued string | EnqueueFailed string | StartedOp string | FinishedOp string

fun queue_apply :: "queue_op \<Rightarrow> job_queue_counts \<Rightarrow> job_queue_counts" where
  "queue_apply (Enqueued k) c = enqueued k c"
| "queue_apply (EnqueueFailed k) c = enqueue_failed k c"
| "queue_apply (StartedOp k) c = started k c"
| "queue_apply (FinishedOp k) c = finished k c"

inductive jobs_after :: "queue_op list \<Rightarrow> string multiset \<Rightarrow> string multiset \<Rightarrow> bool" where
  nothing: "jobs_after [] {#} {#}"
| enqueue: "jobs_after ops Q R \<Longrightarrow> jobs_after (ops @ [Enqueued k]) (add_mset k Q) R"
| fail: "jobs_after ops Q R \<Longrightarrow> k \<in># Q \<Longrightarrow> jobs_after (ops @ [EnqueueFailed k]) (Q - {#k#}) R"
| start: "jobs_after ops Q R \<Longrightarrow> k \<in># Q \<Longrightarrow>
    jobs_after (ops @ [StartedOp k]) (Q - {#k#}) (add_mset k R)"
| finish: "jobs_after ops Q R \<Longrightarrow> k \<in># R \<Longrightarrow> jobs_after (ops @ [FinishedOp k]) Q (R - {#k#})"

lemma jobs_after_size: "jobs_after ops Q R \<Longrightarrow> size Q + size R \<le> length ops"
  by (induction rule: jobs_after.induct) (auto simp: size_Diff_singleton)

lemma jobs_after_tracks:
  "jobs_after ops Q R \<Longrightarrow> int (length ops) \<le> I32_MAX \<Longrightarrow>
     jq.tracks (fold queue_apply ops queue_default) Q R"
proof (induction rule: jobs_after.induct)
  case nothing
  then show ?case
    unfolding jq.tracks_def
    by (simp add: queue_default_def queue_ok_def counts_ok_def fun_eq_iff
        queued_count_def running_count_def entry_or_zero_def)
next
  case (enqueue ops Q R k)
  with jobs_after_size [OF enqueue(1)] show ?case by (auto intro: jq.tracks_enqueued)
next
  case (fail ops Q R k)
  then show ?case by (auto intro: jq.tracks_failed)
next
  case (start ops Q R k)
  with jobs_after_size [OF start(1)] show ?case by (auto intro: jq.tracks_started)
next
  case (finish ops Q R k)
  then show ?case by (auto intro: jq.tracks_finished)
qed

lemma total_of_count:
  assumes "counts_ok m" "entry_or_zero m = (\<lambda>k. int (count M k))"
  shows "total_of m = int (size M)"
  using assms
proof (induction m arbitrary: M)
  case Nil
  then have "M = {#}" by (auto simp: entry_or_zero_def fun_eq_iff intro: multiset_eqI)
  then show ?case by (simp add: total_of_def)
next
  case (Cons e m)
  obtain k c where e: "e = (k, c)" by fastforce
  let ?M = "filter_mset (\<lambda>j. j \<noteq> k) M"
  have m: "counts_ok m" "map_of m k = None" "0 < c"
    using Cons.prems(1) by (auto simp: counts_ok_def e map_of_eq_None_iff)
  have "entry_or_zero m j = int (count ?M j)" for j
    using fun_cong [OF Cons.prems(2), of j] m(2) by (auto simp: entry_or_zero_def e)
  then have "total_of m = int (size ?M)" using Cons.IH [OF m(1)] by blast
  moreover have "int (count M k) = c"
    using fun_cong [OF Cons.prems(2), of k] by (simp add: entry_or_zero_def e)
  moreover have "M = ?M + replicate_mset (count M k) k" by (rule multiset_eqI) simp
  ultimately show ?case
    by (metis add.commute e list.simps(9) of_nat_add size_replicate_mset size_union snd_conv
        sum_list.Cons total_of_def)
qed

section \<open>Properties of the counters\<close>

text \<open>
  After any history in which jobs are enqueued, fail to enqueue, start and finish, the
  published snapshot is exact: its total is the number of jobs that are queued or running,
  every kind is listed with the number of its jobs, and kinds without a job are absent.
\<close>

theorem queue_status_exact:
  assumes "jobs_after ops Q R" "int (length ops) \<le> I32_MAX"
  defines "st \<equiv> counts_snapshot (fold queue_apply ops queue_default)"
  shows "count_of st = int (size (Q + R))
    \<and> map_of (count_by_type st) k =
        (if k \<in># Q + R then Some (int (count (Q + R) k)) else None)"
proof -
  let ?c = "fold queue_apply ops queue_default"
  have t: "jq.tracks ?c Q R" using assms(1,2) by (rule jobs_after_tracks)
  then have ok: "counts_ok (queued ?c)" "counts_ok (running ?c)"
    and q: "entry_or_zero (queued ?c) = (\<lambda>k. int (count Q k))"
    and r: "entry_or_zero (running ?c) = (\<lambda>k. int (count R k))"
    unfolding jq.tracks_def
    by (auto simp: queue_ok_def fun_eq_iff queued_count_def running_count_def)
  have sum: "total_of (queued ?c) + total_of (running ?c) = int (size (Q + R))"
    by (simp add: total_of_count [OF ok(1) q] total_of_count [OF ok(2) r])
  then have "total_of (queued ?c) + total_of (running ?c) \<le> I32_MAX"
    using jobs_after_size [OF assms(1)] assms(2) by simp
  note snap = snapshot_correct [OF ok this, folded st_def]
  have "entry_or_zero (count_by_type st) k = int (count (Q + R) k)"
    using snap(3) [of k] by (simp add: q r)
  with snap(1) sum entry_zero [OF snap(2), of k] show ?thesis
    by (auto simp: entry_or_zero_def not_in_iff split: option.splits)
qed

theorem queue_status_exact_witness:
  "count_of (counts_snapshot (fold queue_apply [Enqueued ''SCAN'', Enqueued ''SCAN'', StartedOp ''SCAN'']
     queue_default)) = 2"
proof -
  let ?ops = "[Enqueued ''SCAN'', Enqueued ''SCAN'', StartedOp ''SCAN'']"
  have "jobs_after ([] @ [Enqueued ''SCAN'']) {#''SCAN''#} {#}"
    by (intro jobs_after.intros)
  from jobs_after.start [OF jobs_after.enqueue [OF this, of "''SCAN''"], of "''SCAN''"]
  have "jobs_after ?ops {#''SCAN''#} {#''SCAN''#}" by simp
  from queue_status_exact [OF this] show ?thesis by (simp add: I32_MAX_def)
qed

end
