(* ===== verification/Job_Runtime.thy ===== *)
theory Job_Runtime
  imports Job_Queue
begin

text \<open>
  \<^verbatim>\<open>crates/jobs/src/worker.rs\<close>, \<^verbatim>\<open>lifecycle.rs\<close>, \<^verbatim>\<open>context.rs\<close>, \<^verbatim>\<open>progress.rs\<close> and the
  inline executor: enqueueing, the context of one running job, the lifecycle every job
  runs through, and the executor that drains the queue. The host's services and the job's
  own methods are traits: they are the function fields of \<open>job_services\<close> and
  \<open>job_lifecycle\<close>, over a world of type \<open>'w\<close>. What the cancellation token reads at the
  n-th check is an argument, because anybody may cancel at any time.
\<close>

section \<open>Values\<close>

datatype job_status = Running | Paused | Completed | Cancelled | Failed | Queued

definition is_resolved :: "job_status \<Rightarrow> bool" where
  "is_resolved st \<longleftrightarrow> st \<in> {Completed, Cancelled, Failed}"

definition is_pending :: "job_status \<Rightarrow> bool" where
  "is_pending st \<longleftrightarrow> st \<in> {Running, Paused, Queued}"

datatype job_error = InitFailed string | TaskFailed string | DbError string | Unknown string

fun job_error_display :: "job_error \<Rightarrow> string" where
  "job_error_display (InitFailed m) = ''Job failed while initializing: '' @ m"
| "job_error_display (TaskFailed m) =
     ''A task experienced a critical error while executing: '' @ m"
| "job_error_display (DbError m) = ''A query error occurred: '' @ m"
| "job_error_display (Unknown m) = ''An unknown error occurred: '' @ m"

record job_progress =
  p_status :: "job_status option"
  p_message :: "string option"
  p_subtitle :: "string option"
  p_completed_tasks :: "int option"
  p_remaining_tasks :: "int option"
  p_completed_subtasks :: "int option"
  p_total_subtasks :: "int option"

definition progress_default :: job_progress where
  "progress_default =
     \<lparr>p_status = None, p_message = None, p_subtitle = None, p_completed_tasks = None,
      p_remaining_tasks = None, p_completed_subtasks = None, p_total_subtasks = None\<rparr>"

definition status_msg :: "job_status \<Rightarrow> string \<Rightarrow> job_progress" where
  "status_msg st m = progress_default\<lparr>p_status := Some st, p_message := Some m\<rparr>"

definition progress_finished :: job_progress where
  "progress_finished = status_msg Completed ''Job finished''"

definition task_position :: "int \<Rightarrow> int \<Rightarrow> job_progress" where
  "task_position index n =
     progress_default\<lparr>p_completed_tasks := Some index, p_remaining_tasks := Some n\<rparr>"

datatype log_level = LError | LWarn | LInfo | LDebug

record job_execute_log =
  log_msg :: string
  log_context :: "string option"
  log_level :: log_level
  log_timestamp :: int

record job_outcome =
  oc_status :: job_status
  oc_elapsed :: nat
  oc_output :: "nat list option"
  oc_logs :: "job_execute_log list"

datatype 'out job_event =
    Started string
  | ProgressEvent string job_progress
  | OutputEvent string 'out
  | QueueStatusEvent job_queue_status

record job_payload =
  payload_name :: string
  payload_kind :: string

section \<open>Traits\<close>

record 'w job_services =
  persist_started :: "string \<Rightarrow> job_payload \<Rightarrow> 'w \<Rightarrow> 'w \<times> (job_error, unit) result"
  persist_finished :: "string \<Rightarrow> job_outcome \<Rightarrow> 'w \<Rightarrow> 'w \<times> (job_error, unit) result"

record ('out, 'task) working_state =
  ws_output :: "'out option"
  ws_tasks :: "'task list"
  ws_logs :: "job_execute_log list"

record ('out, 'task) job_task_output =
  to_output :: 'out
  to_subtasks :: "'task list"
  to_logs :: "job_execute_log list"

record ('w, 'out, 'task) job_lifecycle =
  init_job :: "'w \<Rightarrow> 'w \<times> job_payload list \<times> (job_error, ('out, 'task) working_state) result"
  execute_task :: "'task \<Rightarrow> 'w
    \<Rightarrow> 'w \<times> job_payload list \<times> (job_error, ('out, 'task) job_task_output) result"
  finalize :: "'out \<Rightarrow> 'w \<Rightarrow> 'w \<times> job_payload list \<times> (job_error, unit) result"
  output_default :: 'out
  output_update :: "'out \<Rightarrow> 'out \<Rightarrow> 'out"
  output_to_vec :: "'out \<Rightarrow> nat list option"

section \<open>The worker state\<close>

text \<open>\<open>settled\<close> records the calls of \<open>persist_finished\<close>; nothing reads it.\<close>

record ('w, 'out) worker_state =
  world :: 'w
  channel :: "job_payload list"
  channel_open :: bool
  cancellation_tokens :: "(string \<times> bool) list"
  queue :: job_queue_counts
  emitted :: "'out job_event list"
  settled :: "(string \<times> job_status) list"

record job_context =
  ctx_job_id :: string
  ctx_kind :: string
  queue_finished :: bool

definition emit :: "'out job_event \<Rightarrow> ('w, 'out) worker_state \<Rightarrow> ('w, 'out) worker_state" where
  "emit e s = s\<lparr>emitted := emitted s @ [e]\<rparr>"

definition count_change ::
  "(job_queue_counts \<Rightarrow> job_queue_counts) \<Rightarrow> ('w, 'out) worker_state \<Rightarrow> ('w, 'out) worker_state" where
  "count_change f s =
     emit (QueueStatusEvent (counts_snapshot (f (queue s)))) (s\<lparr>queue := f (queue s)\<rparr>)"

definition enqueue ::
  "job_payload \<Rightarrow> ('w, 'out) worker_state \<Rightarrow> ('w, 'out) worker_state \<times> (job_error, unit) result" where
  "enqueue job s =
     (let s = count_change (enqueued (payload_kind job)) s
      in if channel_open s
         then (s\<lparr>channel := channel s @ [job]\<rparr>, Inr ())
         else (count_change (enqueue_failed (payload_kind job)) s,
               Inl (Unknown ''The job executor has stopped'')))"

definition cancel_job :: "string \<Rightarrow> ('w, 'out) worker_state \<Rightarrow> ('w, 'out) worker_state \<times> bool" where
  "cancel_job jid s =
     (case map_of (cancellation_tokens s) jid of
        Some _ \<Rightarrow>
          (s\<lparr>cancellation_tokens := AList.update jid True (cancellation_tokens s)\<rparr>, True)
      | None \<Rightarrow> (s, False))"

definition cancel_all :: "('w, 'out) worker_state \<Rightarrow> ('w, 'out) worker_state" where
  "cancel_all s =
     s\<lparr>cancellation_tokens := map (\<lambda>(jid, _). (jid, True)) (cancellation_tokens s)\<rparr>"

definition open_context ::
  "'w job_services \<Rightarrow> string \<Rightarrow> job_payload \<Rightarrow> ('w, 'out) worker_state
     \<Rightarrow> ('w, 'out) worker_state \<times> (job_error, job_context) result" where
  "open_context sv jid job s =
     (case persist_started sv jid job (world s) of
        (w, Inl e) \<Rightarrow> (s\<lparr>world := w\<rparr>, Inl e)
      | (w, Inr _) \<Rightarrow>
          (count_change (started (payload_kind job))
             (s\<lparr>world := w,
                cancellation_tokens := AList.update jid False (cancellation_tokens s)\<rparr>),
           Inr \<lparr>ctx_job_id = jid, ctx_kind = payload_kind job, queue_finished = False\<rparr>))"

definition report_progress ::
  "job_context \<Rightarrow> job_progress \<Rightarrow> ('w, 'out) worker_state \<Rightarrow> ('w, 'out) worker_state" where
  "report_progress ctx p s = emit (ProgressEvent (ctx_job_id ctx) p) s"

text \<open>\<open>finish\<close> runs when the outcome is persisted and again when the context is dropped.\<close>

definition finish_context ::
  "job_context \<Rightarrow> ('w, 'out) worker_state \<Rightarrow> job_context \<times> ('w, 'out) worker_state" where
  "finish_context ctx s =
     (let s = s\<lparr>cancellation_tokens := AList.delete (ctx_job_id ctx) (cancellation_tokens s)\<rparr>
      in (ctx\<lparr>queue_finished := True\<rparr>,
          if queue_finished ctx then s else count_change (finished (ctx_kind ctx)) s))"

definition settle ::
  "'w job_services \<Rightarrow> job_outcome \<Rightarrow> job_context \<Rightarrow> ('w, 'out) worker_state
     \<Rightarrow> job_context \<times> ('w, 'out) worker_state \<times> (job_error, unit) result" where
  "settle sv outcome ctx s =
     (case persist_finished sv (ctx_job_id ctx) outcome (world s) of (w, r) \<Rightarrow>
        let s = s\<lparr>world := w, settled := settled s @ [(ctx_job_id ctx, oc_status outcome)]\<rparr>
        in case r of
             Inl e \<Rightarrow> (ctx, s, Inl e)
           | Inr _ \<Rightarrow> (case finish_context ctx s of (ctx, s) \<Rightarrow> (ctx, s, Inr ())))"

definition complete_context ::
  "'w job_services \<Rightarrow> nat \<Rightarrow> nat list option \<Rightarrow> job_execute_log list \<Rightarrow> job_context
     \<Rightarrow> ('w, 'out) worker_state \<Rightarrow> job_context \<times> ('w, 'out) worker_state \<times> (job_error, unit) result" where
  "complete_context sv elapsed out logs ctx s =
     settle sv \<lparr>oc_status = Completed, oc_elapsed = elapsed, oc_output = out, oc_logs = logs\<rparr> ctx
       (report_progress ctx progress_finished s)"

definition fail_context ::
  "'w job_services \<Rightarrow> nat \<Rightarrow> job_status \<Rightarrow> string \<Rightarrow> job_context
     \<Rightarrow> ('w, 'out) worker_state \<Rightarrow> job_context \<times> ('w, 'out) worker_state \<times> (job_error, unit) result" where
  "fail_context sv elapsed st message ctx s =
     settle sv \<lparr>oc_status = st, oc_elapsed = elapsed, oc_output = None, oc_logs = []\<rparr> ctx
       (report_progress ctx (status_msg st message) s)"

definition cancel_context ::
  "'w job_services \<Rightarrow> nat \<Rightarrow> job_context
     \<Rightarrow> ('w, 'out) worker_state \<Rightarrow> job_context \<times> ('w, 'out) worker_state \<times> (job_error, unit) result" where
  "cancel_context sv elapsed = fail_context sv elapsed Cancelled ''Job was cancelled''"

section \<open>The lifecycle\<close>

text \<open>
  A method of a job may enqueue follow-up jobs through its context: they are the list it
  returns beside its result. The loop over the tasks may go on for ever, when tasks keep
  spawning subtasks, so it takes fuel: \<open>None\<close> is not having returned yet. It gives the
  output and logs, or what \<open>run_job\<close> returns early.
\<close>

definition enqueue_all ::
  "job_payload list \<Rightarrow> ('w, 'out) worker_state \<Rightarrow> ('w, 'out) worker_state" where
  "enqueue_all jobs s = fold (\<lambda>job s. fst (enqueue job s)) jobs s"

definition push_subtasks :: "'task list \<Rightarrow> 'task list \<Rightarrow> 'task list" where
  "push_subtasks subtasks tasks = foldl (\<lambda>ts t. t # ts) tasks (rev subtasks)"

fun run_tasks ::
  "'w job_services \<Rightarrow> ('w, 'out, 'task) job_lifecycle \<Rightarrow> nat \<Rightarrow> (nat \<Rightarrow> bool) \<Rightarrow> nat \<Rightarrow> nat
     \<Rightarrow> 'out \<Rightarrow> 'task list \<Rightarrow> job_execute_log list \<Rightarrow> job_context \<Rightarrow> ('w, 'out) worker_state
     \<Rightarrow> (job_context \<times> ('w, 'out) worker_state
         \<times> ((job_error, unit) result + ('out \<times> job_execute_log list))) option" where
  "run_tasks sv lc elapsed token 0 completed out tasks logs ctx s = None"
| "run_tasks sv lc elapsed token (Suc fuel) completed out tasks logs ctx s =
     (case tasks of
        [] \<Rightarrow> Some (ctx, s, Inr (out, logs))
      | task # rest \<Rightarrow>
          if token completed
          then (case cancel_context sv elapsed ctx s of (ctx, s, r) \<Rightarrow> Some (ctx, s, Inl r))
          else (let s = report_progress ctx
                      (task_position (i32_wrap (int completed)) (i32_wrap (int (length rest + 1)))) s
                in case execute_task lc task (world s) of
                     (w, jobs, Inr o') \<Rightarrow>
                       run_tasks sv lc elapsed token fuel (completed + 1)
                         (output_update lc out (to_output o'))
                         (push_subtasks (to_subtasks o') rest) (logs @ to_logs o') ctx
                         (enqueue_all jobs (s\<lparr>world := w\<rparr>))
                   | (w, jobs, Inl e) \<Rightarrow>
                       (case fail_context sv elapsed Failed (''Task failed: '' @ job_error_display e)
                               ctx (enqueue_all jobs (s\<lparr>world := w\<rparr>)) of
                          (ctx, s, Inl e') \<Rightarrow> Some (ctx, s, Inl (Inl e'))
                        | (ctx, s, Inr _) \<Rightarrow> Some (ctx, s, Inl (Inl e)))))"

definition run_job ::
  "'w job_services \<Rightarrow> ('w, 'out, 'task) job_lifecycle \<Rightarrow> nat \<Rightarrow> (nat \<Rightarrow> bool) \<Rightarrow> nat
     \<Rightarrow> job_context \<Rightarrow> ('w, 'out) worker_state
     \<Rightarrow> (job_context \<times> ('w, 'out) worker_state \<times> (job_error, unit) result) option" where
  "run_job sv lc elapsed token fuel ctx s =
     (let s = report_progress ctx (status_msg Running ''Initializing job'')
                (emit (Started (ctx_job_id ctx)) s)
      in case init_job lc (world s) of
           (w, jobs, Inl e) \<Rightarrow>
             (case fail_context sv elapsed Failed (''Init failed: '' @ job_error_display e) ctx
                     (enqueue_all jobs (s\<lparr>world := w\<rparr>)) of
                (ctx, s, Inl e') \<Rightarrow> Some (ctx, s, Inl e')
              | (ctx, s, Inr _) \<Rightarrow> Some (ctx, s, Inl e))
         | (w, jobs, Inr ws) \<Rightarrow>
             (case run_tasks sv lc elapsed token fuel 0
                     (case ws_output ws of None \<Rightarrow> output_default lc | Some out \<Rightarrow> out)
                     (ws_tasks ws) (ws_logs ws) ctx (enqueue_all jobs (s\<lparr>world := w\<rparr>)) of
                None \<Rightarrow> None
              | Some (ctx, s, Inl r) \<Rightarrow> Some (ctx, s, r)
              | Some (ctx, s, Inr (out, logs)) \<Rightarrow>
                  (case finalize lc out (world s) of
                     (w, jobs, Inl e) \<Rightarrow>
                       (case fail_context sv elapsed Failed
                               (''Finalize failed: '' @ job_error_display e) ctx
                               (enqueue_all jobs (s\<lparr>world := w\<rparr>)) of
                          (ctx, s, Inl e') \<Rightarrow> Some (ctx, s, Inl e')
                        | (ctx, s, Inr _) \<Rightarrow> Some (ctx, s, Inl e))
                   | (w, jobs, Inr _) \<Rightarrow>
                       Some (complete_context sv elapsed (output_to_vec lc out) logs ctx
                         (emit (OutputEvent (ctx_job_id ctx) out)
                           (enqueue_all jobs (s\<lparr>world := w\<rparr>)))))))"

section \<open>Dispatch and the inline executor\<close>

text \<open>
  \<open>dispatch\<close> opens a context, hands the job to the host's dispatch table \<open>run\<close> and
  drops the context. The executor runs the jobs of its channel one at a time.
\<close>

type_synonym ('w, 'out) run_table =
  "job_payload \<Rightarrow> job_context \<Rightarrow> ('w, 'out) worker_state
     \<Rightarrow> (job_context \<times> ('w, 'out) worker_state \<times> (job_error, unit) result) option"

definition dispatch ::
  "'w job_services \<Rightarrow> ('w, 'out) run_table \<Rightarrow> string \<Rightarrow> job_payload \<Rightarrow> ('w, 'out) worker_state
     \<Rightarrow> (('w, 'out) worker_state \<times> (job_error, unit) result) option" where
  "dispatch sv run jid job s =
     (case open_context sv jid job s of
        (s, Inl e) \<Rightarrow> Some (count_change (enqueue_failed (payload_kind job)) s, Inl e)
      | (s, Inr ctx) \<Rightarrow>
          (case run job ctx s of
             None \<Rightarrow> None
           | Some (ctx, s, r) \<Rightarrow> Some (snd (finish_context ctx s), r)))"

definition executor_step ::
  "'w job_services \<Rightarrow> ('w, 'out) run_table \<Rightarrow> string \<Rightarrow> ('w, 'out) worker_state
     \<Rightarrow> ('w, 'out) worker_state option" where
  "executor_step sv run jid s =
     (case channel s of
        [] \<Rightarrow> Some s
      | job # jobs \<Rightarrow> map_option fst (dispatch sv run jid job (s\<lparr>channel := jobs\<rparr>)))"

section \<open>What a run keeps\<close>

text \<open>
  \<open>runs m ctx s\<close>: \<open>m\<close> were the running counters when the job had started; its own count is
  released exactly when the context says so.
\<close>

definition runs :: "counts \<Rightarrow> job_context \<Rightarrow> ('w, 'out) worker_state \<Rightarrow> bool" where
  "runs m ctx s \<longleftrightarrow>
     running (queue s) = (if queue_finished ctx then decrement m (ctx_kind ctx) else m)"

lemma emit_simps [simp]:
  "queue (emit e s) = queue s" "settled (emit e s) = settled s" "world (emit e s) = world s"
  "channel (emit e s) = channel s" "channel_open (emit e s) = channel_open s"
  "cancellation_tokens (emit e s) = cancellation_tokens s"
  by (simp_all add: emit_def)

lemma count_change_simps [simp]:
  "queue (count_change f s) = f (queue s)" "settled (count_change f s) = settled s"
  "cancellation_tokens (count_change f s) = cancellation_tokens s"
  "channel_open (count_change f s) = channel_open s" "channel (count_change f s) = channel s"
  by (simp_all add: count_change_def)

lemma report_progress_simps [simp]:
  "queue (report_progress ctx p s) = queue s" "settled (report_progress ctx p s) = settled s"
  "world (report_progress ctx p s) = world s"
  by (simp_all add: report_progress_def)

lemma enqueue_keeps [simp]:
  "running (queue (fst (enqueue job s))) = running (queue s)"
  "settled (fst (enqueue job s)) = settled s"
  by (simp_all add: enqueue_def Let_def enqueued_def enqueue_failed_def)

lemma enqueue_all_keeps [simp]:
  "running (queue (enqueue_all jobs s)) = running (queue s)"
  "settled (enqueue_all jobs s) = settled s"
  unfolding enqueue_all_def by (induction jobs arbitrary: s) simp_all

lemma runs_cong: "running (queue s') = running (queue s) \<Longrightarrow> runs m ctx s' = runs m ctx s"
  by (simp add: runs_def)

lemma finish_context_runs:
  assumes "finish_context ctx s = (ctx', s')" "runs m ctx s"
  shows "runs m ctx' s'" "queue_finished ctx'" "settled s' = settled s"
    "ctx_job_id ctx' = ctx_job_id ctx" "ctx_kind ctx' = ctx_kind ctx"
    "map_of (cancellation_tokens s') (ctx_job_id ctx) = None"
  using assms
  by (auto simp: finish_context_def Let_def runs_def finished_def delete_conv' split: if_splits)

lemma settle_runs:
  assumes "settle sv oc ctx s = (ctx', s', r)" "runs m ctx s"
  shows "runs m ctx' s'" "settled s' = settled s @ [(ctx_job_id ctx, oc_status oc)]"
    "ctx_job_id ctx' = ctx_job_id ctx" "ctx_kind ctx' = ctx_kind ctx"
proof -
  obtain w q where p: "persist_finished sv (ctx_job_id ctx) oc (world s) = (w, q)" by fastforce
  let ?s = "s\<lparr>world := w, settled := settled s @ [(ctx_job_id ctx, oc_status oc)]\<rparr>"
  have u: "runs m ctx ?s" using assms(2) by (simp add: runs_def)
  have "runs m ctx' s' \<and> settled s' = settled s @ [(ctx_job_id ctx, oc_status oc)]
      \<and> ctx_job_id ctx' = ctx_job_id ctx \<and> ctx_kind ctx' = ctx_kind ctx"
  proof (cases q)
    case (Inl e)
    with assms(1) p u show ?thesis by (auto simp: settle_def Let_def)
  next
    case (Inr y)
    then have "finish_context ctx ?s = (ctx', s')"
      using assms(1) p by (auto simp: settle_def Let_def split: prod.splits)
    from finish_context_runs [OF this u] show ?thesis by simp
  qed
  then show "runs m ctx' s'" "settled s' = settled s @ [(ctx_job_id ctx, oc_status oc)]"
    "ctx_job_id ctx' = ctx_job_id ctx" "ctx_kind ctx' = ctx_kind ctx" by blast+
qed

definition ends ::
  "counts \<Rightarrow> job_context \<Rightarrow> ('w, 'out) worker_state \<Rightarrow> job_status set
     \<Rightarrow> job_context \<Rightarrow> ('w, 'out) worker_state \<Rightarrow> bool" where
  "ends m ctx s sts ctx' s' \<longleftrightarrow>
     runs m ctx' s' \<and> ctx_job_id ctx' = ctx_job_id ctx \<and> ctx_kind ctx' = ctx_kind ctx
     \<and> (\<exists>st \<in> sts. settled s' = settled s @ [(ctx_job_id ctx, st)])"

lemma fail_context_ends:
  assumes "fail_context sv el st msg ctx s = (ctx', s', r)" "runs m ctx s"
  shows "ends m ctx s {st} ctx' s'"
proof -
  have "runs m ctx (report_progress ctx (status_msg st msg) s)" using assms(2) by (simp add: runs_def)
  from settle_runs [OF assms(1) [unfolded fail_context_def] this] show ?thesis
    by (simp add: ends_def)
qed

lemma complete_context_ends:
  assumes "complete_context sv el out logs ctx s = (ctx', s', r)" "runs m ctx s"
  shows "ends m ctx s {Completed} ctx' s'"
proof -
  have "runs m ctx (report_progress ctx progress_finished s)" using assms(2) by (simp add: runs_def)
  from settle_runs [OF assms(1) [unfolded complete_context_def] this] show ?thesis
    by (simp add: ends_def)
qed

lemma ends_from:
  "ends m ctx s sts ctx' s' \<Longrightarrow> settled s = settled s0 \<Longrightarrow> sts \<subseteq> sts' \<Longrightarrow> ends m ctx s0 sts' ctx' s'"
  by (auto simp: ends_def)

definition tasks_end ::
  "counts \<Rightarrow> job_context \<Rightarrow> ('w, 'out) worker_state
     \<Rightarrow> job_context \<times> ('w, 'out) worker_state
         \<times> ((job_error, unit) result + ('out \<times> job_execute_log list)) \<Rightarrow> bool" where
  "tasks_end m ctx s = (\<lambda>(ctx', s', r).
     case r of
       Inr _ \<Rightarrow> ctx' = ctx \<and> runs m ctx s' \<and> settled s' = settled s
     | Inl (Inr _) \<Rightarrow> ends m ctx s {Cancelled} ctx' s'
     | Inl (Inl _) \<Rightarrow> ends m ctx s {Cancelled, Failed} ctx' s')"

lemma run_tasks_ends:
  "run_tasks sv lc el token fuel n out tasks logs ctx s = Some res \<Longrightarrow> runs m ctx s \<Longrightarrow>
     tasks_end m ctx s res"
proof (induction sv lc el token fuel n out tasks logs ctx s rule: run_tasks.induct)
  case (2 sv lc el token fuel n out tasks logs ctx s)
  show ?case
  proof (cases tasks)
    case Nil
    with 2 show ?thesis by (auto simp: tasks_end_def)
  next
    case (Cons task rest)
    show ?thesis
    proof (cases "token n")
      case True
      obtain ctx' s' r where c: "cancel_context sv el ctx s = (ctx', s', r)" by (metis prod_cases3)
      with fail_context_ends [OF c [unfolded cancel_context_def] 2(3)] 2(2) Cons True
      show ?thesis by (auto simp: tasks_end_def intro: ends_from split: sum.splits)
    next
      case False
      let ?s = "report_progress ctx
        (task_position (i32_wrap (int n)) (i32_wrap (int (length rest + 1)))) s"
      obtain w jobs r where ex: "execute_task lc task (world ?s) = (w, jobs, r)"
        by (metis prod_cases3)
      let ?u = "enqueue_all jobs (?s\<lparr>world := w\<rparr>)"
      have u: "runs m ctx ?u" "settled ?u = settled s" using 2(3) by (simp_all add: runs_def)
      show ?thesis
      proof (cases r)
        case (Inr o')
        from 2(1) [OF Cons False refl ex [symmetric] refl Inr _ u(1)] 2(2) Cons False ex Inr
        have "tasks_end m ctx ?u res" by (simp add: Let_def)
        with u(2) show ?thesis
          by (auto simp: tasks_end_def intro: ends_from split: sum.splits prod.splits)
      next
        case (Inl e)
        obtain ctx' s' q where f: "fail_context sv el Failed (''Task failed: '' @ job_error_display e)
          ctx ?u = (ctx', s', q)" by (metis prod_cases3)
        from fail_context_ends [OF f u(1)] u(2) have "ends m ctx s {Cancelled, Failed} ctx' s'"
          by (auto intro: ends_from)
        with 2(2) Cons False ex Inl f show ?thesis
          by (auto simp: tasks_end_def Let_def split: sum.splits)
      qed
    qed
  qed
qed simp

lemma run_job_ends:
  assumes run: "run_job sv lc el token fuel ctx s = Some (ctx', s', r)" and m: "runs m ctx s"
  shows "ends m ctx s (if r = Inr () then {Completed, Cancelled} else {Completed, Cancelled, Failed})
    ctx' s'"
proof -
  let ?s = "report_progress ctx (status_msg Running ''Initializing job'')
    (emit (Started (ctx_job_id ctx)) s)"
  obtain w jobs i where init: "init_job lc (world ?s) = (w, jobs, i)" by (metis prod_cases3)
  let ?u = "enqueue_all jobs (?s\<lparr>world := w\<rparr>)"
  have u: "runs m ctx ?u" "settled ?u = settled s" using m by (simp_all add: runs_def)
  have failed: "ends m ctx s {Completed, Cancelled, Failed} ctx2 s2"
    if "fail_context sv el Failed msg ctx v = (ctx2, s2, q)" "runs m ctx v" "settled v = settled s"
    for msg v ctx2 s2 q
    using fail_context_ends [OF that(1,2)] that(3) by (rule ends_from) simp
  show ?thesis
  proof (cases i)
    case (Inl e)
    obtain ctx2 s2 q where f: "fail_context sv el Failed (''Init failed: '' @ job_error_display e) ctx ?u
        = (ctx2, s2, q)" by (metis prod_cases3)
    from failed [OF f u] run init Inl f show ?thesis
      by (auto simp: run_job_def Let_def split: sum.splits)
  next
    case (Inr ws)
    let ?out = "case ws_output ws of None \<Rightarrow> output_default lc | Some out \<Rightarrow> out"
    let ?t = "run_tasks sv lc el token fuel 0 ?out (ws_tasks ws) (ws_logs ws) ctx ?u"
    obtain ctx1 s1 t where t: "?t = Some (ctx1, s1, t)"
      using run init Inr by (auto simp: run_job_def Let_def split: option.splits)
    note te = run_tasks_ends [OF t u(1)]
    show ?thesis
    proof (cases t)
      case (Inl q)
      with run init Inr t have "ctx' = ctx1" "s' = s1" "r = q" by (auto simp: run_job_def Let_def)
      with te Inl u(2) show ?thesis
        by (auto simp: tasks_end_def intro: ends_from split: sum.splits)
    next
      case t': (Inr ol)
      obtain out logs where ol: "ol = (out, logs)" by fastforce
      obtain w2 jobs2 f where fin: "finalize lc out (world s1) = (w2, jobs2, f)"
        by (metis prod_cases3)
      let ?v = "enqueue_all jobs2 (s1\<lparr>world := w2\<rparr>)"
      have s1: "ctx1 = ctx" "runs m ctx s1" "settled s1 = settled s"
        using te t' u(2) by (auto simp: tasks_end_def)
      then have v: "runs m ctx ?v" "settled ?v = settled s" by (simp_all add: runs_def)
      show ?thesis
      proof (cases f)
        case (Inl e)
        obtain ctx2 s2 q where f: "fail_context sv el Failed
            (''Finalize failed: '' @ job_error_display e) ctx ?v = (ctx2, s2, q)"
          by (metis prod_cases3)
        from failed [OF f v] run init Inr t t' ol fin Inl f s1 show ?thesis
          by (auto simp: run_job_def Let_def split: sum.splits)
      next
        case (Inr y)
        let ?x = "emit (OutputEvent (ctx_job_id ctx) out) ?v"
        have x: "runs m ctx ?x" "settled ?x = settled s" using v by (simp_all add: runs_def)
        have c: "complete_context sv el (output_to_vec lc out) logs ctx ?x = (ctx', s', r)"
          using run init \<open>i = Inr ws\<close> t t' ol fin Inr s1 by (simp add: run_job_def Let_def)
        from complete_context_ends [OF c x(1)] x(2) show ?thesis by (auto intro: ends_from)
      qed
    qed
  qed
qed

section \<open>Fuel\<close>

lemma push_subtasks_append: "push_subtasks subtasks tasks = subtasks @ tasks"
proof -
  have "foldl (\<lambda>ts t. t # ts) ts xs = rev xs @ ts" for ts xs :: "'a list"
    by (induction xs arbitrary: ts) auto
  then show ?thesis by (simp add: push_subtasks_def)
qed

lemma run_tasks_more:
  "run_tasks sv lc el token fuel n out tasks logs ctx s = Some res \<Longrightarrow>
     run_tasks sv lc el token (fuel + k) n out tasks logs ctx s = Some res"
proof (induction sv lc el token fuel n out tasks logs ctx s rule: run_tasks.induct)
  case (2 sv lc el token fuel n out tasks logs ctx s)
  show ?case
  proof (cases tasks)
    case (Cons task rest)
    let ?s = "report_progress ctx
      (task_position (i32_wrap (int n)) (i32_wrap (int (length rest + 1)))) s"
    obtain w jobs r where ex: "execute_task lc task (world ?s) = (w, jobs, r)"
      by (metis prod_cases3)
    from 2(2) Cons ex show ?thesis
    proof (cases "token n \<or> (\<exists>e. r = Inl e)")
      case False
      then obtain o' where r: "r = Inr o'" "\<not> token n" by (cases r) auto
      from 2(1) [OF Cons r(2) refl ex [symmetric] refl r(1)] 2(2) Cons ex r show ?thesis
        by (simp add: Let_def)
    qed auto
  qed (use 2 in auto)
qed simp

lemma run_tasks_returns:
  fixes lc :: "('w, 'out, 'task) job_lifecycle"
  assumes shrink: "\<And>task w w' jobs o'. execute_task lc task w = (w', jobs, Inr o') \<Longrightarrow>
      sum_list (map weight (to_subtasks o')) < weight task"
    and "sum_list (map weight tasks) < fuel"
  shows "run_tasks sv lc el token fuel n out tasks logs ctx s \<noteq> None"
  using assms(2)
proof (induction fuel arbitrary: n out tasks logs s)
  case (Suc fuel)
  show ?case
  proof (cases tasks)
    case (Cons task rest)
    let ?s = "report_progress ctx
      (task_position (i32_wrap (int n)) (i32_wrap (int (length rest + 1)))) s"
    obtain w jobs r where ex: "execute_task lc task (world ?s) = (w, jobs, r)"
      by (metis prod_cases3)
    show ?thesis
    proof (cases "token n \<or> (\<exists>e. r = Inl e)")
      case True
      with Cons ex show ?thesis by (auto simp: Let_def split: prod.splits sum.splits)
    next
      case False
      then obtain o' where r: "r = Inr o'" "\<not> token n" by (cases r) auto
      have "sum_list (map weight (push_subtasks (to_subtasks o') rest)) < fuel"
        using shrink [OF ex [unfolded r(1)]] Suc.prems Cons by (simp add: push_subtasks_append)
      from Suc.IH [OF this] Cons ex r show ?thesis by (simp add: Let_def)
    qed
  qed simp
qed simp

section \<open>Properties of the runtime\<close>

text \<open>
  C26. A job that is dispatched and returns has had its outcome persisted exactly once,
  under its own id and with a final status, whether it failed to initialise, was cancelled,
  failed in a task or in finalisation, or completed, and even when that write failed; it is
  reported as successful only when it completed or was cancelled. Its cancellation token is
  gone and the running count of every kind is what it was before. When the start could not
  be persisted nothing is settled.
\<close>

theorem dispatch_settles:
  assumes run: "dispatch sv (\<lambda>_. run_job sv lc el token fuel) jid job s = Some (s', r)"
    and ok: "queue_ok (queue s)" "running_count (queue s) (payload_kind job) < I32_MAX"
  shows "running_count (queue s') k = running_count (queue s) k
    \<and> (case snd (persist_started sv jid job (world s)) of
         Inl e \<Rightarrow> r = Inl e \<and> settled s' = settled s
       | Inr _ \<Rightarrow> map_of (cancellation_tokens s') jid = None
           \<and> (\<exists>st. settled s' = settled s @ [(jid, st)] \<and> is_resolved st
                \<and> (r = Inr () \<longrightarrow> st \<in> {Completed, Cancelled})))"
proof -
  obtain w p where p: "persist_started sv jid job (world s) = (w, p)" by fastforce
  let ?k = "payload_kind job"
  show ?thesis
  proof (cases p)
    case (Inl e)
    with run p show ?thesis
      by (auto simp: dispatch_def open_context_def running_count_def enqueue_failed_def)
  next
    case (Inr y)
    define u where "u = count_change (started ?k)
      (s\<lparr>world := w, cancellation_tokens := AList.update jid False (cancellation_tokens s)\<rparr>)"
    define ctx where "ctx = \<lparr>ctx_job_id = jid, ctx_kind = ?k, queue_finished = False\<rparr>"
    define m where "m = increment (running (queue s)) ?k"
    have o: "open_context sv jid job s = (u, Inr ctx)"
      using p Inr by (simp add: open_context_def u_def ctx_def)
    obtain ctx1 s1 where j: "run_job sv lc el token fuel ctx u = Some (ctx1, s1, r)"
      and s': "s' = snd (finish_context ctx1 s1)"
      using run o by (auto simp: dispatch_def split: option.splits)
    have "runs m ctx u" by (simp add: runs_def u_def ctx_def m_def started_def)
    note e = run_job_ends [OF j this, unfolded ends_def]
    obtain ctx2 where f: "finish_context ctx1 s1 = (ctx2, s')" using s' by (metis prod.collapse)
    from e have "runs m ctx1 s1" and c1: "ctx_job_id ctx1 = jid" "ctx_kind ctx1 = ?k"
      by (auto simp: ctx_def)
    note g = finish_context_runs [OF f this(1)]
    have "running (queue s') = decrement m ?k" using g(1,2,5) c1 by (simp add: runs_def)
    then have "running_count (queue s') k = running_count (queue s) k"
      using ok entry_range [of "running (queue s)" ?k] counts_ok_increment [of "running (queue s)" ?k]
      by (simp add: running_count_def queue_ok_def m_def entry_decrement entry_increment)
    moreover have "settled u = settled s" by (simp add: u_def)
    ultimately show ?thesis
      using e g(3,6) c1 p Inr by (auto simp: ctx_def is_resolved_def split: if_splits)
  qed
qed

text \<open>
  C27. A job returns as soon as the work its tasks spawn keeps shrinking: when every task
  weighs more than the subtasks it returns together, fuel above the weight of the initial
  tasks is enough, whatever is cancelled or fails on the way.
\<close>

theorem run_job_returns:
  fixes lc :: "('w, 'out, 'task) job_lifecycle"
  assumes "\<And>task w w' jobs o'. execute_task lc task w = (w', jobs, Inr o') \<Longrightarrow>
      sum_list (map weight (to_subtasks o')) < weight task"
    and "init_job lc (world s) = (w, jobs, Inr ws)"
    and "sum_list (map weight (ws_tasks ws)) < fuel"
  shows "\<exists>ctx' s' r. run_job sv lc el token fuel ctx s = Some (ctx', s', r)"
proof -
  let ?s = "report_progress ctx (status_msg Running ''Initializing job'')
    (emit (Started (ctx_job_id ctx)) s)"
  have "run_tasks sv lc el token fuel 0
      (case ws_output ws of None \<Rightarrow> output_default lc | Some out \<Rightarrow> out)
      (ws_tasks ws) (ws_logs ws) ctx (enqueue_all jobs (?s\<lparr>world := w\<rparr>)) \<noteq> None"
    by (rule run_tasks_returns [OF assms(1,3)])
  with assms(2) show ?thesis
    by (auto simp: run_job_def Let_def split: prod.splits sum.splits) (metis prod_cases3)
qed

section \<open>A concrete job\<close>

definition example_services :: "unit job_services" where
  "example_services =
     \<lparr>persist_started = (\<lambda>_ _ w. (w, Inr ())), persist_finished = (\<lambda>_ _ w. (w, Inr ()))\<rparr>"

text \<open>A job whose task \<open>n\<close> spawns the task \<open>n - 1\<close>.\<close>

definition countdown :: "(unit, nat, nat) job_lifecycle" where
  "countdown =
     \<lparr>init_job = (\<lambda>w. (w, [], Inr \<lparr>ws_output = None, ws_tasks = [2], ws_logs = []\<rparr>)),
      execute_task = (\<lambda>n w. (w, [], Inr \<lparr>to_output = n,
        to_subtasks = (if n = 0 then [] else [n - 1]), to_logs = []\<rparr>)),
      finalize = (\<lambda>_ w. (w, [], Inr ())), output_default = 0, output_update = (\<lambda>_ n. n),
      output_to_vec = (\<lambda>n. Some [n])\<rparr>"

definition example_state :: "(unit, nat) worker_state" where
  "example_state =
     \<lparr>world = (), channel = [], channel_open = True, cancellation_tokens = [],
      queue = queue_default, emitted = [], settled = []\<rparr>"

theorem run_job_returns_witness:
  "\<exists>ctx' s' r. run_job example_services countdown 0 (\<lambda>_. False) 4
     \<lparr>ctx_job_id = ''j'', ctx_kind = ''SCAN'', queue_finished = False\<rparr> example_state =
     Some (ctx', s', r)"
proof (rule run_job_returns [where weight = Suc])
  show "sum_list (map Suc (to_subtasks o')) < Suc task"
    if "execute_task countdown task w = (w', jobs, Inr o')" for task w w' jobs o'
    using that by (auto simp: countdown_def)
  show "init_job countdown (world example_state) =
      ((), [], Inr \<lparr>ws_output = None, ws_tasks = [2], ws_logs = []\<rparr>)"
    by (simp add: countdown_def)
qed simp

lemma example_dispatch:
  "\<exists>s' r. dispatch example_services
     (\<lambda>_. run_job example_services countdown 0 (\<lambda>_. False) (Suc (Suc (Suc (Suc 0))))) ''j''
     \<lparr>payload_name = ''scan'', payload_kind = ''SCAN''\<rparr> example_state = Some (s', r)"
  by (simp add: dispatch_def open_context_def run_job_def complete_context_def settle_def
      finish_context_def example_services_def countdown_def Let_def push_subtasks_def)

theorem dispatch_settles_witness:
  "\<exists>s' r st. dispatch example_services
     (\<lambda>_. run_job example_services countdown 0 (\<lambda>_. False) (Suc (Suc (Suc (Suc 0))))) ''j''
     \<lparr>payload_name = ''scan'', payload_kind = ''SCAN''\<rparr> example_state = Some (s', r)
   \<and> running_count (queue s') ''SCAN'' = 0 \<and> settled s' = [(''j'', st)]"
proof -
  obtain s' r where d: "dispatch example_services
      (\<lambda>_. run_job example_services countdown 0 (\<lambda>_. False) (Suc (Suc (Suc (Suc 0))))) ''j''
      \<lparr>payload_name = ''scan'', payload_kind = ''SCAN''\<rparr> example_state = Some (s', r)"
    using example_dispatch by blast
  have "queue_ok (queue example_state)" "running_count (queue example_state) ''SCAN'' < I32_MAX"
    by (simp_all add: example_state_def queue_default_def queue_ok_def counts_ok_def
        running_count_def entry_or_zero_def I32_MAX_def)
  with dispatch_settles [OF d, of "''SCAN''"] d show ?thesis
    by (auto simp: example_services_def example_state_def queue_default_def running_count_def
        entry_or_zero_def)
qed

end
