(* ===== verification/Reading_State.thy ===== *)
theory Reading_State
  imports Json "HOL-Library.Monad_Syntax"
begin

text \<open>
  \<^verbatim>\<open>crates/models/src/domain/reading_state.rs\<close>: the projection of a protocol update onto
  the reading head, the conflict rule, and the conversion of positions between the ebook
  and the audiobook of a work. Times are nanoseconds. \<open>Decimal\<close> belongs to the
  rust_decimal package: it is an opaque value, and its conversions are the functions of
  \<open>decimal_ops\<close>. Counts and offsets are \<open>int\<close>; the code subtracts and adds
  non-negative ones, far from the bounds of \<open>i64\<close>.
\<close>

section \<open>Locators\<close>

type_synonym decimal = string

record decimal_ops =
  dec_try_from :: "f64 \<Rightarrow> decimal option"
  dec_parse :: "decimal \<Rightarrow> f64 option"

record readium_location =
  fragments :: "ustr list option"
  loc_progression :: "decimal option"
  loc_position :: "int option"
  total_progression :: "decimal option"
  css_selector :: "ustr option"
  partial_cfi :: "ustr option"

record readium_text =
  rt_after :: "ustr option"
  rt_before :: "ustr option"
  rt_highlight :: "ustr option"

record readium_locator =
  chapter_title :: ustr
  href :: ustr
  locator_title :: "ustr option"
  locations :: "readium_location option"
  locator_text :: "readium_text option"
  kobo_span :: "ustr option"
  locator_type :: ustr

section \<open>Updates and heads\<close>

definition STALE_TOLERANCE_SECS :: int where "STALE_TOLERANCE_SECS = 60"

datatype source_protocol = Stump | Komga | Kobo | Koreader | Opds | Liseur | Kavita | Abs

datatype timestamp_kind = Device | Server

datatype position =
    Page int
  | Locator readium_locator
  | Time int "int option"
  | Nowhere

record protocol_update =
  up_protocol :: source_protocol
  up_device_id :: "string option"
  up_updated_at :: "int option"
  up_position :: position
  up_progression :: "f64 option"
  up_completed :: "bool option"
  up_raw_payload :: json

record publication =
  pub_media_id :: ustr
  pub_pages :: int
  pub_duration_ms :: "int option"

definition with_duration_ms :: "int \<Rightarrow> publication \<Rightarrow> publication" where
  "with_duration_ms d p = p\<lparr>pub_duration_ms := Some d\<rparr>"

record projection =
  pr_locator :: "readium_locator option"
  pr_page :: "int option"
  pr_position_ms :: "int option"
  pr_track_index :: "int option"
  pr_progression :: "f64 option"
  pr_completed :: "bool option"

definition projection_default :: projection where
  "projection_default =
     \<lparr>pr_locator = None, pr_page = None, pr_position_ms = None, pr_track_index = None,
      pr_progression = None, pr_completed = None\<rparr>"

record head_state =
  hs_updated_at :: int
  hs_progression :: f64
  hs_completed :: bool

datatype outcome = Accepted | ProvenanceOnly

record resolved =
  rs_outcome :: outcome
  rs_progression :: f64
  rs_completed :: bool

definition or_else :: "'a option \<Rightarrow> 'a option \<Rightarrow> 'a option" where
  "or_else x y = (case x of Some v \<Rightarrow> Some v | None \<Rightarrow> y)"

definition unwrap_or :: "'a option \<Rightarrow> 'a \<Rightarrow> 'a" where
  "unwrap_or x y = (case x of Some v \<Rightarrow> v | None \<Rightarrow> y)"

definition page_progression :: "int \<Rightarrow> int \<Rightarrow> f64 option" where
  "page_progression page pages =
     (if pages > 0
      then Some (f64_clamp (f64_div (f64_of_int page) (f64_of_int pages)) (Fin 0) (Fin 1))
      else None)"

definition time_progression :: "int \<Rightarrow> int \<Rightarrow> f64 option" where
  "time_progression position_ms duration_ms =
     (if duration_ms > 0
      then Some (f64_clamp (f64_div (f64_of_int position_ms) (f64_of_int duration_ms))
                  (Fin 0) (Fin 1))
      else None)"

definition clamp_unit :: "f64 \<Rightarrow> f64 option" where
  "clamp_unit v = (if f64_is_finite v then Some (f64_clamp v (Fin 0) (Fin 1)) else None)"

definition decimal_to_f64 :: "decimal_ops \<Rightarrow> decimal \<Rightarrow> f64 option" where
  "decimal_to_f64 ops d = Option.bind (dec_parse ops d) clamp_unit"

definition page_locator :: "decimal_ops \<Rightarrow> ustr \<Rightarrow> int \<Rightarrow> int \<Rightarrow> readium_locator" where
  "page_locator ops media_id page pages =
     (let p = Option.bind (page_progression page pages) (dec_try_from ops)
      in \<lparr>chapter_title = [],
          href = lit ''/api/v2/media/'' @ media_id @ lit ''/page/'' @ show_int page,
          locator_title = Some (lit ''Page '' @ show_int page),
          locations = Some \<lparr>fragments = None, loc_progression = p, loc_position = Some page,
            total_progression = p, css_selector = None, partial_cfi = None\<rparr>,
          locator_text = None, kobo_span = None, locator_type = lit ''image/jpeg''\<rparr>)"

definition project_position ::
  "decimal_ops \<Rightarrow> protocol_update \<Rightarrow> publication \<Rightarrow> projection" where
  "project_position ops u p =
     (let asserted = Option.bind (up_progression u) clamp_unit
      in case up_position u of
           Page page \<Rightarrow>
             projection_default
               \<lparr>pr_locator := Some (page_locator ops (pub_media_id p) page (pub_pages p)),
                pr_page := Some page,
                pr_progression := or_else asserted (page_progression page (pub_pages p)),
                pr_completed := up_completed u\<rparr>
         | Locator locator \<Rightarrow>
             (let pos = Option.bind (locations locator) loc_position
              in projection_default
                   \<lparr>pr_locator := Some locator, pr_page := pos,
                    pr_progression :=
                      or_else (or_else asserted
                        (Option.bind (Option.bind (locations locator) total_progression)
                          (decimal_to_f64 ops)))
                        (Option.bind pos (\<lambda>page. page_progression page (pub_pages p))),
                    pr_completed := up_completed u\<rparr>)
         | Time position_ms track_index \<Rightarrow>
             projection_default
               \<lparr>pr_position_ms := Some position_ms, pr_track_index := track_index,
                pr_progression :=
                  or_else asserted (Option.bind (pub_duration_ms p) (time_progression position_ms)),
                pr_completed := up_completed u\<rparr>
         | Nowhere \<Rightarrow>
             projection_default\<lparr>pr_progression := asserted, pr_completed := up_completed u\<rparr>)"

definition project :: "decimal_ops \<Rightarrow> protocol_update \<Rightarrow> publication \<Rightarrow> projection" where
  "project ops u p =
     (let r = project_position ops u p
      in if up_completed u = Some True \<and> pr_page r = None \<and> pr_position_ms r = None
            \<and> pr_progression r = None
         then (case pub_duration_ms p of
                 Some d \<Rightarrow>
                   if d > 0 then r\<lparr>pr_position_ms := Some d, pr_progression := Some (Fin 1)\<rparr>
                   else r\<lparr>pr_page := (if pub_pages p > 0 then Some (pub_pages p) else None),
                          pr_progression := Some (Fin 1)\<rparr>
               | None \<Rightarrow>
                   r\<lparr>pr_page := (if pub_pages p > 0 then Some (pub_pages p) else None),
                     pr_progression := Some (Fin 1)\<rparr>)
         else r)"

definition resolve :: "head_state option \<Rightarrow> projection \<Rightarrow> int \<Rightarrow> resolved" where
  "resolve head pr incoming_at =
     (case head of
        None \<Rightarrow>
          let completed = unwrap_or (pr_completed pr) False
          in \<lparr>rs_outcome = Accepted,
              rs_progression = unwrap_or (pr_progression pr) (if completed then Fin 1 else Fin 0),
              rs_completed = completed\<rparr>
      | Some h \<Rightarrow>
          let progression = unwrap_or (pr_progression pr) (hs_progression h);
              older_by = hs_updated_at h - incoming_at
          in if older_by > STALE_TOLERANCE_SECS * 1000000000
                \<and> f64_lt progression (hs_progression h)
             then \<lparr>rs_outcome = ProvenanceOnly, rs_progression = hs_progression h,
                   rs_completed = hs_completed h\<rparr>
             else \<lparr>rs_outcome = Accepted, rs_progression = progression,
                   rs_completed = unwrap_or (pr_completed pr) (hs_completed h)\<rparr>)"

section \<open>Converting a position between editions\<close>

record spine_item =
  si_index :: int
  si_href :: ustr
  char_count :: int

record audio_chapter_span =
  ac_index :: int
  start_ms :: int
  end_ms :: int

definition duration_ms :: "audio_chapter_span \<Rightarrow> int" where
  "duration_ms c = end_ms c - start_ms c"

record chapter_mapping =
  ebook_spine_index :: int
  audio_chapter_index :: int
  mapping_confidence :: f64

record mapped_position =
  mp_locator :: "readium_locator option"
  mp_position_ms :: "int option"
  mp_progression :: f64
  mp_confidence :: f64
  approximate :: bool

text \<open>\<open>Iterator::max_by_key\<close>: the last of several maxima.\<close>

fun max_by_key :: "('a \<Rightarrow> int) \<Rightarrow> 'a list \<Rightarrow> 'a option" where
  "max_by_key f [] = None"
| "max_by_key f (x # xs) =
     (case max_by_key f xs of
        None \<Rightarrow> Some x
      | Some y \<Rightarrow> if f x \<le> f y then Some y else Some x)"

definition chapter_at :: "audio_chapter_span list \<Rightarrow> int \<Rightarrow> audio_chapter_span option" where
  "chapter_at chapters position_ms =
     max_by_key start_ms
       (filter (\<lambda>c. duration_ms c > 0 \<and> start_ms c \<le> position_ms) chapters)"

definition mapped_spine_index :: "chapter_mapping list \<Rightarrow> int \<Rightarrow> chapter_mapping option" where
  "mapped_spine_index mappings i = find (\<lambda>e. audio_chapter_index e = i) mappings"

definition mapped_chapter_index :: "chapter_mapping list \<Rightarrow> int \<Rightarrow> chapter_mapping option" where
  "mapped_chapter_index mappings i = find (\<lambda>e. ebook_spine_index e = i) mappings"

definition chars :: "spine_item \<Rightarrow> int" where
  "chars item = max (char_count item) 0"

definition spine_offsets :: "spine_item list \<Rightarrow> int \<Rightarrow> (int \<times> int) option" where
  "spine_offsets spine i =
     (let whole = sum_list (map chars spine);
          before = sum_list (map chars (takeWhile (\<lambda>item. si_index item \<noteq> i) spine))
      in if list_ex (\<lambda>item. si_index item = i) spine then Some (before, max whole 1) else None)"

definition map_time_to_locator ::
  "decimal_ops \<Rightarrow> int \<Rightarrow> audio_chapter_span list \<Rightarrow> spine_item list \<Rightarrow> chapter_mapping list
     \<Rightarrow> mapped_position option" where
  "map_time_to_locator ops position_ms chapters spine mappings =
     do {
       chapter \<leftarrow> chapter_at chapters position_ms;
       mapping \<leftarrow> mapped_spine_index mappings (ac_index chapter);
       item \<leftarrow> find (\<lambda>item. si_index item = ebook_spine_index mapping) spine;
       (chars_before, total_chars) \<leftarrow> spine_offsets spine (si_index item);
       inside \<leftarrow> clamp_unit (f64_div (f64_of_int (position_ms - start_ms chapter))
                                     (f64_of_int (duration_ms chapter)));
       let char_offset = f64_add (f64_of_int chars_before)
                           (f64_mul inside (f64_of_int (chars item)));
       overall \<leftarrow> clamp_unit (f64_div char_offset (f64_of_int total_chars));
       Some \<lparr>mp_locator = Some
               \<lparr>chapter_title = [], href = si_href item, locator_title = None,
                locations = Some
                  \<lparr>fragments = None, loc_progression = dec_try_from ops inside,
                   loc_position = None, total_progression = dec_try_from ops overall,
                   css_selector = None, partial_cfi = None\<rparr>,
                locator_text = None, kobo_span = None,
                locator_type = lit ''application/xhtml+xml''\<rparr>,
             mp_position_ms = None, mp_progression = overall,
             mp_confidence = mapping_confidence mapping, approximate = True\<rparr>
     }"

definition matches_href :: "ustr \<Rightarrow> spine_item \<Rightarrow> bool" where
  "matches_href h item \<longleftrightarrow>
     si_href item \<noteq> [] \<and> (ends_with h (si_href item) \<or> ends_with (si_href item) h)"

fun locate_by_total ::
  "f64 \<Rightarrow> int \<Rightarrow> int \<Rightarrow> spine_item list \<Rightarrow> (spine_item \<times> f64) option" where
  "locate_by_total target last_index cumulative [] = None"
| "locate_by_total target last_index cumulative (item # rest) =
     (if f64_lt target (f64_of_int (cumulative + chars item)) \<or> si_index item = last_index
      then if chars item > 0
           then map_option (Pair item)
                  (clamp_unit (f64_div (f64_sub target (f64_of_int cumulative))
                                       (f64_of_int (chars item))))
           else Some (item, Fin 0)
      else locate_by_total target last_index (cumulative + chars item) rest)"

definition locate_in_spine ::
  "decimal_ops \<Rightarrow> readium_locator \<Rightarrow> spine_item list \<Rightarrow> (spine_item \<times> f64) option" where
  "locate_in_spine ops locator spine =
     (let h = drop_end_while (\<lambda>c. c = 47) (href locator);
          by_href = (if h \<noteq> [] then find (matches_href h) spine else None)
      in case by_href of
           Some item \<Rightarrow>
             Some (item, unwrap_or (Option.bind (Option.bind (locations locator) loc_progression)
                                     (decimal_to_f64 ops)) (Fin 0))
         | None \<Rightarrow>
             Option.bind
               (Option.bind (Option.bind (locations locator) total_progression)
                 (decimal_to_f64 ops))
               (\<lambda>total.
                  locate_by_total
                    (f64_mul total (f64_of_int (max (sum_list (map chars spine)) 1)))
                    (si_index (last spine)) 0 spine))"

definition map_locator_to_time ::
  "decimal_ops \<Rightarrow> readium_locator \<Rightarrow> spine_item list \<Rightarrow> audio_chapter_span list
     \<Rightarrow> chapter_mapping list \<Rightarrow> mapped_position option" where
  "map_locator_to_time ops locator spine chapters mappings =
     do {
       (item, inside) \<leftarrow> locate_in_spine ops locator spine;
       mapping \<leftarrow> mapped_chapter_index mappings (si_index item);
       chapter \<leftarrow> find (\<lambda>c. ac_index c = audio_chapter_index mapping) chapters;
       chapter \<leftarrow> (if duration_ms chapter > 0 then Some chapter else None);
       inside \<leftarrow> clamp_unit inside;
       let position_ms = start_ms chapter
             + f64_to_i64 (f64_round_int (f64_mul inside (f64_of_int (duration_ms chapter))));
       let whole = unwrap_or (max_by_key (\<lambda>x. x) (map end_ms chapters)) 0;
       Some \<lparr>mp_locator = None, mp_position_ms = Some position_ms,
             mp_progression = unwrap_or (time_progression position_ms whole) (Fin 0),
             mp_confidence = mapping_confidence mapping, approximate = True\<rparr>
     }"

section \<open>The values the code can hold\<close>

text \<open>
  Integers within 64 bits, and the bounds under which the conversions between integers and
  \<open>f64\<close> are exact: a recording of less than \<open>2\<close> to the 53 milliseconds and a book of less
  than \<open>2\<close> to the 53 characters.
\<close>

definition i64_ok :: "int \<Rightarrow> bool" where
  "i64_ok n \<longleftrightarrow> - (2 ^ 63) \<le> n \<and> n < 2 ^ 63"

fun position_ok :: "position \<Rightarrow> bool" where
  "position_ok (Page n) = i64_ok n"
| "position_ok (Locator l) =
     (case Option.bind (locations l) loc_position of Some n \<Rightarrow> i64_ok n | None \<Rightarrow> True)"
| "position_ok (Time n _) = i64_ok n"
| "position_ok Nowhere = True"

definition publication_ok :: "publication \<Rightarrow> bool" where
  "publication_ok p \<longleftrightarrow>
     i64_ok (pub_pages p) \<and> (case pub_duration_ms p of Some d \<Rightarrow> i64_ok d | None \<Rightarrow> True)"

definition spans_ok :: "audio_chapter_span list \<Rightarrow> bool" where
  "spans_ok cs \<longleftrightarrow> (\<forall>c\<in>set cs. 0 \<le> start_ms c \<and> end_ms c < 2 ^ 53)"

definition spine_ok :: "spine_item list \<Rightarrow> bool" where
  "spine_ok spine \<longleftrightarrow> sum_list (map chars spine) < 2 ^ 53"

definition fraction :: "int \<Rightarrow> int \<Rightarrow> f64" where
  "fraction n d = f64_div (f64_of_int n) (f64_of_int d)"

section \<open>Progression and conversion\<close>


subsection \<open>Progression is in the unit interval\<close>

lemma f64_div_of_int_not_NaN:
  assumes "\<bar>n\<bar> \<le> 2 ^ 64" "0 < d" "d \<le> 2 ^ 64"
  shows "f64_div (f64_of_int n) (f64_of_int d) \<noteq> NaN"
proof -
  obtain r where "f64_of_int n = Fin r" by (rule f64_of_int_finite [OF assms(1)])
  moreover obtain s where "f64_of_int d = Fin s" "1 \<le> s"
    using f64_of_int_finite [of d] assms(2,3) by auto
  ultimately show ?thesis by simp
qed

lemma powi_31: "(2::rat) powi (- 31) = 1 / 2147483648"
  by (simp add: power_int_def power_divide)

lemma ratio_bounds:
  assumes "0 < d" "d < 2 ^ 31" "0 < n" "n < d"
  shows "(2::rat) powi (- 31) \<le> of_int n / of_int d" "of_int n / of_int d \<le> 1 - (2::rat) powi (- 31)"
proof -
  have d: "(0::rat) < of_int d" using assms(1) by simp
  have "(of_int d :: rat) \<le> of_int 2147483648" unfolding of_int_le_iff using assms(2) by simp
  with d have inv: "(2::rat) powi (- 31) \<le> 1 / of_int d"
    unfolding powi_31 by (intro divide_left_mono) simp_all
  have "(1::rat) \<le> of_int n" using assms(3) by simp
  then have "1 / of_int d \<le> (of_int n :: rat) / of_int d" using d by (simp add: divide_right_mono)
  with inv show "(2::rat) powi (- 31) \<le> of_int n / of_int d" by (rule order_trans)
  have "(of_int n :: rat) + 1 \<le> of_int d" using assms(4) by (metis of_int_1 of_int_add of_int_le_iff zless_imp_add1_zle)
  then have "(of_int n :: rat) / of_int d \<le> 1 - 1 / of_int d" using d by (simp add: field_simps)
  with inv show "of_int n / of_int d \<le> 1 - (2::rat) powi (- 31)" by linarith
qed

lemma f64_round_interior:
  assumes "2 powi (- 31) \<le> x" "x \<le> 1 - 2 powi (- 31)"
  obtains r where "f64_round x = Fin r" "0 < r" "r < 1"
proof -
  have lo: "f64_round (2 powi (- 31)) = Fin (2 powi (- 31))"
    using f64_round_dyadic [of 1 "- 31"] by simp
  have e: "1 - 2 powi (- 31) = (of_int (2 ^ 31 - 1) * 2 powi (- 31) :: rat)"
    by (simp add: powi_31)
  have hi: "f64_round (1 - 2 powi (- 31)) = Fin (1 - 2 powi (- 31))"
    unfolding e by (rule f64_round_dyadic) simp_all
  obtain r where r: "f64_round x = Fin r" "2 powi (- 31) \<le> r" "r \<le> 1 - 2 powi (- 31)"
    using f64_round_mono [OF assms(1)] f64_round_mono [OF assms(2)] lo hi
    by (cases "f64_round x") (auto simp: f64_le_def)
  moreover have "(0::rat) < 2 powi (- 31)" by simp
  ultimately show thesis by (intro that [of r]) linarith+
qed

lemma page_progression_value:
  assumes "0 < pages" "pages \<le> I32_MAX" "I32_MIN \<le> page" "page \<le> I32_MAX"
  obtains r where "page_progression page pages = Some (Fin r)" "0 \<le> r" "r \<le> 1"
    "r = 1 \<longleftrightarrow> pages \<le> page" "r = 0 \<longleftrightarrow> page \<le> 0"
proof -
  have n: "f64_of_int page = Fin (of_int page)" "f64_of_int pages = Fin (of_int pages)"
    using assms by (auto intro!: f64_of_int_exact simp: I32_MAX_def I32_MIN_def)
  have v: "page_progression page pages
      = Some (f64_clamp (f64_round (of_int page / of_int pages)) (Fin 0) (Fin 1))"
    using assms(1) by (simp add: page_progression_def n)
  have d: "(0::rat) < of_int pages" using assms(1) by simp
  consider "page \<le> 0" | "0 < page" "page < pages" | "pages \<le> page" by linarith
  then show thesis
  proof cases
    case 1
    then have "f64_le (f64_round (of_int page / of_int pages)) (Fin 0)"
      using d by (intro f64_round_sign) (simp add: divide_le_0_iff)
    then have "page_progression page pages = Some (Fin 0)"
      unfolding v by (cases "f64_round (of_int page / of_int pages)") (auto simp: f64_clamp_def f64_le_def)
    with 1 assms(1) show thesis by (intro that [of 0]) auto
  next
    case 2
    with assms(1,2) have "pages < 2 ^ 31" by (simp add: I32_MAX_def)
    from f64_round_interior [OF ratio_bounds [OF assms(1) this 2]]
    obtain r where "f64_round (of_int page / of_int pages) = Fin r" "0 < r" "r < 1" .
    then have "page_progression page pages = Some (Fin r)" unfolding v by (simp add: f64_clamp_def)
    with 2 \<open>0 < r\<close> \<open>r < 1\<close> show thesis by (intro that [of r]) auto
  next
    case 3
    then have "(1::rat) \<le> of_int page / of_int pages" using d by (simp add: pos_le_divide_eq)
    from f64_round_mono [OF this] have "f64_le (Fin 1) (f64_round (of_int page / of_int pages))" by simp
    then have "page_progression page pages = Some (Fin 1)"
      unfolding v by (cases "f64_round (of_int page / of_int pages)") (auto simp: f64_clamp_def f64_le_def)
    with 3 assms(1) show thesis by (intro that [of 1]) auto
  qed
qed

lemma page_progression_mono:
  assumes "0 < pages" "pages \<le> I32_MAX" "I32_MIN \<le> page" "page \<le> page'" "page' \<le> I32_MAX"
  shows "f64_le (the (page_progression page pages)) (the (page_progression page' pages))"
proof -
  have "f64_of_int page = Fin (of_int page)" "f64_of_int page' = Fin (of_int page')"
      "f64_of_int pages = Fin (of_int pages)"
    using assms by (auto intro!: f64_of_int_exact simp: I32_MAX_def I32_MIN_def)
  with assms show ?thesis
    by (auto simp: page_progression_def intro!: f64_clamp_mono f64_round_mono divide_right_mono)
qed


lemma clamp_unit_Some: "clamp_unit v = Some x \<Longrightarrow> f64_unit x"
  by (cases v) (auto simp: clamp_unit_def)

lemma decimal_to_f64_unit: "decimal_to_f64 ops d = Some x \<Longrightarrow> f64_unit x"
  by (auto simp: decimal_to_f64_def bind_eq_Some_conv clamp_unit_Some)

lemma bind_clamp_unit: "Option.bind v clamp_unit = Some x \<Longrightarrow> f64_unit x"
  by (auto simp: bind_eq_Some_conv clamp_unit_Some)

lemma time_progression_unit:
  "i64_ok n \<Longrightarrow> i64_ok d \<Longrightarrow> time_progression n d = Some x \<Longrightarrow> f64_unit x"
  using f64_div_of_int_not_NaN [of n d]
  by (auto simp: time_progression_def i64_ok_def split: if_splits)

lemma page_progression_unit:
  "i64_ok n \<Longrightarrow> i64_ok d \<Longrightarrow> page_progression n d = Some x \<Longrightarrow> f64_unit x"
  using time_progression_unit [of n d x] by (simp add: page_progression_def time_progression_def)

lemmas unit_rules = bind_clamp_unit decimal_to_f64_unit time_progression_unit page_progression_unit

lemma or_else_Some: "or_else x y = Some v \<longleftrightarrow> x = Some v \<or> x = None \<and> y = Some v"
  by (cases x) (auto simp: or_else_def)

lemma project_position_unit:
  assumes "position_ok (up_position u)" "publication_ok p"
    "pr_progression (project_position ops u p) = Some x"
  shows "f64_unit x"
  using assms
  by (cases "up_position u")
     (auto simp: project_position_def projection_default_def publication_ok_def or_else_Some
        bind_eq_Some_conv Let_def dest: unit_rules clamp_unit_Some split: option.splits)

lemma project_unit:
  assumes "position_ok (up_position u)" "publication_ok p"
    "pr_progression (project ops u p) = Some x"
  shows "f64_unit x"
  using assms project_position_unit [OF assms(1,2), of ops x]
  by (auto simp: project_def Let_def split: if_splits option.splits)

lemma resolve_unit:
  assumes "\<And>x. pr_progression pr = Some x \<Longrightarrow> f64_unit x"
    "\<And>h. head = Some h \<Longrightarrow> f64_unit (hs_progression h)"
  shows "f64_unit (rs_progression (resolve head pr t))"
  using assms
  by (auto simp: resolve_def Let_def unwrap_or_def split: option.splits)

subsection \<open>Conversions stay inside the mapped chapter and item\<close>

lemma f64_mul_unit:
  assumes "f64_unit w" "0 \<le> n" "n < 2 ^ 53"
  obtains r where "f64_mul w (f64_of_int n) = Fin r" "0 \<le> r" "r \<le> of_int n"
proof -
  obtain q where q: "w = Fin q" "0 \<le> q" "q \<le> 1" using assms(1) by (auto simp: f64_unit_iff)
  have n: "f64_of_int n = Fin (of_int n)" using assms(2,3) by (intro f64_of_int_exact) simp
  have "q * of_int n \<le> (of_int n :: rat)" using q assms(2) by (intro mult_left_le_one_le) auto
  from f64_round_mono [OF this] have "f64_le (f64_round (q * of_int n)) (Fin (of_int n))"
    using n by (simp add: f64_of_int_def)
  moreover have "f64_le (Fin 0) (f64_round (q * of_int n))" using q assms(2) by (intro f64_round_sign) simp
  ultimately show thesis
    using that q n by (cases "f64_round (q * of_int n)") (auto simp: f64_le_def)
qed

lemma round_to_i64:
  assumes "0 \<le> r" "r \<le> of_int n" "n < 2 ^ 53"
  shows "0 \<le> f64_to_i64 (f64_round_int (Fin r))" "f64_to_i64 (f64_round_int (Fin r)) \<le> n"
proof -
  have "\<lfloor>r + 1 / 2\<rfloor> \<le> \<lfloor>of_int n + 1 / 2 :: rat\<rfloor>" using assms(2) by (intro floor_mono) simp
  also have "\<dots> = n" by linarith
  finally have "\<lfloor>r + 1 / 2\<rfloor> \<le> n" .
  moreover have "0 \<le> \<lfloor>r + 1 / 2\<rfloor>" using assms(1) by simp
  ultimately show "0 \<le> f64_to_i64 (f64_round_int (Fin r))" "f64_to_i64 (f64_round_int (Fin r)) \<le> n"
    using assms by auto
qed

lemma max_by_key_None [simp]: "max_by_key f xs = None \<longleftrightarrow> xs = []"
  by (cases xs) (auto split: option.splits)

lemma max_by_key_Some:
  "max_by_key f xs = Some x \<Longrightarrow> x \<in> set xs \<and> (\<forall>y\<in>set xs. f y \<le> f x)"
proof (induction xs arbitrary: x)
  case (Cons z zs)
  then show ?case by (cases "max_by_key f zs") (auto split: if_splits)
qed simp

lemma find_SomeD: "find p xs = Some x \<Longrightarrow> x \<in> set xs \<and> p x"
  by (auto simp: find_Some_iff)

lemma map_locator_to_time_inside:
  assumes "map_locator_to_time ops l spine cs ms = Some m" "spans_ok cs"
  shows "\<exists>e\<in>set ms. \<exists>c\<in>set cs. \<exists>item w p. locate_in_spine ops l spine = Some (item, w)
    \<and> ebook_spine_index e = si_index item \<and> audio_chapter_index e = ac_index c
    \<and> mp_position_ms m = Some p \<and> start_ms c \<le> p \<and> p \<le> end_ms c
    \<and> f64_unit (mp_progression m)"
proof -
  obtain item w e c v where st: "locate_in_spine ops l spine = Some (item, w)"
    "mapped_chapter_index ms (si_index item) = Some e"
    "find (\<lambda>c. ac_index c = audio_chapter_index e) cs = Some c" "0 < duration_ms c"
    "clamp_unit w = Some v" and m: "mp_position_ms m = Some (start_ms c
      + f64_to_i64 (f64_round_int (f64_mul v (f64_of_int (duration_ms c)))))"
    "mp_progression m = unwrap_or (time_progression (the (mp_position_ms m))
       (unwrap_or (max_by_key (\<lambda>x. x) (map end_ms cs)) 0)) (Fin 0)"
    using assms(1)
    by (auto simp: map_locator_to_time_def bind_eq_Some_conv Let_def split: if_splits prod.splits)
  have c: "c \<in> set cs" "ac_index c = audio_chapter_index e" using st(3) by (auto dest: find_SomeD)
  with assms(2) have b: "0 \<le> start_ms c" "end_ms c < 2 ^ 53" by (auto simp: spans_ok_def)
  have e: "e \<in> set ms" "ebook_spine_index e = si_index item"
    using st(2) by (auto simp: mapped_chapter_index_def dest: find_SomeD)
  have d: "0 \<le> duration_ms c" "duration_ms c < 2 ^ 53" using st(4) b by (auto simp: duration_ms_def)
  obtain r where r: "f64_mul v (f64_of_int (duration_ms c)) = Fin r" "0 \<le> r" "r \<le> of_int (duration_ms c)"
    by (rule f64_mul_unit [OF clamp_unit_Some [OF st(5)] d])
  define p where "p = the (mp_position_ms m)"
  have p: "mp_position_ms m = Some p" "start_ms c \<le> p" "p \<le> end_ms c"
    using m(1) round_to_i64 [OF r(2,3) d(2)] r(1) by (auto simp: p_def duration_ms_def)
  obtain g where g: "max_by_key (\<lambda>x. x) (map end_ms cs) = Some g"
    using c(1) by (cases "max_by_key (\<lambda>x. x) (map end_ms cs)") auto
  then have "g < 2 ^ 53" "end_ms c \<le> g"
    using max_by_key_Some [OF g] assms(2) c(1) by (auto simp: spans_ok_def)
  then have "i64_ok g" "i64_ok p" using p b by (auto simp: i64_ok_def)
  then have "f64_unit (mp_progression m)"
    using time_progression_unit [of p g] m(2) g p(1)
    by (cases "time_progression p g") (auto simp: unwrap_or_def)
  with st(1) c(1) c(2) [symmetric] e p show ?thesis by blast
qed


lemma chars_nonneg [simp]: "0 \<le> chars item"
  by (simp add: chars_def)

lemma sum_chars_nonneg [simp]: "0 \<le> sum_list (map chars spine)"
  by (induction spine) auto

lemma spine_offsets_split:
  assumes "spine_offsets spine i = Some (before, whole)"
    "find (\<lambda>item. si_index item = i) spine = Some item"
  shows "0 \<le> before" "before + chars item \<le> sum_list (map chars spine)"
    "whole = max (sum_list (map chars spine)) 1"
proof -
  have b: "before = sum_list (map chars (takeWhile (\<lambda>item. si_index item \<noteq> i) spine))"
    and w: "whole = max (sum_list (map chars spine)) 1"
    using assms(1) by (auto simp: spine_offsets_def Let_def split: if_splits)
  from assms(2) have "before + chars item \<le> sum_list (map chars spine)"
    unfolding b by (induction spine) (auto split: if_splits)
  then show "before + chars item \<le> sum_list (map chars spine)" .
  show "0 \<le> before" by (simp add: b)
  show "whole = max (sum_list (map chars spine)) 1" by (rule w)
qed

lemma f64_add_exact_bounds:
  assumes "0 \<le> b" "0 \<le> n" "b + n < 2 ^ 53" "0 \<le> r" "r \<le> of_int n"
  obtains s where "f64_add (f64_of_int b) (Fin r) = Fin s" "of_int b \<le> s" "s \<le> of_int (b + n)"
proof -
  have b: "f64_of_int b = Fin (of_int b)" "f64_of_int (b + n) = Fin (of_int (b + n))"
    using assms by (intro f64_of_int_exact; simp)+
  have "of_int b \<le> of_int b + r" "of_int b + r \<le> of_int (b + n)" using assms by simp_all
  from this [THEN f64_round_mono] show thesis
    using that b by (cases "f64_round (of_int b + r)") (auto simp: f64_of_int_def f64_le_def)
qed

lemma fraction_exact:
  "0 \<le> n \<Longrightarrow> n < 2 ^ 53 \<Longrightarrow> 0 < d \<Longrightarrow> d < 2 ^ 53 \<Longrightarrow> fraction n d = f64_round (of_int n / of_int d)"
  using f64_of_int_exact [of n] f64_of_int_exact [of d] by (simp add: fraction_def)

lemma item_progression_bounds:
  assumes "0 \<le> b" "b + chars item \<le> t" "t < 2 ^ 53" "f64_unit w"
    "clamp_unit (f64_div (f64_add (f64_of_int b) (f64_mul w (f64_of_int (chars item))))
       (f64_of_int (max t 1))) = Some x"
  shows "f64_le (fraction b (max t 1)) x" "f64_le x (fraction (b + chars item) (max t 1))"
proof -
  have c: "0 \<le> chars item" "chars item < 2 ^ 53" using assms(1-3) by auto
  obtain r where r: "f64_mul w (f64_of_int (chars item)) = Fin r" "0 \<le> r" "r \<le> of_int (chars item)"
    by (rule f64_mul_unit [OF assms(4) c])
  obtain s where s: "f64_add (f64_of_int b) (Fin r) = Fin s" "of_int b \<le> s"
      "s \<le> of_int (b + chars item)"
    by (rule f64_add_exact_bounds [OF assms(1) c(1) _ r(2,3)]) (use assms(2,3) in auto)
  define d where "d = max t 1"
  have d: "0 < d" "d < 2 ^ 53" "b + chars item \<le> d" using assms(2,3) by (auto simp: d_def)
  then have D: "f64_of_int d = Fin (of_int d)" "(0::rat) < of_int d"
    by (auto intro!: f64_of_int_exact)
  have "s \<le> of_int d" using s(3) d(3) by (meson of_int_le_iff order_trans)
  moreover have "0 \<le> s" using s(2) assms(1) by (meson of_int_0_le_iff order_trans)
  ultimately have u: "f64_unit (f64_round (s / of_int d))"
    using D(2) by (intro f64_round_unit) (auto simp: pos_divide_le_eq)
  then have x: "x = f64_round (s / of_int d)"
    using assms(5) r(1) s(1) D d(1) by (auto simp: clamp_unit_def f64_clamp_id d_def split: if_splits)
  have "of_int b / of_int d \<le> s / of_int d" "s / of_int d \<le> of_int (b + chars item) / of_int d"
    using s D(2) by (auto intro!: divide_right_mono)
  moreover have "b < 2 ^ 53" using c(1) d(2,3) by linarith
  ultimately show "f64_le (fraction b (max t 1)) x" "f64_le x (fraction (b + chars item) (max t 1))"
    using assms(1) c d f64_round_mono unfolding x d_def [symmetric] by (simp_all add: fraction_exact)
qed

lemma map_time_to_locator_inside:
  assumes "map_time_to_locator ops t cs spine ms = Some m" "spine_ok spine"
  shows "\<exists>c\<in>set cs. \<exists>e\<in>set ms. \<exists>item\<in>set spine. \<exists>before.
    chapter_at cs t = Some c \<and> audio_chapter_index e = ac_index c
    \<and> ebook_spine_index e = si_index item
    \<and> map_option href (mp_locator m) = Some (si_href item)
    \<and> spine_offsets spine (si_index item) = Some (before, max (sum_list (map chars spine)) 1)
    \<and> f64_le (fraction before (max (sum_list (map chars spine)) 1)) (mp_progression m)
    \<and> f64_le (mp_progression m)
        (fraction (before + chars item) (max (sum_list (map chars spine)) 1))"
proof -
  obtain c e item b w v where st: "chapter_at cs t = Some c"
    "mapped_spine_index ms (ac_index c) = Some e"
    "find (\<lambda>item. si_index item = ebook_spine_index e) spine = Some item"
    "spine_offsets spine (si_index item) = Some (b, w)"
    "clamp_unit (f64_div (f64_of_int (t - start_ms c)) (f64_of_int (duration_ms c))) = Some v"
    "clamp_unit (f64_div (f64_add (f64_of_int b) (f64_mul v (f64_of_int (chars item))))
       (f64_of_int w)) = Some (mp_progression m)"
    and h: "map_option href (mp_locator m) = Some (si_href item)"
    using assms(1)
    by (auto simp: map_time_to_locator_def bind_eq_Some_conv Let_def split: prod.splits)
  have c: "c \<in> set cs" using st(1) by (auto simp: chapter_at_def dest: max_by_key_Some)
  have e: "e \<in> set ms" "audio_chapter_index e = ac_index c"
    using st(2) by (auto simp: mapped_spine_index_def dest: find_SomeD)
  have i: "item \<in> set spine" "ebook_spine_index e = si_index item"
    using st(3) by (auto dest: find_SomeD)
  note o = spine_offsets_split [OF st(4) st(3) [unfolded i(2)]]
  from item_progression_bounds [OF o(1,2) _ clamp_unit_Some [OF st(5)] st(6) [unfolded o(3)]] assms(2)
  show ?thesis using c e i st(1,4) h o(3) unfolding spine_ok_def by metis
qed


lemma clamp_unit_quotient:
  assumes "0 \<le> q" "q \<le> 2 ^ 53" "0 \<le> b" "b < 2 ^ 53" "0 < n" "n < 2 ^ 53"
  obtains w where
    "clamp_unit (f64_div (f64_sub (Fin q) (f64_of_int b)) (f64_of_int n)) = Some w" "f64_unit w"
proof -
  have I: "f64_of_int b = Fin (of_int b)" "f64_of_int n = Fin (of_int n)"
    using assms by (simp_all add: f64_of_int_exact)
  have B: "(0::rat) \<le> of_int b" "(of_int b :: rat) \<le> 2 ^ 53"
    using assms(3,4) of_int_le_iff [of b "2 ^ 53", where 'a = rat] by simp_all
  then have "\<bar>q + - of_int b\<bar> \<le> 2 ^ 64" using assms(1,2) by (simp add: abs_le_iff)
  then obtain r where r: "f64_round (q + - of_int b) = Fin r" "\<bar>r\<bar> \<le> 2 ^ 64"
    by (rule f64_round_finite)
  have "(1::rat) \<le> of_int n" using assms(5) by simp
  then have "\<bar>r / of_int n\<bar> \<le> \<bar>r\<bar> / 1"
    unfolding abs_divide by (intro divide_left_mono) auto
  with r(2) have "\<bar>r / of_int n\<bar> \<le> 2 ^ 64" by simp
  then obtain s where s: "f64_round (r / of_int n) = Fin s" by (rule f64_round_finite)
  have "clamp_unit (f64_div (f64_sub (Fin q) (f64_of_int b)) (f64_of_int n))
      = Some (f64_clamp (Fin s) (Fin 0) (Fin 1))"
    using assms(5) r(1) s by (simp add: I f64_sub_def clamp_unit_def)
  then show thesis by (rule that) simp
qed

lemma locate_by_total_Some:
  assumes "xs \<noteq> []" "last_index = si_index (last xs)" "0 \<le> b"
    "b + sum_list (map chars xs) < 2 ^ 53" "0 \<le> q" "q \<le> 2 ^ 53"
  shows "\<exists>item w. locate_by_total (Fin q) last_index b xs = Some (item, w)
    \<and> item \<in> set xs \<and> f64_unit w"
  using assms(1-4)
proof (induction xs arbitrary: b)
  case (Cons x xs)
  have nn: "0 \<le> sum_list (map chars xs)" "0 \<le> chars x" by simp_all
  show ?case
  proof (cases "f64_lt (Fin q) (f64_of_int (b + chars x)) \<or> si_index x = last_index")
    case True
    show ?thesis
    proof (cases "0 < chars x")
      case n: True
      have "b + (chars x + sum_list (map chars xs)) < 2 ^ 53" using Cons.prems(4) by simp
      then have "b < 2 ^ 53" "chars x < 2 ^ 53" using Cons.prems(3) nn by linarith+
      with Cons.prems(3) n obtain w where "clamp_unit (f64_div (f64_sub (Fin q) (f64_of_int b))
          (f64_of_int (chars x))) = Some w" "f64_unit w"
        using clamp_unit_quotient [OF assms(5,6)] by metis
      with True n show ?thesis by auto
    qed (use True in auto)
  next
    case False
    then have "xs \<noteq> []" using Cons.prems(2) by auto
    with Cons.IH [of "b + chars x"] Cons.prems False show ?thesis by (auto simp: add.assoc)
  qed
qed simp

lemma locate_in_spine_Some:
  assumes "spine \<noteq> []" "spine_ok spine"
    "Option.bind (Option.bind (locations l) total_progression) (decimal_to_f64 ops) = Some t"
  shows "\<exists>item w. locate_in_spine ops l spine = Some (item, w) \<and> item \<in> set spine \<and> f64_unit w"
proof -
  define n where "n = max (sum_list (map chars spine)) 1"
  have n: "0 \<le> n" "n < 2 ^ 53" using assms(2) by (auto simp: n_def spine_ok_def)
  have "f64_unit t" using assms(3) by (auto simp: bind_eq_Some_conv dest: decimal_to_f64_unit)
  then obtain q where q: "f64_mul t (f64_of_int n) = Fin q" "0 \<le> q" "q \<le> of_int n"
    using n by (rule f64_mul_unit)
  have "(of_int n :: rat) \<le> of_int (2 ^ 53)" using n(2) by (simp only: of_int_le_iff)
  with q(3) have "q \<le> 2 ^ 53" by simp
  with assms(1,2) q(2) have "\<exists>item w. locate_by_total (Fin q) (si_index (last spine)) 0 spine
      = Some (item, w) \<and> item \<in> set spine \<and> f64_unit w"
    by (intro locate_by_total_Some) (auto simp: spine_ok_def)
  moreover have "f64_unit (unwrap_or (Option.bind (locations l)
      (\<lambda>y. Option.bind (loc_progression y) (decimal_to_f64 ops))) (Fin 0))"
    by (auto simp: unwrap_or_def bind_eq_Some_conv dest: decimal_to_f64_unit split: option.splits)
  ultimately show ?thesis
    using assms(3) q(1)
    by (auto simp: locate_in_spine_def Let_def n_def dest: find_SomeD split: option.splits if_splits)
qed

section \<open>Properties\<close>

text \<open>
  A concrete book of two items, a recording of one chapter and the map between them; the
  decimals of the example are the texts \<open>0\<close>, \<open>0.5\<close> and \<open>1\<close>.
\<close>

definition example_decimals :: decimal_ops where
  "example_decimals =
     \<lparr>dec_try_from = (\<lambda>x. if x = Fin 0 then Some ''0'' else if x = Fin 1 then Some ''1''
        else if x = Fin (1 / 2) then Some ''0.5'' else None),
      dec_parse = (\<lambda>d. if d = ''0'' then Some (Fin 0) else if d = ''1'' then Some (Fin 1)
        else if d = ''0.5'' then Some (Fin (1 / 2)) else None)\<rparr>"

definition example_spine :: "spine_item list" where
  "example_spine =
     [\<lparr>si_index = 0, si_href = lit ''1.xhtml'', char_count = 8\<rparr>,
      \<lparr>si_index = 1, si_href = lit ''11.xhtml'', char_count = 16\<rparr>]"

definition example_chapters :: "audio_chapter_span list" where
  "example_chapters = [\<lparr>ac_index = 0, start_ms = 1000, end_ms = 2000\<rparr>]"

definition example_mappings :: "chapter_mapping list" where
  "example_mappings =
     [\<lparr>ebook_spine_index = 1, audio_chapter_index = 0, mapping_confidence = Fin 1\<rparr>]"

definition example_locator :: "ustr \<Rightarrow> decimal option \<Rightarrow> readium_locator" where
  "example_locator h p =
     \<lparr>chapter_title = [], href = h, locator_title = None,
      locations = Some \<lparr>fragments = None, loc_progression = p, loc_position = None,
        total_progression = p, css_selector = None, partial_cfi = None\<rparr>,
      locator_text = None, kobo_span = None, locator_type = lit ''application/xhtml+xml''\<rparr>"

lemmas example_defs = example_decimals_def example_spine_def example_chapters_def
  example_mappings_def example_locator_def

text \<open>
  The progression of a page is a number between 0 and 1; it is 1 exactly from the last
  page on, 0 exactly up to page 0, and never decreases from one page to a later one. The
  division is carried out in binary64 with its rounding, over the whole range of \<open>i32\<close>.
\<close>

theorem page_progression_exact:
  assumes "0 < pages" "pages \<le> I32_MAX" "I32_MIN \<le> page" "page \<le> page'" "page' \<le> I32_MAX"
  shows "\<exists>r r'. page_progression page pages = Some (Fin r)
    \<and> page_progression page' pages = Some (Fin r')
    \<and> 0 \<le> r \<and> r \<le> r' \<and> r' \<le> 1 \<and> (r = 1 \<longleftrightarrow> pages \<le> page) \<and> (r = 0 \<longleftrightarrow> page \<le> 0)"
proof -
  obtain r where r: "page_progression page pages = Some (Fin r)" "0 \<le> r" "r \<le> 1"
      "r = 1 \<longleftrightarrow> pages \<le> page" "r = 0 \<longleftrightarrow> page \<le> 0"
    by (rule page_progression_value [of pages page]) (use assms in auto)
  obtain r' where r': "page_progression page' pages = Some (Fin r')" "0 \<le> r'" "r' \<le> 1"
      "r' = 1 \<longleftrightarrow> pages \<le> page'" "r' = 0 \<longleftrightarrow> page' \<le> 0"
    by (rule page_progression_value [of pages page']) (use assms in auto)
  from page_progression_mono [OF assms] r r' show ?thesis by auto
qed

theorem page_progression_exact_witness:
  "page_progression 299 300 \<noteq> Some (Fin 1) \<and> page_progression 300 300 = Some (Fin 1)"
  using page_progression_exact [of 300 299 300] page_progression_exact [of 300 300 300]
  by (auto simp: I32_MAX_def I32_MIN_def)

text \<open>
  Ebook to audiobook: a converted position lies between the start and the end of a chapter
  that the chapter map pairs with the spine item the locator is in, and its progression is
  between 0 and 1.
\<close>

theorem map_locator_to_time_in_chapter:
  assumes "map_locator_to_time ops l spine chapters mappings = Some m" "spans_ok chapters"
  shows "\<exists>e\<in>set mappings. \<exists>c\<in>set chapters. \<exists>item w p.
    locate_in_spine ops l spine = Some (item, w)
    \<and> ebook_spine_index e = si_index item \<and> audio_chapter_index e = ac_index c
    \<and> mp_position_ms m = Some p \<and> start_ms c \<le> p \<and> p \<le> end_ms c
    \<and> f64_unit (mp_progression m)"
  using assms by (rule map_locator_to_time_inside)

theorem map_locator_to_time_in_chapter_witness:
  "\<exists>m. map_locator_to_time example_decimals (example_locator [] (Some ''0.5''))
      example_spine example_chapters example_mappings = Some m
    \<and> mp_position_ms m = Some 1250 \<and> f64_unit (mp_progression m)"
proof -
  obtain m where m: "map_locator_to_time example_decimals (example_locator [] (Some ''0.5''))
      example_spine example_chapters example_mappings = Some m" "mp_position_ms m = Some 1250"
  proof -
    have "map_option mp_position_ms (map_locator_to_time example_decimals
        (example_locator [] (Some ''0.5'')) example_spine example_chapters example_mappings)
        = Some (Some 1250)"
      by code_simp
    then show thesis using that by auto
  qed
  have "spans_ok example_chapters" by (simp add: spans_ok_def example_chapters_def)
  from map_locator_to_time_in_chapter [OF m(1) this] m show ?thesis by auto
qed

text \<open>
  Audiobook to ebook: the converted locator points at the spine item that the chapter map
  pairs with the chapter containing the position, and its whole-book progression lies between
  the fractions of the book before that item and up to its end.
\<close>

theorem map_time_to_locator_in_item:
  assumes "map_time_to_locator ops t chapters spine mappings = Some m" "spine_ok spine"
  shows "\<exists>c\<in>set chapters. \<exists>e\<in>set mappings. \<exists>item\<in>set spine. \<exists>before.
    chapter_at chapters t = Some c \<and> audio_chapter_index e = ac_index c
    \<and> ebook_spine_index e = si_index item
    \<and> map_option href (mp_locator m) = Some (si_href item)
    \<and> spine_offsets spine (si_index item) = Some (before, max (sum_list (map chars spine)) 1)
    \<and> f64_le (fraction before (max (sum_list (map chars spine)) 1)) (mp_progression m)
    \<and> f64_le (mp_progression m)
        (fraction (before + chars item) (max (sum_list (map chars spine)) 1))"
  using assms by (rule map_time_to_locator_inside)

theorem map_time_to_locator_in_item_witness:
  "\<exists>m. map_time_to_locator example_decimals 2000 example_chapters example_spine example_mappings
      = Some m \<and> f64_le (mp_progression m) (fraction 24 24)"
proof -
  obtain m where m: "map_time_to_locator example_decimals 2000 example_chapters example_spine
      example_mappings = Some m"
  proof -
    have "map_option mp_progression (map_time_to_locator example_decimals 2000 example_chapters
        example_spine example_mappings) = Some (Fin 1)"
      by code_simp
    then show thesis using that by auto
  qed
  have "spine_ok example_spine" by (simp add: spine_ok_def example_spine_def chars_def)
  from map_time_to_locator_in_item [OF m this] m show ?thesis
    by (auto simp: example_defs chars_def spine_offsets_def mapped_spine_index_def)
qed

text \<open>
  A locator that carries nothing but a whole-book progression, as a Kobo or KOReader state
  does, is always located: in a non-empty spine the search ends at an item of it, with a
  fraction between 0 and 1.
\<close>

theorem locate_progress_only:
  assumes "spine \<noteq> []" "spine_ok spine"
    "Option.bind (Option.bind (locations l) total_progression) (decimal_to_f64 ops) = Some t"
  shows "\<exists>item w. locate_in_spine ops l spine = Some (item, w) \<and> item \<in> set spine \<and> f64_unit w"
  using assms by (rule locate_in_spine_Some)

theorem locate_progress_only_witness:
  "\<exists>item w. locate_in_spine example_decimals (example_locator [] (Some ''1'')) example_spine
      = Some (item, w) \<and> item \<in> set example_spine \<and> f64_unit w"
  by (rule locate_progress_only [where t = "Fin 1"])
     (simp_all add: example_defs spine_ok_def chars_def decimal_to_f64_def clamp_unit_def
        f64_clamp_def)


end
