(* ===== verification/Keyed_Table.thy ===== *)
theory Keyed_Table
  imports Prelude
begin

text \<open>
  A database table with a primary key, as the services use one: a lookup by key, an insert of
  a row whose key is absent, an update of the row with the same key, and a deletion by
  predicate. The interface is the locale; \<open>row_at\<close>, \<open>insert_row\<close>, \<open>update_row\<close> and
  \<open>delete_rows\<close> implement it on the list of the table's rows.
\<close>

locale keyed_table =
  fixes key :: "'r \<Rightarrow> 'k"
    and rows :: "'t \<Rightarrow> 'r set"
    and lookup :: "'k \<Rightarrow> 't \<Rightarrow> 'r option"
    and insert_r :: "'r \<Rightarrow> 't \<Rightarrow> 't"
    and update_r :: "'r \<Rightarrow> 't \<Rightarrow> 't"
    and invar :: "'t \<Rightarrow> bool"
  assumes lookup_rows: "invar t \<Longrightarrow> lookup k t = Some r \<longleftrightarrow> r \<in> rows t \<and> key r = k"
    and rows_insert: "invar t \<Longrightarrow> lookup (key r) t = None \<Longrightarrow> rows (insert_r r t) = insert r (rows t)"
    and rows_update: "invar t \<Longrightarrow> lookup (key r) t \<noteq> None
      \<Longrightarrow> rows (update_r r t) = insert r {q \<in> rows t. key q \<noteq> key r}"
    and invar_insert: "invar t \<Longrightarrow> lookup (key r) t = None \<Longrightarrow> invar (insert_r r t)"
    and invar_update: "invar t \<Longrightarrow> invar (update_r r t)"
begin

text \<open>Write a row whether or not one with its key exists: what the services call an upsert.\<close>

definition write_r :: "'r \<Rightarrow> 't \<Rightarrow> 't" where
  "write_r r t = (if lookup (key r) t = None then insert_r r t else update_r r t)"

lemma invar_write: "invar t \<Longrightarrow> invar (write_r r t)"
  by (simp add: write_r_def invar_insert invar_update)

lemma lookup_None: "invar t \<Longrightarrow> lookup k t = None \<longleftrightarrow> (\<forall>r\<in>rows t. key r \<noteq> k)"
  by (metis lookup_rows option.exhaust option.distinct(1))

lemma rows_write: "invar t \<Longrightarrow> rows (write_r r t) = insert r {q \<in> rows t. key q \<noteq> key r}"
  by (auto simp: write_r_def rows_insert rows_update lookup_None)

lemma lookup_write: "invar t \<Longrightarrow> lookup k (write_r r t) = (if k = key r then Some r else lookup k t)"
proof -
  assume t: "invar t"
  then have w: "invar (write_r r t)" by (rule invar_write)
  have "lookup k (write_r r t) = Some q \<longleftrightarrow> (if k = key r then Some r else lookup k t) = Some q" for q
    using lookup_rows [OF w] lookup_rows [OF t] rows_write [OF t] by auto
  then show ?thesis by (metis not_None_eq)
qed

lemma rows_unique: "invar t \<Longrightarrow> r \<in> rows t \<Longrightarrow> q \<in> rows t \<Longrightarrow> key r = key q \<Longrightarrow> r = q"
  by (metis lookup_rows option.inject)

end

section \<open>The table as the list of its rows\<close>

definition row_at :: "('r \<Rightarrow> 'k) \<Rightarrow> 'k \<Rightarrow> 'r list \<Rightarrow> 'r option" where
  "row_at key k t = find (\<lambda>r. key r = k) t"

definition insert_row :: "'r \<Rightarrow> 'r list \<Rightarrow> 'r list" where
  "insert_row r t = t @ [r]"

definition update_row :: "('r \<Rightarrow> 'k) \<Rightarrow> 'r \<Rightarrow> 'r list \<Rightarrow> 'r list" where
  "update_row key r t = map (\<lambda>q. if key q = key r then r else q) t"

definition delete_rows :: "('r \<Rightarrow> bool) \<Rightarrow> 'r list \<Rightarrow> 'r list" where
  "delete_rows p t = filter (\<lambda>r. \<not> p r) t"

definition upsert_row :: "('r \<Rightarrow> 'k) \<Rightarrow> 'r \<Rightarrow> 'r list \<Rightarrow> 'r list" where
  "upsert_row key r t = (if row_at key (key r) t = None then insert_row r t else update_row key r t)"

definition unique_key :: "('r \<Rightarrow> 'k) \<Rightarrow> 'r list \<Rightarrow> bool" where
  "unique_key key t \<longleftrightarrow> distinct (map key t)"

lemma unique_key_Nil [simp]: "unique_key key []"
  by (simp add: unique_key_def)

lemma row_at_iff:
  "unique_key key t \<Longrightarrow> row_at key k t = Some r \<longleftrightarrow> r \<in> set t \<and> key r = k"
  unfolding row_at_def unique_key_def by (induction t) (auto simp: rev_image_eqI)

lemma row_at_None: "row_at key k t = None \<longleftrightarrow> (\<forall>r\<in>set t. key r \<noteq> k)"
  by (auto simp: row_at_def find_None_iff)

lemma row_at_map: "(\<And>r. key (f r) = key r) \<Longrightarrow> row_at key k (map f t) = map_option f (row_at key k t)"
  by (induction t) (simp_all add: row_at_def)

lemma unique_key_delete: "unique_key key t \<Longrightarrow> unique_key key (delete_rows p t)"
  by (simp add: unique_key_def delete_rows_def distinct_map_filter)

lemma map_key_update_row: "map key (update_row key r t) = map key t"
  by (simp add: update_row_def)

lemma row_at_delete:
  "unique_key key t \<Longrightarrow> row_at key k (delete_rows p t)
     = (case row_at key k t of Some r \<Rightarrow> if p r then None else Some r | None \<Rightarrow> None)"
proof -
  assume t: "unique_key key t"
  have "row_at key k (delete_rows p t) = Some r \<longleftrightarrow> row_at key k t = Some r \<and> \<not> p r" for r
    unfolding row_at_iff [OF t] row_at_iff [OF unique_key_delete [OF t]]
    by (auto simp: delete_rows_def)
  then have "row_at key k (delete_rows p t) = Some r
      \<longleftrightarrow> (case row_at key k t of Some r \<Rightarrow> if p r then None else Some r | None \<Rightarrow> None) = Some r" for r
    by (auto split: option.split)
  then show ?thesis by (metis not_None_eq)
qed

lemma keyed_table_rows:
  "keyed_table key set (row_at key) insert_row (update_row key) (unique_key key)"
proof unfold_locales
  fix t k r
  assume t: "unique_key key t"
  show "row_at key k t = Some r \<longleftrightarrow> r \<in> set t \<and> key r = k" by (rule row_at_iff [OF t])
  show "unique_key key (update_row key r t)" using t by (simp only: unique_key_def map_key_update_row)
  {
    assume "row_at key (key r) t = None"
    then show "unique_key key (insert_row r t)" "set (insert_row r t) = insert r (set t)"
      using t by (auto simp: unique_key_def insert_row_def row_at_None)
  }
  {
    assume "row_at key (key r) t \<noteq> None"
    then show "set (update_row key r t) = insert r {q \<in> set t. key q \<noteq> key r}"
      by (auto simp: update_row_def row_at_None)
  }
qed

end
