(* ===== verification/Reading_Heads.thy ===== *)
theory Reading_Heads
  imports Reading_State Keyed_Table
begin

text \<open>
  \<^verbatim>\<open>crates/models/src/services/reading_state.rs\<close>: one head per user and publication and the
  append-only provenance log behind it. The state is the two tables; an operation of the
  service is a function of the server's clock and the state, run inside the caller's
  transaction. The database assigns event ids in ascending order.
\<close>

section \<open>The tables\<close>

record reading_head =
  rh_user_id :: ustr
  rh_media_id :: ustr
  rh_locator :: "readium_locator option"
  rh_progression :: f64
  rh_page :: "int option"
  rh_position_ms :: "int option"
  rh_track_index :: "int option"
  rh_completed :: bool
  rh_updated_at :: int
  rh_created_at :: int
  rh_changed_at :: int
  rh_source_protocol :: source_protocol
  rh_source_device_id :: "string option"
  rh_revision :: int
  rh_event_id :: int

record reading_head_event =
  ev_id :: int
  ev_user_id :: ustr
  ev_media_id :: ustr
  ev_protocol :: source_protocol
  ev_device_id :: "string option"
  ev_raw_payload :: json
  ev_locator :: "readium_locator option"
  ev_progression :: "f64 option"
  ev_page :: "int option"
  ev_position_ms :: "int option"
  ev_track_index :: "int option"
  ev_completed :: "bool option"
  ev_timestamp_kind :: timestamp_kind
  ev_source_updated_at :: int
  ev_received_at :: int
  ev_applied :: bool

record reading_db =
  db_heads :: "reading_head list"
  db_events :: "reading_head_event list"
  db_next_event :: int

definition empty_reading_db :: reading_db where
  "empty_reading_db = \<lparr>db_heads = [], db_events = [], db_next_event = 1\<rparr>"

definition head_key :: "reading_head \<Rightarrow> ustr \<times> ustr" where
  "head_key h = (rh_user_id h, rh_media_id h)"

definition insert_event ::
  "(int \<Rightarrow> reading_head_event) \<Rightarrow> reading_db \<Rightarrow> reading_db \<times> reading_head_event" where
  "insert_event active db =
     (let e = active (db_next_event db)
      in (db\<lparr>db_events := insert_row e (db_events db), db_next_event := db_next_event db + 1\<rparr>, e))"

interpretation head_rows: keyed_table head_key set "row_at head_key" insert_row
  "update_row head_key" "unique_key head_key"
  by (rule keyed_table_rows)

interpretation event_rows: keyed_table ev_id set "row_at ev_id" insert_row
  "update_row ev_id" "unique_key ev_id"
  by (rule keyed_table_rows)

section \<open>The service\<close>

record applied =
  ap_head :: reading_head
  ap_event :: reading_head_event
  ap_outcome :: outcome

definition accepted :: "applied \<Rightarrow> bool" where
  "accepted a \<longleftrightarrow> ap_outcome a = Accepted"

definition head :: "reading_db \<Rightarrow> ustr \<Rightarrow> ustr \<Rightarrow> reading_head option" where
  "head db user_id media_id = row_at head_key (user_id, media_id) (db_heads db)"

definition head_state_of :: "reading_head \<Rightarrow> head_state" where
  "head_state_of h =
     \<lparr>hs_updated_at = rh_updated_at h, hs_progression = rh_progression h,
      hs_completed = rh_completed h\<rparr>"

definition effective_time :: "int \<Rightarrow> protocol_update \<Rightarrow> int \<times> timestamp_kind" where
  "effective_time now u = (case up_updated_at u of Some t \<Rightarrow> (t, Device) | None \<Rightarrow> (now, Server))"

definition update_event ::
  "int \<Rightarrow> ustr \<Rightarrow> ustr \<Rightarrow> protocol_update \<Rightarrow> projection \<Rightarrow> resolved \<Rightarrow> int \<Rightarrow> reading_head_event" where
  "update_event now user_id media_id u pr rs n =
     \<lparr>ev_id = n, ev_user_id = user_id, ev_media_id = media_id, ev_protocol = up_protocol u,
      ev_device_id = up_device_id u, ev_raw_payload = up_raw_payload u,
      ev_locator = pr_locator pr, ev_progression = pr_progression pr, ev_page = pr_page pr,
      ev_position_ms = pr_position_ms pr, ev_track_index = pr_track_index pr,
      ev_completed = pr_completed pr, ev_timestamp_kind = snd (effective_time now u),
      ev_source_updated_at = fst (effective_time now u), ev_received_at = now,
      ev_applied = (rs_outcome rs = Accepted)\<rparr>"

definition active_head ::
  "int \<Rightarrow> ustr \<Rightarrow> ustr \<Rightarrow> protocol_update \<Rightarrow> projection \<Rightarrow> resolved \<Rightarrow> int \<Rightarrow> reading_head option
     \<Rightarrow> reading_head" where
  "active_head now user_id media_id u pr rs event_id previous =
     \<lparr>rh_user_id = user_id, rh_media_id = media_id,
      rh_locator = or_else (pr_locator pr) (Option.bind previous rh_locator),
      rh_progression = rs_progression rs,
      rh_page = or_else (pr_page pr) (Option.bind previous rh_page),
      rh_position_ms = or_else (pr_position_ms pr) (Option.bind previous rh_position_ms),
      rh_track_index = or_else (pr_track_index pr) (Option.bind previous rh_track_index),
      rh_completed = rs_completed rs,
      rh_updated_at = fst (effective_time now u),
      rh_created_at = (case previous of Some h \<Rightarrow> rh_created_at h | None \<Rightarrow> now),
      rh_changed_at = now, rh_source_protocol = up_protocol u,
      rh_source_device_id = up_device_id u,
      rh_revision = (case previous of Some h \<Rightarrow> i32_wrap (rh_revision h + 1) | None \<Rightarrow> 1),
      rh_event_id = event_id\<rparr>"

text \<open>
  \<open>None\<close> as the result stands for the branch the code marks unreachable; an addition that
  overflows \<open>revision\<close> wraps, as in a release build.
\<close>

definition apply_update ::
  "decimal_ops \<Rightarrow> int \<Rightarrow> ustr \<Rightarrow> publication \<Rightarrow> protocol_update \<Rightarrow> reading_db
     \<Rightarrow> reading_db \<times> applied option" where
  "apply_update ops now user_id publication u db =
     (let media_id = pub_media_id publication;
          pr = project ops u publication;
          existing = head db user_id media_id;
          rs = resolve (map_option head_state_of existing) pr (fst (effective_time now u));
          (db, event) = insert_event (update_event now user_id media_id u pr rs) db
      in case (existing, rs_outcome rs) of
           (Some h, ProvenanceOnly) \<Rightarrow>
             (db, Some \<lparr>ap_head = h, ap_event = event, ap_outcome = ProvenanceOnly\<rparr>)
         | (_, Accepted) \<Rightarrow>
             let active = active_head now user_id media_id u pr rs (ev_id event) existing
             in (db\<lparr>db_heads := (if existing \<noteq> None then update_row head_key active (db_heads db)
                                 else insert_row active (db_heads db))\<rparr>,
                 Some \<lparr>ap_head = active, ap_event = event, ap_outcome = Accepted\<rparr>)
         | (None, ProvenanceOnly) \<Rightarrow> (db, None))"

definition heads :: "reading_db \<Rightarrow> ustr \<Rightarrow> ustr list \<Rightarrow> (ustr \<times> reading_head) list" where
  "heads db user_id media_ids =
     (if media_ids = [] then []
      else map (\<lambda>h. (rh_media_id h, h))
             (filter (\<lambda>h. rh_user_id h = user_id \<and> rh_media_id h \<in> set media_ids) (db_heads db)))"

definition heads_since :: "reading_db \<Rightarrow> ustr \<Rightarrow> int \<Rightarrow> reading_head list" where
  "heads_since db user_id since =
     sort_key (\<lambda>h. (rh_changed_at h, rh_media_id h))
       (filter (\<lambda>h. rh_user_id h = user_id \<and> rh_changed_at h > since) (db_heads db))"

definition latest_event ::
  "reading_db \<Rightarrow> ustr \<Rightarrow> ustr \<Rightarrow> source_protocol \<Rightarrow> reading_head_event option" where
  "latest_event db user_id media_id protocol =
     max_by_key ev_id
       (filter (\<lambda>e. ev_user_id e = user_id \<and> ev_media_id e = media_id \<and> ev_protocol e = protocol)
         (db_events db))"

definition winning_event :: "reading_db \<Rightarrow> reading_head \<Rightarrow> reading_head_event option" where
  "winning_event db h = row_at ev_id (rh_event_id h) (db_events db)"

definition cleared_event ::
  "int \<Rightarrow> ustr \<Rightarrow> source_protocol \<Rightarrow> string option \<Rightarrow> reading_head \<Rightarrow> int \<Rightarrow> reading_head_event" where
  "cleared_event now user_id protocol device_id h n =
     \<lparr>ev_id = n, ev_user_id = user_id, ev_media_id = rh_media_id h, ev_protocol = protocol,
      ev_device_id = device_id, ev_raw_payload = JObject [(''cleared'', JBool True)],
      ev_locator = None, ev_progression = None, ev_page = None, ev_position_ms = None,
      ev_track_index = None, ev_completed = Some False, ev_timestamp_kind = Server,
      ev_source_updated_at = now, ev_received_at = now, ev_applied = True\<rparr>"

definition clear ::
  "int \<Rightarrow> ustr \<Rightarrow> ustr list \<Rightarrow> source_protocol \<Rightarrow> string option \<Rightarrow> reading_db
     \<Rightarrow> reading_db \<times> nat" where
  "clear now user_id media_ids protocol device_id db =
     (if media_ids = [] then (db, 0)
      else let hs = filter (\<lambda>h. rh_user_id h = user_id \<and> rh_media_id h \<in> set media_ids) (db_heads db)
           in if hs = [] then (db, 0)
              else let db = fold (\<lambda>h db. fst (insert_event
                              (cleared_event now user_id protocol device_id h) db)) hs db;
                       kept = delete_rows (\<lambda>h. rh_user_id h = user_id
                                \<and> rh_media_id h \<in> rh_media_id ` set hs) (db_heads db)
                   in (db\<lparr>db_heads := kept\<rparr>, length (db_heads db) - length kept))"

section \<open>Histories\<close>

datatype heads_op =
    ApplyOp int ustr publication protocol_update
  | ClearOp int ustr "ustr list" source_protocol "string option"

fun run_op :: "decimal_ops \<Rightarrow> heads_op \<Rightarrow> reading_db \<Rightarrow> reading_db" where
  "run_op ops (ApplyOp now user_id p u) db = fst (apply_update ops now user_id p u db)"
| "run_op ops (ClearOp now user_id media_ids protocol device_id) db =
     fst (clear now user_id media_ids protocol device_id db)"

definition run_ops :: "decimal_ops \<Rightarrow> heads_op list \<Rightarrow> reading_db \<Rightarrow> reading_db" where
  "run_ops ops xs db = fold (run_op ops) xs db"

fun op_ok :: "heads_op \<Rightarrow> bool" where
  "op_ok (ApplyOp now user_id p u) \<longleftrightarrow> position_ok (up_position u) \<and> publication_ok p"
| "op_ok (ClearOp now user_id media_ids protocol device_id) \<longleftrightarrow> True"

text \<open>The operations that may take the completion of a publication back.\<close>

fun un_reads :: "ustr \<Rightarrow> ustr \<Rightarrow> heads_op \<Rightarrow> bool" where
  "un_reads user_id media_id (ApplyOp now user p u) \<longleftrightarrow>
     user = user_id \<and> pub_media_id p = media_id \<and> up_completed u = Some False"
| "un_reads user_id media_id (ClearOp now user media_ids protocol device_id) \<longleftrightarrow>
     user = user_id \<and> media_id \<in> set media_ids"

subsection \<open>The invariant\<close>

definition event_key :: "reading_head_event \<Rightarrow> ustr \<times> ustr" where
  "event_key e = (ev_user_id e, ev_media_id e)"

definition asserts :: "'a option \<Rightarrow> 'a option \<Rightarrow> bool" where
  "asserts x y \<longleftrightarrow> x = None \<or> x = y"

definition agrees :: "reading_head \<Rightarrow> reading_head_event \<Rightarrow> bool" where
  "agrees h e \<longleftrightarrow>
     ev_applied e \<and> event_key e = head_key h
     \<and> ev_protocol e = rh_source_protocol h \<and> ev_device_id e = rh_source_device_id h
     \<and> ev_source_updated_at e = rh_updated_at h \<and> ev_received_at e = rh_changed_at h
     \<and> asserts (ev_locator e) (rh_locator h) \<and> asserts (ev_page e) (rh_page h)
     \<and> asserts (ev_position_ms e) (rh_position_ms h)
     \<and> asserts (ev_track_index e) (rh_track_index h)
     \<and> asserts (ev_progression e) (Some (rh_progression h))
     \<and> asserts (ev_completed e) (Some (rh_completed h))"

definition head_ok :: "reading_head_event list \<Rightarrow> reading_head \<Rightarrow> bool" where
  "head_ok es h \<longleftrightarrow>
     f64_unit (rh_progression h)
     \<and> (\<exists>e\<in>set es. ev_id e = rh_event_id h \<and> agrees h e
          \<and> (\<forall>e'\<in>set es. ev_applied e' \<and> event_key e' = head_key h \<longrightarrow> ev_id e' \<le> ev_id e))"

definition db_ok :: "reading_db \<Rightarrow> bool" where
  "db_ok db \<longleftrightarrow>
     unique_key head_key (db_heads db) \<and> unique_key ev_id (db_events db)
     \<and> (\<forall>e\<in>set (db_events db). ev_id e < db_next_event db)
     \<and> (\<forall>h\<in>set (db_heads db). head_ok (db_events db) h)"

lemma db_okD:
  assumes "db_ok db"
  shows "unique_key head_key (db_heads db)" "unique_key ev_id (db_events db)"
    "e \<in> set (db_events db) \<Longrightarrow> ev_id e < db_next_event db"
    "h \<in> set (db_heads db) \<Longrightarrow> head_ok (db_events db) h"
  using assms by (auto simp: db_ok_def)

lemma db_ok_empty: "db_ok empty_reading_db"
  by (simp add: db_ok_def empty_reading_db_def)

lemma insert_event_simps [simp]:
  "db_heads (fst (insert_event a db)) = db_heads db"
  "db_events (fst (insert_event a db)) = db_events db @ [a (db_next_event db)]"
  "db_next_event (fst (insert_event a db)) = db_next_event db + 1"
  "snd (insert_event a db) = a (db_next_event db)"
  by (simp_all add: insert_event_def insert_row_def Let_def)

lemma head_ok_append:
  assumes "head_ok es h" "\<not> ev_applied e \<or> event_key e \<noteq> head_key h"
  shows "head_ok (es @ [e]) h"
  using assms unfolding head_ok_def by auto

text \<open>Recording an event that no remaining head has to follow keeps the tables in order.\<close>

lemma db_ok_log:
  assumes "db_ok db" "ev_id e = db_next_event db"
    "\<And>h. h \<in> set hs \<Longrightarrow> head_ok (db_events db @ [e]) h" "unique_key head_key hs"
  shows "db_ok \<lparr>db_heads = hs, db_events = db_events db @ [e], db_next_event = db_next_event db + 1\<rparr>"
proof -
  have "unique_key ev_id (db_events db @ [e])"
    using db_okD(2) [OF assms(1)] db_okD(3) [OF assms(1)] assms(2)
    by (fastforce simp: unique_key_def)
  moreover have "ev_id e' < db_next_event db + 1" if "e' \<in> set (db_events db @ [e])" for e'
    using that db_okD(3) [OF assms(1), of e'] assms(2) by auto
  ultimately show ?thesis using assms(3,4) by (auto simp: db_ok_def)
qed

subsection \<open>Applying an update\<close>

lemma head_key_active [simp]: "head_key (active_head now user_id media_id u pr rs n previous) = (user_id, media_id)"
  by (simp add: head_key_def active_head_def)

lemma event_key_update [simp]: "event_key (update_event now user_id media_id u pr rs n) = (user_id, media_id)"
  by (simp add: event_key_def update_event_def)

lemma resolve_None [simp]: "rs_outcome (resolve None pr t) = Accepted"
  by (simp add: resolve_def Let_def)

lemma resolve_outcome:
  "rs_outcome (resolve (Some h) pr t) = ProvenanceOnly \<longleftrightarrow>
     hs_updated_at h - t > STALE_TOLERANCE_SECS * 1000000000
     \<and> f64_lt (unwrap_or (pr_progression pr) (hs_progression h)) (hs_progression h)"
  by (auto simp: resolve_def Let_def)

lemma resolve_asserts:
  assumes "rs_outcome (resolve g pr t) = Accepted"
  shows "asserts (pr_progression pr) (Some (rs_progression (resolve g pr t)))"
    "asserts (pr_completed pr) (Some (rs_completed (resolve g pr t)))"
  using assms
  by (auto simp: resolve_def Let_def asserts_def unwrap_or_def split: option.splits if_splits)

definition resolution ::
  "decimal_ops \<Rightarrow> int \<Rightarrow> ustr \<Rightarrow> publication \<Rightarrow> protocol_update \<Rightarrow> reading_db \<Rightarrow> resolved" where
  "resolution ops now user_id p u db =
     resolve (map_option head_state_of (head db user_id (pub_media_id p))) (project ops u p)
       (fst (effective_time now u))"

definition new_event ::
  "decimal_ops \<Rightarrow> int \<Rightarrow> ustr \<Rightarrow> publication \<Rightarrow> protocol_update \<Rightarrow> reading_db \<Rightarrow> reading_head_event"
where
  "new_event ops now user_id p u db =
     update_event now user_id (pub_media_id p) u (project ops u p)
       (resolution ops now user_id p u db) (db_next_event db)"

definition new_head ::
  "decimal_ops \<Rightarrow> int \<Rightarrow> ustr \<Rightarrow> publication \<Rightarrow> protocol_update \<Rightarrow> reading_db \<Rightarrow> reading_head"
where
  "new_head ops now user_id p u db =
     active_head now user_id (pub_media_id p) u (project ops u p)
       (resolution ops now user_id p u db) (db_next_event db) (head db user_id (pub_media_id p))"

lemma head_key_new [simp]: "head_key (new_head ops now user_id p u db) = (user_id, pub_media_id p)"
  by (simp add: new_head_def)

lemma new_head_simps [simp]:
  "rh_progression (new_head ops now user_id p u db) = rs_progression (resolution ops now user_id p u db)"
  "rh_completed (new_head ops now user_id p u db) = rs_completed (resolution ops now user_id p u db)"
  "rh_event_id (new_head ops now user_id p u db) = db_next_event db"
  by (simp_all add: new_head_def active_head_def)

lemma new_event_simps [simp]:
  "ev_id (new_event ops now user_id p u db) = db_next_event db"
  "event_key (new_event ops now user_id p u db) = (user_id, pub_media_id p)"
  "ev_applied (new_event ops now user_id p u db)
     \<longleftrightarrow> rs_outcome (resolution ops now user_id p u db) = Accepted"
  by (simp_all add: new_event_def) (simp_all add: update_event_def)

lemma apply_stale:
  assumes "rs_outcome (resolution ops now user_id p u db) = ProvenanceOnly"
  obtains h where "head db user_id (pub_media_id p) = Some h"
    "apply_update ops now user_id p u db =
       (\<lparr>db_heads = db_heads db, db_events = db_events db @ [new_event ops now user_id p u db],
         db_next_event = db_next_event db + 1\<rparr>,
        Some \<lparr>ap_head = h, ap_event = new_event ops now user_id p u db,
              ap_outcome = ProvenanceOnly\<rparr>)"
proof (cases "head db user_id (pub_media_id p)")
  case None
  with assms show thesis by (simp add: resolution_def)
next
  case (Some h)
  with assms show thesis
    by (intro that [of h])
       (simp_all add: apply_update_def Let_def resolution_def new_event_def insert_event_def
          insert_row_def update_event_def)
qed

lemma fst_apply_stale:
  assumes "rs_outcome (resolution ops now user_id p u db) = ProvenanceOnly"
  shows "fst (apply_update ops now user_id p u db) =
    \<lparr>db_heads = db_heads db, db_events = db_events db @ [new_event ops now user_id p u db],
     db_next_event = db_next_event db + 1\<rparr>"
  by (rule apply_stale [OF assms]) simp

lemma apply_accepted:
  assumes "rs_outcome (resolution ops now user_id p u db) = Accepted"
  shows "apply_update ops now user_id p u db =
     (\<lparr>db_heads = head_rows.write_r (new_head ops now user_id p u db) (db_heads db),
       db_events = db_events db @ [new_event ops now user_id p u db],
       db_next_event = db_next_event db + 1\<rparr>,
      Some \<lparr>ap_head = new_head ops now user_id p u db, ap_event = new_event ops now user_id p u db,
            ap_outcome = Accepted\<rparr>)"
  using assms
  by (cases "head db user_id (pub_media_id p)")
     (simp_all add: apply_update_def Let_def resolution_def new_event_def new_head_def
        insert_event_def insert_row_def update_event_def head_rows.write_r_def head_def)

lemma or_else_asserts [simp]: "asserts x (or_else x y)"
  by (cases x) (simp_all add: asserts_def or_else_def)

lemma new_head_agrees:
  assumes "rs_outcome (resolution ops now user_id p u db) = Accepted"
  shows "agrees (new_head ops now user_id p u db) (new_event ops now user_id p u db)"
  using assms resolve_asserts
  unfolding agrees_def head_key_new new_event_simps
  by (simp add: new_event_def update_event_def new_head_def active_head_def resolution_def)

lemma resolution_unit:
  assumes "db_ok db" "position_ok (up_position u)" "publication_ok p"
  shows "f64_unit (rs_progression (resolution ops now user_id p u db))"
  unfolding resolution_def
proof (rule resolve_unit)
  show "f64_unit x" if "pr_progression (project ops u p) = Some x" for x
    using assms(2,3) that by (rule project_unit)
  show "f64_unit (hs_progression g)"
    if "map_option head_state_of (head db user_id (pub_media_id p)) = Some g" for g
    using that db_okD(4) [OF assms(1)] head_rows.lookup_rows [OF db_okD(1) [OF assms(1)]]
    by (auto simp: head_def head_state_of_def head_ok_def)
qed

lemma new_head_ok:
  assumes "db_ok db" "position_ok (up_position u)" "publication_ok p"
    "rs_outcome (resolution ops now user_id p u db) = Accepted"
  shows "head_ok (db_events db @ [new_event ops now user_id p u db]) (new_head ops now user_id p u db)"
  unfolding head_ok_def
proof (intro conjI bexI [of _ "new_event ops now user_id p u db"] ballI impI)
  show "f64_unit (rh_progression (new_head ops now user_id p u db))"
    using resolution_unit [OF assms(1-3)] by simp
  show "ev_id e \<le> ev_id (new_event ops now user_id p u db)"
    if "e \<in> set (db_events db @ [new_event ops now user_id p u db])" for e
    using that db_okD(3) [OF assms(1), of e] by auto
qed (use new_head_agrees [OF assms(4)] in simp_all)

lemma apply_keeps_db_ok:
  assumes "db_ok db" "position_ok (up_position u)" "publication_ok p"
  shows "db_ok (fst (apply_update ops now user_id p u db))"
proof (cases "rs_outcome (resolution ops now user_id p u db)")
  case ProvenanceOnly
  have "head_ok (db_events db @ [new_event ops now user_id p u db]) h" if "h \<in> set (db_heads db)" for h
    using db_okD(4) [OF assms(1) that] ProvenanceOnly by (intro head_ok_append) simp_all
  then show ?thesis
    unfolding fst_apply_stale [OF ProvenanceOnly]
    by (intro db_ok_log assms(1) db_okD(1) [OF assms(1)]) simp_all
next
  case Accepted
  note u = db_okD(1) [OF assms(1)]
  have "head_ok (db_events db @ [new_event ops now user_id p u db]) h"
    if "h \<in> set (head_rows.write_r (new_head ops now user_id p u db) (db_heads db))" for h
    using that db_okD(4) [OF assms(1), of h] new_head_ok [OF assms Accepted]
    unfolding head_rows.rows_write [OF u] by (auto intro: head_ok_append)
  then show ?thesis
    unfolding apply_accepted [OF Accepted] fst_conv
    by (intro db_ok_log assms(1) head_rows.invar_write u) simp_all
qed

lemma head_apply:
  assumes "db_ok db"
  shows "head (fst (apply_update ops now user_id p u db)) user media =
    (if (user, media) = (user_id, pub_media_id p)
        \<and> rs_outcome (resolution ops now user_id p u db) = Accepted
     then Some (new_head ops now user_id p u db) else head db user media)"
proof (cases "rs_outcome (resolution ops now user_id p u db)")
  case ProvenanceOnly
  then show ?thesis by (simp add: fst_apply_stale head_def)
next
  case Accepted
  then show ?thesis
    using head_rows.lookup_write [OF db_okD(1) [OF assms]] by (simp add: apply_accepted head_def)
qed

subsection \<open>Clearing\<close>

abbreviation log_cleared ::
  "int \<Rightarrow> ustr \<Rightarrow> source_protocol \<Rightarrow> string option \<Rightarrow> reading_head list \<Rightarrow> reading_db \<Rightarrow> reading_db"
where
  "log_cleared now user_id protocol device_id \<equiv>
     fold (\<lambda>h db. fst (insert_event (cleared_event now user_id protocol device_id h) db))"

lemma log_cleared_heads [simp]:
  "db_heads (log_cleared now user_id protocol device_id hs db) = db_heads db"
  by (induction hs arbitrary: db) simp_all

lemma cleared_event_simps [simp]:
  "ev_id (cleared_event now user_id protocol device_id h n) = n"
  "ev_media_id (cleared_event now user_id protocol device_id h n) = rh_media_id h"
  "ev_user_id (cleared_event now user_id protocol device_id h n) = user_id"
  "ev_protocol (cleared_event now user_id protocol device_id h n) = protocol"
  "ev_device_id (cleared_event now user_id protocol device_id h n) = device_id"
  "ev_completed (cleared_event now user_id protocol device_id h n) = Some False"
  "ev_raw_payload (cleared_event now user_id protocol device_id h n)
     = JObject [(''cleared'', JBool True)]"
  "ev_applied (cleared_event now user_id protocol device_id h n)"
  by (simp_all add: cleared_event_def)

lemma log_cleared_events:
  "\<exists>es. db_events (log_cleared now user_id protocol device_id hs db) = db_events db @ es
     \<and> map ev_media_id es = map rh_media_id hs
     \<and> (\<forall>e\<in>set es. ev_user_id e = user_id \<and> ev_applied e \<and> ev_protocol e = protocol
          \<and> ev_device_id e = device_id \<and> ev_completed e = Some False
          \<and> ev_raw_payload e = JObject [(''cleared'', JBool True)])"
proof (induction hs arbitrary: db)
  case (Cons h hs)
  let ?e = "cleared_event now user_id protocol device_id h (db_next_event db)"
  from Cons.IH [of "fst (insert_event (cleared_event now user_id protocol device_id h) db)"]
  obtain es where "db_events (log_cleared now user_id protocol device_id (h # hs) db)
      = db_events db @ ?e # es" "map ev_media_id es = map rh_media_id hs"
    "\<forall>e\<in>set es. ev_user_id e = user_id \<and> ev_applied e \<and> ev_protocol e = protocol
      \<and> ev_device_id e = device_id \<and> ev_completed e = Some False
      \<and> ev_raw_payload e = JObject [(''cleared'', JBool True)]"
    by auto
  then show ?case by (intro exI [of _ "?e # es"]) auto
qed simp

lemma log_cleared_ok:
  assumes "db_ok (db\<lparr>db_heads := ks\<rparr>)"
    "\<And>h k. h \<in> set hs \<Longrightarrow> k \<in> set ks \<Longrightarrow> head_key k \<noteq> (user_id, rh_media_id h)"
  shows "db_ok ((log_cleared now user_id protocol device_id hs db)\<lparr>db_heads := ks\<rparr>)"
  using assms
proof (induction hs arbitrary: db)
  case (Cons h hs)
  let ?e = "cleared_event now user_id protocol device_id h (db_next_event db)"
  have "db_ok \<lparr>db_heads = ks, db_events = db_events (db\<lparr>db_heads := ks\<rparr>) @ [?e],
      db_next_event = db_next_event (db\<lparr>db_heads := ks\<rparr>) + 1\<rparr>"
  proof (rule db_ok_log [OF Cons.prems(1)])
    show "head_ok (db_events (db\<lparr>db_heads := ks\<rparr>) @ [?e]) k" if "k \<in> set ks" for k
      using db_okD(4) [OF Cons.prems(1), of k] Cons.prems(2) [of h k] that
      by (intro head_ok_append) (auto simp: event_key_def)
  qed (use db_okD(1) [OF Cons.prems(1)] in simp_all)
  then have "db_ok ((fst (insert_event (cleared_event now user_id protocol device_id h) db))
      \<lparr>db_heads := ks\<rparr>)"
    by (cases db) (simp add: insert_event_def insert_row_def Let_def)
  with Cons.IH Cons.prems(2) show ?case by simp
qed simp

definition clears :: "ustr \<Rightarrow> ustr list \<Rightarrow> reading_head \<Rightarrow> bool" where
  "clears user_id media_ids h \<longleftrightarrow> rh_user_id h = user_id \<and> rh_media_id h \<in> set media_ids"

lemma clear_eq:
  "clear now user_id media_ids protocol device_id db =
     (let hs = filter (clears user_id media_ids) (db_heads db)
      in ((log_cleared now user_id protocol device_id hs db)
            \<lparr>db_heads := delete_rows (clears user_id media_ids) (db_heads db)\<rparr>, length hs))"
proof -
  have k: "delete_rows (\<lambda>h. rh_user_id h = user_id
      \<and> rh_media_id h \<in> rh_media_id ` set (filter (clears user_id media_ids) (db_heads db))) (db_heads db)
      = delete_rows (clears user_id media_ids) (db_heads db)"
    unfolding delete_rows_def by (rule filter_cong) (auto simp: clears_def)
  have n: "length (db_heads db) - length (delete_rows (clears user_id media_ids) (db_heads db))
      = length (filter (clears user_id media_ids) (db_heads db))"
    using sum_length_filter_compl [of "clears user_id media_ids" "db_heads db"]
    by (simp add: delete_rows_def)
  have e: "filter (\<lambda>h. rh_user_id h = user_id \<and> rh_media_id h \<in> set media_ids) (db_heads db)
      = filter (clears user_id media_ids) (db_heads db)"
    by (rule filter_cong) (simp_all add: clears_def)
  show ?thesis
  proof (cases "filter (clears user_id media_ids) (db_heads db) = []")
    case True
    then have "delete_rows (clears user_id media_ids) (db_heads db) = db_heads db"
      by (auto simp: delete_rows_def filter_empty_conv)
    with True e show ?thesis by (auto simp: clear_def Let_def)
  next
    case False
    then have "media_ids \<noteq> []" by (auto simp: clears_def filter_empty_conv)
    with False k n e show ?thesis by (simp add: clear_def Let_def)
  qed
qed

lemma clear_keeps_db_ok:
  assumes "db_ok db"
  shows "db_ok (fst (clear now user_id media_ids protocol device_id db))"
proof -
  have "db_ok (db\<lparr>db_heads := delete_rows (clears user_id media_ids) (db_heads db)\<rparr>)"
    using assms unique_key_delete [of head_key] by (auto simp: db_ok_def delete_rows_def)
  then show ?thesis
    unfolding clear_eq Let_def fst_conv
    by (rule log_cleared_ok) (auto simp: delete_rows_def clears_def head_key_def)
qed

lemma head_clear:
  assumes "db_ok db"
  shows "head (fst (clear now user_id media_ids protocol device_id db)) user media =
    (if user = user_id \<and> media \<in> set media_ids then None else head db user media)"
proof -
  note u = db_okD(1) [OF assms]
  have "clears user_id media_ids h \<longleftrightarrow> user = user_id \<and> media \<in> set media_ids"
    if "row_at head_key (user, media) (db_heads db) = Some h" for h
    using that head_rows.lookup_rows [OF u] by (auto simp: clears_def head_key_def)
  then show ?thesis
    by (auto simp: clear_eq Let_def head_def row_at_delete [OF u] split: option.splits)
qed

subsection \<open>Every history\<close>

lemma run_op_ok: "db_ok db \<Longrightarrow> op_ok op \<Longrightarrow> db_ok (run_op ops op db)"
  by (cases op) (simp_all add: apply_keeps_db_ok clear_keeps_db_ok)

lemma run_ops_ok: "db_ok db \<Longrightarrow> list_all op_ok xs \<Longrightarrow> db_ok (run_ops ops xs db)"
  unfolding run_ops_def by (induction xs arbitrary: db) (simp_all add: run_op_ok)

lemma resolve_completed:
  "\<lbrakk>hs_completed h; pr_completed pr \<noteq> Some False\<rbrakk> \<Longrightarrow> rs_completed (resolve (Some h) pr t)"
  by (auto simp: resolve_def Let_def unwrap_or_def split: option.splits)

lemma project_completed [simp]: "pr_completed (project ops u p) = up_completed u"
  by (auto simp: project_def project_position_def projection_default_def Let_def
        split: position.splits option.splits)

lemma run_op_keeps_completed:
  assumes "db_ok db" "\<not> un_reads user media op" "head db user media = Some h" "rh_completed h"
  shows "\<exists>h'. head (run_op ops op db) user media = Some h' \<and> rh_completed h'"
proof (cases op)
  case (ApplyOp now user_id p u)
  have "rs_completed (resolution ops now user_id p u db)"
    if "user = user_id" "media = pub_media_id p"
    using assms(2,3,4) that ApplyOp
    by (auto simp: resolution_def head_state_of_def intro!: resolve_completed)
  with assms ApplyOp show ?thesis by (simp add: head_apply)
qed (use assms in \<open>auto simp: head_clear\<close>)

lemma run_ops_keeps_completed:
  assumes "db_ok db" "list_all op_ok xs" "list_all (\<lambda>op. \<not> un_reads user media op) xs"
    "head db user media = Some h" "rh_completed h"
  shows "\<exists>h'. head (run_ops ops xs db) user media = Some h' \<and> rh_completed h'"
  using assms
proof (induction xs arbitrary: db h)
  case (Cons op xs)
  obtain h' where "head (run_op ops op db) user media = Some h'" "rh_completed h'"
    using run_op_keeps_completed [of db user media op h ops] Cons.prems by auto
  with Cons.IH [of "run_op ops op db" h'] Cons.prems show ?case by (simp add: run_ops_def run_op_ok)
qed (simp add: run_ops_def)

section \<open>Properties\<close>

definition example_update :: "int option \<Rightarrow> int \<Rightarrow> bool option \<Rightarrow> protocol_update" where
  "example_update t page completed =
     \<lparr>up_protocol = Komga, up_device_id = None, up_updated_at = t, up_position = Page page,
      up_progression = None, up_completed = completed, up_raw_payload = JNull\<rparr>"

definition example_publication :: publication where
  "example_publication = \<lparr>pub_media_id = lit ''m'', pub_pages = 4, pub_duration_ms = None\<rparr>"

definition example_history :: "heads_op list" where
  "example_history =
     [ApplyOp 100000000000 (lit ''u'') example_publication (example_update (Some 100000000000) 4 (Some True)),
      ApplyOp 101000000000 (lit ''u'') example_publication (example_update (Some 30000000000) 1 None)]"

lemmas example_history_defs = example_history_def example_update_def example_publication_def

text \<open>
  C4. Over any history of updates and resets there is at most one head per user and
  publication, its progression is between 0 and 1, and the provenance row it names exists, was
  applied, is the latest applied row of that user and publication, and every field it asserts
  (locator, page, offset, track, progression, completion, source, times) is the head's.
\<close>

theorem heads_match_log:
  assumes "list_all op_ok xs" "head (run_ops ops xs empty_reading_db) user media = Some h"
  shows "f64_unit (rh_progression h)
    \<and> (\<exists>e. winning_event (run_ops ops xs empty_reading_db) h = Some e \<and> agrees h e
         \<and> (\<forall>e'\<in>set (db_events (run_ops ops xs empty_reading_db)).
              ev_applied e' \<and> event_key e' = (user, media) \<longrightarrow> ev_id e' \<le> ev_id e))
    \<and> unique_key head_key (db_heads (run_ops ops xs empty_reading_db))"
proof -
  have ok: "db_ok (run_ops ops xs empty_reading_db)"
    by (rule run_ops_ok [OF db_ok_empty assms(1)])
  have h: "h \<in> set (db_heads (run_ops ops xs empty_reading_db))" "head_key h = (user, media)"
    using assms(2) head_rows.lookup_rows [OF db_okD(1) [OF ok]] by (auto simp: head_def)
  obtain e where e: "e \<in> set (db_events (run_ops ops xs empty_reading_db))"
      "ev_id e = rh_event_id h" "agrees h e"
      "\<forall>e'\<in>set (db_events (run_ops ops xs empty_reading_db)).
         ev_applied e' \<and> event_key e' = head_key h \<longrightarrow> ev_id e' \<le> ev_id e"
    and u: "f64_unit (rh_progression h)"
    using db_okD(4) [OF ok h(1)] unfolding head_ok_def by blast
  have "winning_event (run_ops ops xs empty_reading_db) h = Some e"
    unfolding winning_event_def using event_rows.lookup_rows [OF db_okD(2) [OF ok]] e(1,2) by blast
  with e(3,4) u h(2) db_okD(1) [OF ok] show ?thesis by auto
qed

theorem heads_match_log_witness:
  "\<exists>h. head (run_ops example_decimals example_history empty_reading_db) (lit ''u'') (lit ''m'') = Some h
    \<and> f64_unit (rh_progression h) \<and> rh_page h = Some 4"
proof -
  have "map_option rh_page (head (run_ops example_decimals example_history empty_reading_db)
      (lit ''u'') (lit ''m'')) = Some (Some 4)"
    by code_simp
  then obtain h where h: "head (run_ops example_decimals example_history empty_reading_db)
      (lit ''u'') (lit ''m'') = Some h" "rh_page h = Some 4"
    by auto
  have "list_all op_ok example_history"
    by (simp add: example_history_defs publication_ok_def i64_ok_def)
  from heads_match_log [OF this h(1)] h show ?thesis by blast
qed

text \<open>
  C17. Completion is sticky: once a user's head is complete, no sequence of updates by any
  protocol and resets of other publications makes it incomplete, unless an update says so
  explicitly (\<open>completed = Some False\<close>) or the publication itself is reset.
\<close>

theorem completion_sticky:
  assumes "db_ok db" "list_all op_ok xs" "list_all (\<lambda>op. \<not> un_reads user media op) xs"
    "head db user media = Some h" "rh_completed h"
  shows "\<exists>h'. head (run_ops ops xs db) user media = Some h' \<and> rh_completed h'"
  using assms by (rule run_ops_keeps_completed)

theorem completion_sticky_witness:
  "\<exists>h'. head (run_ops example_decimals (tl example_history)
      (run_op example_decimals (hd example_history) empty_reading_db)) (lit ''u'') (lit ''m'') = Some h'
    \<and> rh_completed h'"
proof -
  have "map_option rh_completed (head (run_op example_decimals (hd example_history) empty_reading_db)
      (lit ''u'') (lit ''m'')) = Some True"
    by code_simp
  then obtain h where h: "head (run_op example_decimals (hd example_history) empty_reading_db)
      (lit ''u'') (lit ''m'') = Some h" "rh_completed h"
    by auto
  have "op_ok (hd example_history)"
    by (simp add: example_history_defs publication_ok_def i64_ok_def)
  from completion_sticky [OF run_op_ok [OF db_ok_empty this] _ _ h]
  show ?thesis by (simp add: example_history_defs publication_ok_def i64_ok_def)
qed

text \<open>
  C31. Applying an update always returns. It records exactly one provenance row, at the end of
  the log, and touches no head but the one of this user and publication. It leaves that head
  alone exactly when the head is newer by more than a minute and further on, and then the row
  is marked as not applied; otherwise the head becomes the returned one and carries the row's
  id and the update's time.
\<close>

theorem apply_update_spec:
  assumes "db_ok db"
  shows "\<exists>db' a. apply_update ops now user_id p u db = (db', Some a)
    \<and> db_events db' = db_events db @ [ap_event a]
    \<and> (\<forall>user media. head db' user media
         = (if (user, media) = (user_id, pub_media_id p) then Some (ap_head a) else head db user media))
    \<and> (accepted a \<longleftrightarrow> ev_applied (ap_event a))
    \<and> (\<not> accepted a \<longleftrightarrow> (\<exists>h. head db user_id (pub_media_id p) = Some h
         \<and> rh_updated_at h - fst (effective_time now u) > STALE_TOLERANCE_SECS * 1000000000
         \<and> f64_lt (unwrap_or (pr_progression (project ops u p)) (rh_progression h)) (rh_progression h)))
    \<and> (\<not> accepted a \<longrightarrow> db_heads db' = db_heads db)
    \<and> (accepted a \<longrightarrow> rh_event_id (ap_head a) = ev_id (ap_event a)
         \<and> rh_updated_at (ap_head a) = fst (effective_time now u))"
proof (cases "rs_outcome (resolution ops now user_id p u db)")
  case ProvenanceOnly
  from apply_stale [OF this] obtain h where h: "head db user_id (pub_media_id p) = Some h"
    and a: "apply_update ops now user_id p u db =
       (\<lparr>db_heads = db_heads db, db_events = db_events db @ [new_event ops now user_id p u db],
         db_next_event = db_next_event db + 1\<rparr>,
        Some \<lparr>ap_head = h, ap_event = new_event ops now user_id p u db,
              ap_outcome = ProvenanceOnly\<rparr>)" .
  have "rh_updated_at h - fst (effective_time now u) > STALE_TOLERANCE_SECS * 1000000000
      \<and> f64_lt (unwrap_or (pr_progression (project ops u p)) (rh_progression h)) (rh_progression h)"
    using ProvenanceOnly h by (simp add: resolution_def resolve_outcome head_state_of_def)
  with ProvenanceOnly h show ?thesis by (simp add: a accepted_def head_def)
next
  case Accepted
  have "\<not> (rh_updated_at h - fst (effective_time now u) > STALE_TOLERANCE_SECS * 1000000000
      \<and> f64_lt (unwrap_or (pr_progression (project ops u p)) (rh_progression h)) (rh_progression h))"
    if "head db user_id (pub_media_id p) = Some h" for h
    using Accepted that resolve_outcome
      [of "head_state_of h" "project ops u p" "fst (effective_time now u)"]
    by (simp add: resolution_def head_state_of_def)
  moreover have "head \<lparr>db_heads = head_rows.write_r (new_head ops now user_id p u db) (db_heads db),
      db_events = es, db_next_event = n\<rparr> user media
      = (if (user, media) = (user_id, pub_media_id p) then Some (new_head ops now user_id p u db)
         else head db user media)" for es n user media
    using head_rows.lookup_write [OF db_okD(1) [OF assms]] by (simp add: head_def)
  ultimately show ?thesis
    using Accepted by (auto simp: apply_accepted accepted_def new_head_def active_head_def)
qed

theorem apply_update_spec_witness:
  "\<exists>db' a. apply_update example_decimals 101000000000 (lit ''u'') example_publication
       (example_update None 3 None) empty_reading_db = (db', Some a) \<and> accepted a"
proof -
  have "head empty_reading_db user media = None" for user media
    by (simp add: head_def empty_reading_db_def row_at_def)
  with apply_update_spec [OF db_ok_empty, of example_decimals 101000000000 "lit ''u''"
      example_publication "example_update None 3 None"]
  show ?thesis by auto
qed

text \<open>
  A reset removes exactly the heads of the user's named publications, reports how many
  there were, and records for each of them one applied provenance row that un-reads it, in the
  order of the removed heads; every other head stays.
\<close>

theorem clear_spec:
  assumes "db_ok db" "clear now user_id media_ids protocol device_id db = (db', n)"
  shows "(\<forall>user media. head db' user media
      = (if user = user_id \<and> media \<in> set media_ids then None else head db user media))
    \<and> n = length (filter (clears user_id media_ids) (db_heads db))
    \<and> (\<exists>es. db_events db' = db_events db @ es
         \<and> map ev_media_id es = map rh_media_id (filter (clears user_id media_ids) (db_heads db))
         \<and> (\<forall>e\<in>set es. ev_user_id e = user_id \<and> ev_applied e \<and> ev_protocol e = protocol
              \<and> ev_device_id e = device_id \<and> ev_completed e = Some False
              \<and> ev_raw_payload e = JObject [(''cleared'', JBool True)]))"
proof -
  have n: "n = length (filter (clears user_id media_ids) (db_heads db))"
    and e: "db_events db' = db_events (log_cleared now user_id protocol device_id
        (filter (clears user_id media_ids) (db_heads db)) db)"
    using assms(2) by (auto simp: clear_eq Let_def)
  have h: "head db' user media
      = (if user = user_id \<and> media \<in> set media_ids then None else head db user media)" for user media
    using head_clear [OF assms(1)] assms(2) by (metis fst_conv)
  show ?thesis using n h log_cleared_events unfolding e by auto
qed

theorem clear_spec_witness:
  "\<exists>db' n. clear 5 (lit ''u'') [lit ''m'']  Stump None
       (run_ops example_decimals example_history empty_reading_db) = (db', n)
     \<and> head db' (lit ''u'') (lit ''m'') = None"
proof -
  have "list_all op_ok example_history"
    by (simp add: example_history_defs publication_ok_def i64_ok_def)
  from clear_spec [OF run_ops_ok [OF db_ok_empty this]] show ?thesis
    by (cases "clear 5 (lit ''u'') [lit ''m''] Stump None
       (run_ops example_decimals example_history empty_reading_db)") fastforce
qed

end
