(* ===== verification/Http.thy ===== *)
theory Http
  imports Prelude "HOL-Library.Monad_Syntax"
begin

text \<open>
  What the middlewares of \<^verbatim>\<open>apps/server/src/middleware\<close> read of a request: its method, path,
  headers, the address of the connection and the body; and
  \<^verbatim>\<open>apps/server/src/middleware/host.rs\<close>, which finds the client's address. Header names are
  in lower case and a header may occur several times. The functions of the \<open>http\<close> and \<open>axum\<close>
  packages are parameters.
\<close>

section \<open>Addresses\<close>

text \<open>
  \<open>IpAddr\<close> and its \<open>FromStr\<close>: the octets of a version 4 address, the 16-bit groups of a
  version 6 one. A reader takes the remaining text and gives the value and the rest.
\<close>

datatype ip_addr = V4 "nat list" | V6 "nat list"

definition LOCALHOST :: ip_addr where "LOCALHOST = V4 [127, 0, 0, 1]"

definition to_digit :: "nat \<Rightarrow> uchar \<Rightarrow> nat option" where
  "to_digit radix c =
     (let d = (if is_ascii_digit c then Some (c - 48)
               else if is_ascii_alphabetic c then Some (ascii_lower c - 97 + 10) else None)
      in case d of Some n \<Rightarrow> if n < radix then Some n else None | None \<Rightarrow> None)"

fun read_digits :: "nat \<Rightarrow> ustr \<Rightarrow> nat list \<times> ustr" where
  "read_digits radix [] = ([], [])"
| "read_digits radix (c # s) =
     (case to_digit radix c of
        None \<Rightarrow> ([], c # s)
      | Some d \<Rightarrow> (case read_digits radix s of (ds, rest) \<Rightarrow> (d # ds, rest)))"

definition read_number :: "nat \<Rightarrow> nat \<Rightarrow> bool \<Rightarrow> nat \<Rightarrow> ustr \<Rightarrow> (nat \<times> ustr) option" where
  "read_number radix max_digits allow_zero_prefix bound s =
     (case read_digits radix s of (ds, rest) \<Rightarrow>
        let n = foldl (\<lambda>n d. radix * n + d) 0 ds
        in if ds = [] \<or> length ds > max_digits \<or> n > bound
              \<or> (\<not> allow_zero_prefix \<and> hd ds = 0 \<and> length ds > 1)
           then None else Some (n, rest))"

definition read_separator ::
  "uchar \<Rightarrow> nat \<Rightarrow> (ustr \<Rightarrow> ('a \<times> ustr) option) \<Rightarrow> ustr \<Rightarrow> ('a \<times> ustr) option" where
  "read_separator sep i inner s =
     (if i = 0 then inner s
      else case s of [] \<Rightarrow> None | c # rest \<Rightarrow> if c = sep then inner rest else None)"

definition read_octet :: "nat \<Rightarrow> ustr \<Rightarrow> (nat \<times> ustr) option" where
  "read_octet i s = read_separator 46 i (read_number 10 3 False 255) s"

definition read_ipv4 :: "ustr \<Rightarrow> (nat list \<times> ustr) option" where
  "read_ipv4 s =
     do {
       (a, s) \<leftarrow> read_octet 0 s;
       (b, s) \<leftarrow> read_octet 1 s;
       (c, s) \<leftarrow> read_octet 2 s;
       (d, s) \<leftarrow> read_octet 3 s;
       Some ([a, b, c, d], s)
     }"

text \<open>The groups read, whether an address of version 4 ended them, and the rest.\<close>

function read_groups :: "nat \<Rightarrow> nat \<Rightarrow> ustr \<Rightarrow> nat list \<times> bool \<times> ustr" where
  "read_groups limit i s =
     (if i \<ge> limit then ([], False, s)
      else case (if i < limit - 1 then read_separator 58 i read_ipv4 s else None) of
             Some (v4, rest) \<Rightarrow>
               ([256 * v4 ! 0 + v4 ! 1, 256 * v4 ! 2 + v4 ! 3], True, rest)
           | None \<Rightarrow>
               (case read_separator 58 i (read_number 16 4 True 65535) s of
                  None \<Rightarrow> ([], False, s)
                | Some (g, rest) \<Rightarrow>
                    (case read_groups limit (Suc i) rest of (gs, v4, rest) \<Rightarrow> (g # gs, v4, rest))))"
  by pat_completeness auto
termination
  by (relation "measure (\<lambda>(limit, i, s). limit - i)") auto

declare read_groups.simps [simp del]

definition read_ipv6 :: "ustr \<Rightarrow> (nat list \<times> ustr) option" where
  "read_ipv6 s =
     (case read_groups 8 0 s of (front, front_v4, rest) \<Rightarrow>
        if length front = 8 then Some (front, rest)
        else if front_v4 then None
        else case strip_prefix rest [58, 58] of
               None \<Rightarrow> None
             | Some rest \<Rightarrow>
                 (case read_groups (8 - (length front + 1)) 0 rest of (back, _, rest) \<Rightarrow>
                    Some (front @ replicate (8 - length front - length back) 0 @ back, rest)))"

definition parse_ip :: "ustr \<Rightarrow> ip_addr option" where
  "parse_ip s =
     (case read_ipv4 s of
        Some (octets, rest) \<Rightarrow> if rest = [] then Some (V4 octets) else None
      | None \<Rightarrow>
          (case read_ipv6 s of
             Some (groups, rest) \<Rightarrow> if rest = [] then Some (V6 groups) else None
           | None \<Rightarrow> None))"

section \<open>Requests\<close>

datatype http_method = GET | POST | PUT | PATCH | DELETE | OtherMethod string

type_synonym header_map = "(string \<times> byte list) list"

record request =
  req_method :: http_method
  req_path :: ustr
  req_headers :: header_map
  req_peer :: "ip_addr option"
  req_body :: "byte list"

text \<open>
  \<open>HeaderValue::to_str\<close> and \<open>axum::body::to_bytes\<close> with its limit.
\<close>

record http_ops =
  to_str :: "byte list \<Rightarrow> ustr option"
  to_bytes :: "byte list \<Rightarrow> nat \<Rightarrow> (string, byte list) result"

definition header :: "string \<Rightarrow> header_map \<Rightarrow> byte list option" where
  "header name hs = map_of hs name"

definition get_all :: "string \<Rightarrow> header_map \<Rightarrow> byte list list" where
  "get_all name hs = map snd (filter (\<lambda>(n, _). n = name) hs)"

definition X_REAL_IP :: string where "X_REAL_IP = ''x-real-ip''"
definition X_FORWARDED_FOR :: string where "X_FORWARDED_FOR = ''x-forwarded-for''"

definition extract_client_ip :: "http_ops \<Rightarrow> bool \<Rightarrow> request \<Rightarrow> ip_addr option" where
  "extract_client_ip http trust_proxy_headers req =
     (let real = do { h \<leftarrow> header X_REAL_IP (req_headers req); s \<leftarrow> to_str http h; parse_ip (trim s) };
          forwarded = do { h \<leftarrow> header X_FORWARDED_FOR (req_headers req); s \<leftarrow> to_str http h;
                           parse_ip (trim (hd (split_on 44 s))) }
      in if trust_proxy_headers \<and> real \<noteq> None then real
         else if trust_proxy_headers \<and> forwarded \<noteq> None then forwarded
         else req_peer req)"

text \<open>Without a trusted proxy no header can change the address a request is attributed to.\<close>

lemma client_ip_untrusted: "extract_client_ip http False req = req_peer req"
  by (simp add: extract_client_ip_def Let_def)

end
