(* ===== verification/Rate_Limit.thy ===== *)
theory Rate_Limit
  imports Http F64 Keyed_Table
begin

text \<open>
  \<^verbatim>\<open>apps/server/src/middleware/rate_limit.rs\<close>: the classification of requests, the cache of
  verified credentials, the per-key stream slots, and the life of a request through the
  middleware as a step relation, so that requests interleave. The limiter of the \<open>governor\<close>
  package, SHA-256, the JSON and GraphQL parsers and a semaphore's wait are parameters; times
  are nanoseconds. A credential occurs only as its fingerprint.
\<close>

section \<open>Configuration\<close>

definition DEFAULT_AUTH_PER_MIN :: nat where "DEFAULT_AUTH_PER_MIN = 10"
definition DEFAULT_AUTH_BURST :: nat where "DEFAULT_AUTH_BURST = 20"
definition DEFAULT_WRITE_PER_MIN :: nat where "DEFAULT_WRITE_PER_MIN = 120"
definition DEFAULT_WRITE_BURST :: nat where "DEFAULT_WRITE_BURST = 60"
definition DEFAULT_STREAM_CONCURRENCY :: nat where "DEFAULT_STREAM_CONCURRENCY = 32"

record rate_limit_config =
  enabled :: bool
  auth_per_min :: nat
  auth_burst :: nat
  write_per_min :: nat
  write_burst :: nat
  stream_concurrency :: nat

text \<open>The messages name the variable; the model keeps which value was refused.\<close>

datatype config_error = InvalidBool ustr | NotAnInteger ustr | NotPositive ustr

definition to_ascii_lowercase :: "ustr \<Rightarrow> ustr" where
  "to_ascii_lowercase s = map ascii_lower s"

definition parse_bool :: "ustr option \<Rightarrow> bool \<Rightarrow> (config_error, bool) result" where
  "parse_bool v fallback =
     (case map_option trim v of
        None \<Rightarrow> Inr fallback
      | Some s \<Rightarrow>
          if s = [] then Inr fallback
          else if to_ascii_lowercase s \<in> {lit ''true'', lit ''1'', lit ''yes'', lit ''on''} then Inr True
          else if to_ascii_lowercase s \<in> {lit ''false'', lit ''0'', lit ''no'', lit ''off''} then Inr False
          else Inl (InvalidBool s))"

definition parse_positive :: "nat \<Rightarrow> ustr option \<Rightarrow> nat \<Rightarrow> (config_error, nat) result" where
  "parse_positive bound v fallback =
     (case v of
        None \<Rightarrow> Inr fallback
      | Some s \<Rightarrow>
          (case parse_unsigned bound (trim s) of
             None \<Rightarrow> Inl (NotAnInteger s)
           | Some n \<Rightarrow> if n = 0 then Inl (NotPositive s) else Inr n))"

definition parse_positive_u32 :: "ustr option \<Rightarrow> nat \<Rightarrow> (config_error, nat) result" where
  "parse_positive_u32 = parse_positive 4294967295"

definition parse_positive_usize :: "ustr option \<Rightarrow> nat \<Rightarrow> (config_error, nat) result" where
  "parse_positive_usize = parse_positive 18446744073709551615"

definition from_values ::
  "ustr option \<Rightarrow> ustr option \<Rightarrow> ustr option \<Rightarrow> ustr option
     \<Rightarrow> (config_error, rate_limit_config) result" where
  "from_values enabled_v auth_v write_v stream_v =
     bind_result (parse_positive_u32 auth_v DEFAULT_AUTH_PER_MIN) (\<lambda>auth.
     bind_result (parse_positive_u32 write_v DEFAULT_WRITE_PER_MIN) (\<lambda>write_rate.
     bind_result (parse_positive_usize stream_v DEFAULT_STREAM_CONCURRENCY) (\<lambda>stream.
     bind_result (parse_bool enabled_v True) (\<lambda>on.
       Inr \<lparr>enabled = on, auth_per_min = auth, auth_burst = max DEFAULT_AUTH_BURST auth,
            write_per_min = write_rate, write_burst = max DEFAULT_WRITE_BURST (write_rate div 2),
            stream_concurrency = stream\<rparr>))))"

section \<open>Identity\<close>

definition VERIFIED_TTL :: int where "VERIFIED_TTL = 60 * 1000000000"
definition VERIFIED_CAPACITY :: nat where "VERIFIED_CAPACITY = 1024"
definition GRAPHQL_SNIFF_LIMIT :: nat where "GRAPHQL_SNIFF_LIMIT = 1024 * 1024"
definition RETAIN_EVERY :: nat where "RETAIN_EVERY = 1024"

datatype request_class = Auth | Write | Stream

type_synonym fingerprint = "byte list"

datatype key = Credential fingerprint | Ip ip_addr

datatype operation_type = Query | Mutation | Subscription

datatype document = SingleOperation operation_type | MultipleOperations "(ustr \<times> operation_type) list"

record limiter_ops = http_ops +
  sha256 :: "byte list \<Rightarrow> fingerprint"
  from_slice :: "byte list \<Rightarrow> (ustr \<times> ustr option) option"
  parse_query :: "ustr \<Rightarrow> document option"

definition KOMGA_API_KEY_HEADER :: string where "KOMGA_API_KEY_HEADER = ''x-api-key''"
definition KOMGA_REMEMBER_ME_COOKIE_NAME :: ustr where
  "KOMGA_REMEMBER_ME_COOKIE_NAME = lit ''komga-remember-me''"
definition SESSION_NAME :: ustr where "SESSION_NAME = lit ''stump_session''"

fun find_map :: "('a \<Rightarrow> 'b option) \<Rightarrow> 'a list \<Rightarrow> 'b option" where
  "find_map f [] = None"
| "find_map f (x # xs) = (case f x of Some y \<Rightarrow> Some y | None \<Rightarrow> find_map f xs)"

definition path_api_key :: "ustr \<Rightarrow> ustr option" where
  "path_api_key path =
     do {
       rest \<leftarrow> find_map (strip_prefix path) [lit ''/opds/'', lit ''/kobo/'', lit ''/koreader/''];
       let segment = hd (split_on 47 rest);
       if segment \<in> {[], lit ''v1.2'', lit ''v2.0''} then None else Some segment
     }"

definition cookie_pairs :: "limiter_ops \<Rightarrow> header_map \<Rightarrow> ustr list" where
  "cookie_pairs ops hs =
     concat (map (\<lambda>v. case to_str ops v of Some s \<Rightarrow> map trim (split_on 59 s) | None \<Rightarrow> [])
               (get_all ''cookie'' hs))"

definition cookie :: "limiter_ops \<Rightarrow> header_map \<Rightarrow> ustr \<Rightarrow> ustr option" where
  "cookie ops hs name =
     find_map (\<lambda>pair. Option.bind (strip_prefix pair name) (\<lambda>rest. strip_prefix rest [61]))
       (cookie_pairs ops hs)"

definition komga_remember_me_cookie :: "limiter_ops \<Rightarrow> header_map \<Rightarrow> ustr option" where
  "komga_remember_me_cookie ops hs =
     find_map (\<lambda>pair. case split_once 61 pair of
                  Some (name, v) \<Rightarrow>
                    if trim name = KOMGA_REMEMBER_ME_COOKIE_NAME then Some (trim v) else None
                | None \<Rightarrow> None)
       (cookie_pairs ops hs)"

definition credential :: "limiter_ops \<Rightarrow> header_map \<Rightarrow> ustr \<Rightarrow> fingerprint option \<times> bool" where
  "credential ops hs path =
     (case header ''authorization'' hs of
        Some v \<Rightarrow>
          (Some (sha256 ops v),
           length v \<ge> 6 \<and> eq_ignore_ascii_case (take 6 v) (lit ''basic ''))
      | None \<Rightarrow>
      (case header KOMGA_API_KEY_HEADER hs of
        Some v \<Rightarrow> (Some (sha256 ops v), True)
      | None \<Rightarrow>
      (case path_api_key path of
        Some api_key \<Rightarrow> (Some (sha256 ops (utf8 api_key)), True)
      | None \<Rightarrow>
      (case cookie ops hs SESSION_NAME of
        Some session \<Rightarrow> (Some (sha256 ops (utf8 session)), False)
      | None \<Rightarrow>
      (case komga_remember_me_cookie ops hs of
        Some remember_me \<Rightarrow> (Some (sha256 ops (utf8 remember_me)), False)
      | None \<Rightarrow> (None, False))))))"

record identity =
  id_ip :: ip_addr
  id_key :: key
  id_verifiable :: "fingerprint option"

definition identity_of :: "limiter_ops \<Rightarrow> bool \<Rightarrow> request \<Rightarrow> identity" where
  "identity_of ops trust_proxy_headers req =
     (let ip = (case extract_client_ip (http_ops.truncate ops) trust_proxy_headers req of
                  Some ip \<Rightarrow> ip | None \<Rightarrow> LOCALHOST);
          (cred, verifiable) = credential ops (req_headers req) (req_path req)
      in \<lparr>id_ip = ip, id_key = (case cred of Some c \<Rightarrow> Credential c | None \<Rightarrow> Ip ip),
          id_verifiable = (if verifiable then cred else None)\<rparr>)"

section \<open>Classification\<close>

datatype path_class = Fixed request_class | GraphQl

definition is_query_over_post :: "ustr \<Rightarrow> bool" where
  "is_query_over_post path \<longleftrightarrow>
     path = lit ''/api/v2/version''
     \<or> (starts_with path (lit ''/api/v1/'') \<or> starts_with path (lit ''/komga/api/v1/''))
       \<and> ends_with path (lit ''/list'')
     \<or> starts_with path (lit ''/v1/'') \<and> ends_with path (lit ''/resolve'')"

definition mutating :: "http_method \<Rightarrow> bool" where
  "mutating method \<longleftrightarrow> method \<in> {POST, PUT, PATCH, DELETE}"

definition kobo_rest :: "ustr \<Rightarrow> ustr option" where
  "kobo_rest path =
     map_option (\<lambda>rest. case split_once 47 rest of Some (_, after) \<Rightarrow> after | None \<Rightarrow> [])
       (strip_prefix path (lit ''/kobo/''))"

definition path_class_of :: "http_method \<Rightarrow> ustr \<Rightarrow> path_class" where
  "path_class_of method path =
     (if (case strip_prefix path (lit ''/api/v2/auth/'') of
            Some rest \<Rightarrow> rest = lit ''oidc/callback'' \<or> method \<noteq> GET | None \<Rightarrow> False)
      then Fixed Auth
      else if method = POST
              \<and> path \<in> {lit ''/api/v2/devices/pair/start'', lit ''/v1/login'', lit ''/v1/tokens''}
      then Fixed Auth
      else if method = POST \<and> kobo_rest path = Some (lit ''v1/auth/device'')
      then Fixed Auth
      else if method = GET \<and> kobo_rest path = Some (lit ''v1/library/sync'')
      then Fixed Write
      else if method = POST \<and> drop_end_while (\<lambda>c. c = 47) path = lit ''/api/graphql''
      then GraphQl
      else if \<not> mutating method \<or> is_query_over_post path then Fixed Stream
      else Fixed Write)"

definition graphql_is_mutation :: "limiter_ops \<Rightarrow> byte list \<Rightarrow> bool" where
  "graphql_is_mutation ops body =
     (case from_slice ops body of
        None \<Rightarrow> False
      | Some (query, operation_name) \<Rightarrow>
          (case parse_query ops query of
             None \<Rightarrow> False
           | Some (SingleOperation ty) \<Rightarrow> ty = Mutation
           | Some (MultipleOperations operations) \<Rightarrow>
               (case operation_name of
                  Some name \<Rightarrow> map_of operations name = Some Mutation
                | None \<Rightarrow> list_ex (\<lambda>(_, ty). ty = Mutation) operations)))"

record response =
  status :: nat
  retry_after :: "nat option"

definition is_json :: "limiter_ops \<Rightarrow> header_map \<Rightarrow> bool" where
  "is_json ops hs =
     (case Option.bind (header ''content-type'' hs) (to_str ops) of
        None \<Rightarrow> False
      | Some v \<Rightarrow>
          let v = dropWhile is_whitespace v
          in length v \<ge> 16 \<and> eq_ignore_ascii_case (take 16 v) (lit ''application/json''))"

definition declared_length :: "limiter_ops \<Rightarrow> header_map \<Rightarrow> nat option" where
  "declared_length ops hs =
     Option.bind (Option.bind (header ''content-length'' hs) (to_str ops))
       (parse_unsigned 18446744073709551615)"

definition graphql_class :: "limiter_ops \<Rightarrow> request \<Rightarrow> (response, request_class) result" where
  "graphql_class ops req =
     (if \<not> is_json ops (req_headers req)
         \<or> (case declared_length ops (req_headers req) of
              None \<Rightarrow> True | Some n \<Rightarrow> n > GRAPHQL_SNIFF_LIMIT)
      then Inr Write
      else case to_bytes ops (req_body req) GRAPHQL_SNIFF_LIMIT of
             Inl _ \<Rightarrow> Inl \<lparr>status = 400, retry_after = None\<rparr>
           | Inr bytes \<Rightarrow> Inr (if graphql_is_mutation ops bytes then Write else Stream))"

definition classify :: "limiter_ops \<Rightarrow> request \<Rightarrow> (response, request_class) result" where
  "classify ops req =
     (case path_class_of (req_method req) (req_path req) of
        Fixed class \<Rightarrow> Inr class
      | GraphQl \<Rightarrow> graphql_class ops req)"

section \<open>The limiter\<close>

text \<open>
  \<open>RateLimiter\<close>. The map of stream slots holds a semaphore by a number that stands for its
  \<open>Arc\<close>. \<open>lm_requests\<close> are the requests inside the middleware with what each is doing: it
  tells which semaphores are still referenced (\<open>Arc::strong_count\<close>) and how many permits are
  out. \<open>lm_answers\<close> is a record of the answers given per credential, latest first, kept for
  the statements only.
\<close>

record 'g governor_ops =
  retain_recent :: "int \<Rightarrow> 'g \<Rightarrow> 'g"
  check_key :: "int \<Rightarrow> key \<Rightarrow> 'g \<Rightarrow> 'g \<times> int option"

datatype stage =
    Waiting identity nat
  | Running identity request_class "nat option"
  | Sending identity nat

record 'g limiter =
  lm_auth :: 'g
  lm_write :: 'g
  lm_streams :: "(key \<times> nat) list"
  lm_next_semaphore :: nat
  lm_verified :: "(fingerprint \<times> int) list"
  lm_allowed :: "request_class \<Rightarrow> nat"
  lm_limited :: "request_class \<Rightarrow> nat"
  lm_checks :: nat
  lm_requests :: "(nat \<times> stage) list"
  lm_answers :: "(fingerprint \<times> nat \<times> int) list"

definition limiter_new :: "'g \<Rightarrow> 'g \<Rightarrow> 'g limiter" where
  "limiter_new auth write_state =
     \<lparr>lm_auth = auth, lm_write = write_state, lm_streams = [], lm_next_semaphore = 0,
      lm_verified = [], lm_allowed = (\<lambda>_. 0), lm_limited = (\<lambda>_. 0), lm_checks = 0,
      lm_requests = [], lm_answers = []\<rparr>"

definition u64_incr :: "nat \<Rightarrow> nat" where
  "u64_incr n = (n + 1) mod 18446744073709551616"

definition elapsed :: "int \<Rightarrow> int \<Rightarrow> int" where
  "elapsed now t = max 0 (now - t)"

definition is_verified :: "int \<Rightarrow> fingerprint \<Rightarrow> 'g limiter \<Rightarrow> bool" where
  "is_verified now fp st =
     (case map_of (lm_verified st) fp of Some t \<Rightarrow> elapsed now t < VERIFIED_TTL | None \<Rightarrow> False)"

text \<open>\<open>Iterator::min_by_key\<close>: the first of several minima.\<close>

fun min_by_key :: "('a \<Rightarrow> int) \<Rightarrow> 'a list \<Rightarrow> 'a option" where
  "min_by_key f [] = None"
| "min_by_key f (x # xs) =
     (case min_by_key f xs of
        None \<Rightarrow> Some x
      | Some y \<Rightarrow> if f x \<le> f y then Some x else Some y)"

definition evict_verified :: "int \<Rightarrow> (fingerprint \<times> int) list \<Rightarrow> (fingerprint \<times> int) list" where
  "evict_verified now vs =
     (let vs = filter (\<lambda>(_, t). elapsed now t < VERIFIED_TTL) vs
      in if length vs \<ge> VERIFIED_CAPACITY
         then (case min_by_key snd vs of Some (oldest, _) \<Rightarrow> AList.delete oldest vs | None \<Rightarrow> vs)
         else vs)"

definition record_verification :: "int \<Rightarrow> fingerprint \<Rightarrow> nat \<Rightarrow> 'g limiter \<Rightarrow> 'g limiter" where
  "record_verification now fp code st =
     (if code = 401 then st\<lparr>lm_verified := AList.delete fp (lm_verified st)\<rparr>
      else let vs = (if length (lm_verified st) \<ge> VERIFIED_CAPACITY \<and> map_of (lm_verified st) fp = None
                     then evict_verified now (lm_verified st) else lm_verified st)
           in st\<lparr>lm_verified := AList.update fp now vs\<rparr>)"

definition check ::
  "'g governor_ops \<Rightarrow> int \<Rightarrow> request_class \<Rightarrow> key \<Rightarrow> 'g limiter \<Rightarrow> 'g limiter \<times> int option" where
  "check gov now cls k st =
     (let n = lm_checks st;
          st = st\<lparr>lm_checks := u64_incr n\<rparr>;
          st = (if n mod RETAIN_EVERY = 0
                then st\<lparr>lm_auth := retain_recent gov now (lm_auth st),
                        lm_write := retain_recent gov now (lm_write st)\<rparr>
                else st)
      in if cls = Auth
         then (case check_key gov now k (lm_auth st) of (g, r) \<Rightarrow> (st\<lparr>lm_auth := g\<rparr>, r))
         else (case check_key gov now k (lm_write st) of (g, r) \<Rightarrow> (st\<lparr>lm_write := g\<rparr>, r)))"

definition allowed :: "request_class \<Rightarrow> 'g limiter \<Rightarrow> 'g limiter" where
  "allowed cls st = st\<lparr>lm_allowed := (lm_allowed st)(cls := u64_incr (lm_allowed st cls))\<rparr>"

definition too_many_requests :: "int \<Rightarrow> response" where
  "too_many_requests wait =
     \<lparr>status = 429,
      retry_after = Some (nat (f64_to_u64 (f64_max (f64_ceil (as_secs_f64 wait)) (Fin 1))))\<rparr>"

definition limited :: "request_class \<Rightarrow> int \<Rightarrow> 'g limiter \<Rightarrow> 'g limiter \<times> response" where
  "limited cls wait st =
     (st\<lparr>lm_limited := (lm_limited st)(cls := u64_incr (lm_limited st cls))\<rparr>,
      too_many_requests wait)"

fun refers :: "stage \<Rightarrow> nat option" where
  "refers (Waiting _ s) = Some s"
| "refers (Running _ _ p) = p"
| "refers (Sending _ s) = Some s"

fun permit :: "stage \<Rightarrow> nat option" where
  "permit (Waiting _ s) = None"
| "permit (Running _ _ p) = p"
| "permit (Sending _ s) = Some s"

fun stage_identity :: "stage \<Rightarrow> identity" where
  "stage_identity (Waiting i _) = i"
| "stage_identity (Running i _ _) = i"
| "stage_identity (Sending i _) = i"

definition strong_count :: "nat \<Rightarrow> 'g limiter \<Rightarrow> nat" where
  "strong_count s st = 1 + length (filter (\<lambda>(_, g). refers g = Some s) (lm_requests st))"

definition permits_out :: "nat \<Rightarrow> 'g limiter \<Rightarrow> nat" where
  "permits_out s st = length (filter (\<lambda>(_, g). permit g = Some s) (lm_requests st))"

definition stream_semaphore :: "key \<Rightarrow> 'g limiter \<Rightarrow> 'g limiter \<times> nat" where
  "stream_semaphore k st =
     (let streams = (if length (lm_streams st) \<ge> VERIFIED_CAPACITY
                     then filter (\<lambda>(_, s). strong_count s st > 1) (lm_streams st)
                     else lm_streams st)
      in case map_of streams k of
           Some s \<Rightarrow> (st\<lparr>lm_streams := streams\<rparr>, s)
         | None \<Rightarrow> (st\<lparr>lm_streams := (k, lm_next_semaphore st) # streams,
                        lm_next_semaphore := lm_next_semaphore st + 1\<rparr>,
                    lm_next_semaphore st))"

definition put_request :: "nat \<Rightarrow> stage \<Rightarrow> 'g limiter \<Rightarrow> 'g limiter" where
  "put_request rid g st = st\<lparr>lm_requests := AList.update rid g (lm_requests st)\<rparr>"

definition drop_request :: "nat \<Rightarrow> 'g limiter \<Rightarrow> 'g limiter" where
  "drop_request rid st = st\<lparr>lm_requests := AList.delete rid (lm_requests st)\<rparr>"

text \<open>The end of \<open>handle\<close>: the answer's status is recorded for a verifiable credential.\<close>

definition conclude :: "int \<Rightarrow> identity \<Rightarrow> response \<Rightarrow> 'g limiter \<Rightarrow> 'g limiter" where
  "conclude now who resp st =
     (case id_verifiable who of
        None \<Rightarrow> st
      | Some fp \<Rightarrow>
          (record_verification now fp (status resp) st)
            \<lparr>lm_answers := (fp, status resp, now) # lm_answers st\<rparr>)"

definition refuse ::
  "int \<Rightarrow> identity \<Rightarrow> request_class \<Rightarrow> int \<Rightarrow> 'g limiter \<Rightarrow> 'g limiter \<times> response" where
  "refuse now who cls wait st =
     (case limited cls wait st of (st, resp) \<Rightarrow> (conclude now who resp st, resp))"

definition effective_class :: "int \<Rightarrow> identity \<Rightarrow> request_class \<Rightarrow> 'g limiter \<Rightarrow> request_class" where
  "effective_class now who cls st =
     (case id_verifiable who of
        Some fp \<Rightarrow> if \<not> is_verified now fp st then Auth else cls
      | None \<Rightarrow> cls)"

text \<open>
  \<open>handle\<close> up to the point where the request is handed to the next service or waits for a
  slot; a response means that it was answered here.
\<close>

definition arrive ::
  "limiter_ops \<Rightarrow> 'g governor_ops \<Rightarrow> bool \<Rightarrow> int \<Rightarrow> nat \<Rightarrow> request \<Rightarrow> 'g limiter
     \<Rightarrow> 'g limiter \<times> response option" where
  "arrive ops gov trust now rid req st =
     (let who = identity_of ops trust req
      in case classify ops req of
           Inl rejection \<Rightarrow> (st, Some rejection)
         | Inr cls \<Rightarrow>
             (let cls = effective_class now who cls st
              in case cls of
                   Stream \<Rightarrow>
                     (case stream_semaphore (id_key who) st of
                        (st, s) \<Rightarrow> (put_request rid (Waiting who s) st, None))
                 | _ \<Rightarrow>
                     (case check gov now cls (if cls = Auth then Ip (id_ip who) else id_key who) st of
                        (st, None) \<Rightarrow> (put_request rid (Running who cls None) st, None)
                      | (st, Some wait) \<Rightarrow>
                          (case refuse now who cls wait st of (st, resp) \<Rightarrow> (st, Some resp)))))"

definition respond :: "int \<Rightarrow> nat \<Rightarrow> response \<Rightarrow> 'g limiter \<Rightarrow> 'g limiter" where
  "respond now rid resp st =
     (case map_of (lm_requests st) rid of
        Some (Running who cls p) \<Rightarrow>
          conclude now who resp (allowed cls
            (case p of None \<Rightarrow> drop_request rid st | Some s \<Rightarrow> put_request rid (Sending who s) st))
      | _ \<Rightarrow> st)"

definition time_out :: "int \<Rightarrow> nat \<Rightarrow> 'g limiter \<Rightarrow> 'g limiter" where
  "time_out now rid st =
     (case map_of (lm_requests st) rid of
        Some (Waiting who s) \<Rightarrow> fst (refuse now who Stream 1000000000 (drop_request rid st))
      | _ \<Rightarrow> st)"

text \<open>
  The steps of the middleware. A semaphore gives a permit only while fewer than its count are
  out; a response may come at any time and with any status; a body ends when it is fully sent;
  a client that disconnects takes its request away.
\<close>

inductive limiter_step ::
  "limiter_ops \<Rightarrow> 'g governor_ops \<Rightarrow> rate_limit_config \<Rightarrow> bool \<Rightarrow> 'g limiter \<Rightarrow> 'g limiter \<Rightarrow> bool"
  for ops gov cfg trust where
  arrive: "rid \<notin> fst ` set (lm_requests st) \<Longrightarrow>
    limiter_step ops gov cfg trust st (fst (arrive ops gov trust now rid req st))"
| acquire: "map_of (lm_requests st) rid = Some (Waiting who s) \<Longrightarrow>
    permits_out s st < stream_concurrency cfg \<Longrightarrow>
    limiter_step ops gov cfg trust st (put_request rid (Running who Stream (Some s)) st)"
| time_out: "limiter_step ops gov cfg trust st (time_out now rid st)"
| respond: "limiter_step ops gov cfg trust st (respond now rid resp st)"
| sent: "map_of (lm_requests st) rid = Some (Sending who s) \<Longrightarrow>
    limiter_step ops gov cfg trust st (drop_request rid st)"
| disconnect: "limiter_step ops gov cfg trust st (drop_request rid st)"

inductive_cases limiter_stepE: "limiter_step ops gov cfg trust st st'"


section \<open>Stream slots\<close>

definition permit_ids :: "nat \<Rightarrow> (nat \<times> stage) list \<Rightarrow> nat set" where
  "permit_ids s rs = {rid. Option.bind (map_of rs rid) permit = Some s}"

lemma permit_ids_update:
  "permit_ids s (AList.update rid g rs)
     = (if permit g = Some s then insert rid (permit_ids s rs) else permit_ids s rs - {rid})"
  by (auto simp: permit_ids_def update_conv')

lemma permit_ids_delete: "permit_ids s (AList.delete rid rs) = permit_ids s rs - {rid}"
  by (auto simp: permit_ids_def delete_conv')

lemma finite_permit_ids [simp]: "finite (permit_ids s rs)"
proof (rule finite_subset)
  show "permit_ids s rs \<subseteq> fst ` set rs"
    by (auto simp: permit_ids_def bind_eq_Some_conv dest!: map_of_SomeD intro: rev_image_eqI)
qed simp

lemma permits_out_card:
  "distinct (map fst (lm_requests st)) \<Longrightarrow> permits_out s st = card (permit_ids s (lm_requests st))"
  unfolding permits_out_def permit_ids_def
  by (simp add: filter_length_card bind_eq_Some_conv)

definition slots_ok :: "rate_limit_config \<Rightarrow> 'g limiter \<Rightarrow> bool" where
  "slots_ok cfg st \<longleftrightarrow>
     distinct (map fst (lm_requests st)) \<and> distinct (map fst (lm_streams st))
     \<and> (\<forall>(rid, g)\<in>set (lm_requests st). \<forall>s. refers g = Some s
          \<longrightarrow> (id_key (stage_identity g), s) \<in> set (lm_streams st))
     \<and> (\<forall>s. permits_out s st \<le> stream_concurrency cfg)"

lemma slots_okD:
  assumes "slots_ok cfg st"
  shows "distinct (map fst (lm_requests st))" "distinct (map fst (lm_streams st))"
    "map_of (lm_requests st) rid = Some g \<Longrightarrow> refers g = Some s
       \<Longrightarrow> (id_key (stage_identity g), s) \<in> set (lm_streams st)"
    "card (permit_ids s (lm_requests st)) \<le> stream_concurrency cfg"
proof -
  show "distinct (map fst (lm_requests st))" "distinct (map fst (lm_streams st))"
    using assms by (simp_all add: slots_ok_def)
  show "map_of (lm_requests st) rid = Some g \<Longrightarrow> refers g = Some s
       \<Longrightarrow> (id_key (stage_identity g), s) \<in> set (lm_streams st)"
    using assms by (auto simp: slots_ok_def dest!: map_of_SomeD)
  show "card (permit_ids s (lm_requests st)) \<le> stream_concurrency cfg"
    using assms by (simp add: slots_ok_def flip: permits_out_card)
qed

lemma slots_okI:
  assumes "distinct (map fst (lm_requests st))" "distinct (map fst (lm_streams st))"
    "\<And>rid g s. map_of (lm_requests st) rid = Some g \<Longrightarrow> refers g = Some s
       \<Longrightarrow> (id_key (stage_identity g), s) \<in> set (lm_streams st)"
    "\<And>s. card (permit_ids s (lm_requests st)) \<le> stream_concurrency cfg"
  shows "slots_ok cfg st"
  using assms by (auto simp: slots_ok_def permits_out_card)

text \<open>The invariant reads two fields of the state only.\<close>

lemma slots_ok_cong:
  "lm_requests st' = lm_requests st \<Longrightarrow> lm_streams st' = lm_streams st
     \<Longrightarrow> slots_ok cfg st' \<longleftrightarrow> slots_ok cfg st"
  by (simp add: slots_ok_def permits_out_def)

lemma slots_ok_drop: "slots_ok cfg st \<Longrightarrow> slots_ok cfg (drop_request rid st)"
proof (rule slots_okI)
  assume ok: "slots_ok cfg st"
  show "distinct (map fst (lm_requests (drop_request rid st)))"
    using slots_okD(1) [OF ok] by (simp add: drop_request_def distinct_delete)
  show "distinct (map fst (lm_streams (drop_request rid st)))"
    using slots_okD(2) [OF ok] by (simp add: drop_request_def)
  show "(id_key (stage_identity g), s) \<in> set (lm_streams (drop_request rid st))"
    if "map_of (lm_requests (drop_request rid st)) rid' = Some g" "refers g = Some s" for rid' g s
    using that slots_okD(3) [OF ok]
    by (auto simp: drop_request_def delete_conv' split: if_splits)
  show "card (permit_ids s (lm_requests (drop_request rid st))) \<le> stream_concurrency cfg" for s
    using slots_okD(4) [OF ok, of s] card_Diff1_le [of "permit_ids s (lm_requests st)" rid]
    by (simp add: drop_request_def permit_ids_delete)
qed

lemma slots_ok_put:
  assumes "slots_ok cfg st"
    "\<And>s. refers g = Some s \<Longrightarrow> (id_key (stage_identity g), s) \<in> set (lm_streams st)"
    "\<And>s. permit g = Some s \<Longrightarrow> rid \<in> permit_ids s (lm_requests st)
       \<or> permits_out s st < stream_concurrency cfg"
  shows "slots_ok cfg (put_request rid g st)"
proof (rule slots_okI)
  show "distinct (map fst (lm_requests (put_request rid g st)))"
    using slots_okD(1) [OF assms(1)] by (simp add: put_request_def distinct_update)
  show "distinct (map fst (lm_streams (put_request rid g st)))"
    using slots_okD(2) [OF assms(1)] by (simp add: put_request_def)
  show "(id_key (stage_identity g'), s) \<in> set (lm_streams (put_request rid g st))"
    if "map_of (lm_requests (put_request rid g st)) rid' = Some g'" "refers g' = Some s" for rid' g' s
    using that slots_okD(3) [OF assms(1)] assms(2)
    by (auto simp: put_request_def update_conv' split: if_splits)
  show "card (permit_ids s (lm_requests (put_request rid g st))) \<le> stream_concurrency cfg" for s
  proof (cases "permit g = Some s")
    case True
    then have "rid \<in> permit_ids s (lm_requests st)
        \<or> card (permit_ids s (lm_requests st)) < stream_concurrency cfg"
      using assms(3) permits_out_card [OF slots_okD(1) [OF assms(1)]] by metis
    with True slots_okD(4) [OF assms(1), of s] show ?thesis
      by (auto simp: put_request_def permit_ids_update insert_absorb card_insert_if)
  next
    case False
    with slots_okD(4) [OF assms(1), of s] card_Diff1_le [of "permit_ids s (lm_requests st)" rid]
    show ?thesis by (simp add: put_request_def permit_ids_update)
  qed
qed

lemma stream_semaphore_requests [simp]:
  "lm_requests (fst (stream_semaphore k st)) = lm_requests st"
  by (simp add: stream_semaphore_def Let_def split: option.split)

lemma referenced_count:
  "map_of (lm_requests st) rid = Some g \<Longrightarrow> refers g = Some s \<Longrightarrow> strong_count s st > 1"
  by (auto simp: strong_count_def filter_empty_conv dest!: map_of_SomeD)

lemma stream_semaphore_ok:
  assumes "slots_ok cfg st"
  shows "slots_ok cfg (fst (stream_semaphore k st))"
    "(k, snd (stream_semaphore k st)) \<in> set (lm_streams (fst (stream_semaphore k st)))"
proof -
  define ss where "ss = (if length (lm_streams st) \<ge> VERIFIED_CAPACITY
    then filter (\<lambda>(_, s). strong_count s st > 1) (lm_streams st) else lm_streams st)"
  have d: "distinct (map fst ss)"
    using slots_okD(2) [OF assms] by (auto simp: ss_def distinct_map_filter)
  have keep: "(id_key (stage_identity g), s) \<in> set ss"
    if "map_of (lm_requests st) rid = Some g" "refers g = Some s" for rid g s
    using slots_okD(3) [OF assms that] referenced_count [OF that] by (auto simp: ss_def)
  have e: "stream_semaphore k st = (case map_of ss k of
      Some s \<Rightarrow> (st\<lparr>lm_streams := ss\<rparr>, s)
    | None \<Rightarrow> (st\<lparr>lm_streams := (k, lm_next_semaphore st) # ss,
                  lm_next_semaphore := lm_next_semaphore st + 1\<rparr>, lm_next_semaphore st))"
    unfolding stream_semaphore_def ss_def Let_def by (rule refl)
  show "slots_ok cfg (fst (stream_semaphore k st))"
  proof (rule slots_okI)
    show "distinct (map fst (lm_streams (fst (stream_semaphore k st))))"
      using d by (auto simp: e map_of_eq_None_iff split: option.split)
    show "(id_key (stage_identity g), s) \<in> set (lm_streams (fst (stream_semaphore k st)))"
      if "map_of (lm_requests (fst (stream_semaphore k st))) rid = Some g" "refers g = Some s" for rid g s
      using keep [of rid g s] that by (auto simp: e split: option.split)
  qed (use slots_okD(1,4) [OF assms] in simp_all)
  show "(k, snd (stream_semaphore k st)) \<in> set (lm_streams (fst (stream_semaphore k st)))"
    by (auto simp: e dest: map_of_SomeD split: option.split)
qed

text \<open>What the other operations leave alone.\<close>

lemma frame_simps [simp]:
  "lm_requests (fst (check gov now cls k st)) = lm_requests st"
  "lm_streams (fst (check gov now cls k st)) = lm_streams st"
  "lm_verified (fst (check gov now cls k st)) = lm_verified st"
  "lm_answers (fst (check gov now cls k st)) = lm_answers st"
  by (simp_all add: check_def Let_def split: prod.split)

lemma record_verification_frame [simp]:
  "lm_requests (record_verification now fp code st) = lm_requests st"
  "lm_streams (record_verification now fp code st) = lm_streams st"
  "lm_answers (record_verification now fp code st) = lm_answers st"
  by (simp_all add: record_verification_def Let_def)

lemma conclude_frame [simp]:
  "lm_requests (conclude now who resp st) = lm_requests st"
  "lm_streams (conclude now who resp st) = lm_streams st"
  by (simp_all add: conclude_def split: option.split)

lemma allowed_frame [simp]:
  "lm_requests (allowed cls st) = lm_requests st" "lm_streams (allowed cls st) = lm_streams st"
  "lm_verified (allowed cls st) = lm_verified st" "lm_answers (allowed cls st) = lm_answers st"
  by (simp_all add: allowed_def)

lemma request_frame [simp]:
  "lm_verified (put_request rid g st) = lm_verified st" "lm_answers (put_request rid g st) = lm_answers st"
  "lm_verified (drop_request rid st) = lm_verified st" "lm_answers (drop_request rid st) = lm_answers st"
  "lm_streams (put_request rid g st) = lm_streams st" "lm_streams (drop_request rid st) = lm_streams st"
  by (simp_all add: put_request_def drop_request_def)

lemma refuse_frame [simp]:
  "lm_requests (fst (refuse now who cls wait st)) = lm_requests st"
  "lm_streams (fst (refuse now who cls wait st)) = lm_streams st"
  by (simp_all add: refuse_def limited_def)

lemma slots_ok_frame [simp]:
  "slots_ok cfg (fst (refuse now who cls wait st)) \<longleftrightarrow> slots_ok cfg st"
  "slots_ok cfg (conclude now who resp st) \<longleftrightarrow> slots_ok cfg st"
  "slots_ok cfg (allowed cls st) \<longleftrightarrow> slots_ok cfg st"
  "slots_ok cfg (fst (check gov now cls k st)) \<longleftrightarrow> slots_ok cfg st"
  by (rule slots_ok_cong; simp)+

lemma arrive_cases:
  obtains
    (rejected) r where "arrive ops gov trust now rid req st = (st, Some r)"
  | (stream) s st' where "stream_semaphore (id_key (identity_of ops trust req)) st = (st', s)"
      "arrive ops gov trust now rid req st = (put_request rid (Waiting (identity_of ops trust req) s) st', None)"
  | (granted) cls k st' where "check gov now cls k st = (st', None)"
      "arrive ops gov trust now rid req st = (put_request rid (Running (identity_of ops trust req) cls None) st', None)"
  | (refused) cls k st' wait where "check gov now cls k st = (st', Some wait)"
      "arrive ops gov trust now rid req st
         = (fst (refuse now (identity_of ops trust req) cls wait st'),
            Some (snd (refuse now (identity_of ops trust req) cls wait st')))"
proof (cases "classify ops req")
  case (Inl r)
  then show thesis by (intro rejected) (simp add: arrive_def)
next
  case (Inr c)
  define who where "who = identity_of ops trust req"
  define cls where "cls = effective_class now who c st"
  have checked: thesis
    if c: "cls \<noteq> Stream" and k: "k = (if cls = Auth then Ip (id_ip who) else id_key who)" for k
  proof -
    obtain st' r where r: "check gov now cls k st = (st', r)" by fastforce
    have a: "arrive ops gov trust now rid req st = (case (st', r) of
        (st, None) \<Rightarrow> (put_request rid (Running who cls None) st, None)
      | (st, Some wait) \<Rightarrow> (case refuse now who cls wait st of (st, resp) \<Rightarrow> (st, Some resp)))"
      using Inr c r unfolding k by (cases cls) (simp_all add: arrive_def who_def cls_def Let_def)
    show thesis
    proof (cases r)
      case None
      show thesis by (rule granted [of cls k st']) (use r a None in \<open>simp_all add: who_def\<close>)
    next
      case (Some wait)
      show thesis
        by (rule refused [of cls k st' wait]) (use r a Some in \<open>simp_all add: who_def split_beta\<close>)
    qed
  qed
  show thesis
  proof (cases "cls = Stream")
    case True
    obtain st' s where s: "stream_semaphore (id_key who) st = (st', s)" by fastforce
    show thesis
      by (rule stream [of st' s]) (use Inr True s in \<open>simp_all add: arrive_def who_def cls_def Let_def\<close>)
  qed (use checked in blast)
qed

lemma arrive_slots_ok:
  assumes "slots_ok cfg st"
  shows "slots_ok cfg (fst (arrive ops gov trust now rid req st))"
proof -
  have c: "slots_ok cfg (fst (check gov now cls k st))" for cls k
    using assms by simp
  show ?thesis
  proof (cases rule: arrive_cases [of ops gov trust now rid req st])
    case (stream s st')
    have "slots_ok cfg (put_request rid (Waiting (identity_of ops trust req) s) st')"
      using stream_semaphore_ok [OF assms, of "id_key (identity_of ops trust req)"] stream(1)
      by (intro slots_ok_put) auto
    with stream(2) show ?thesis by simp
  next
    case (granted cls k st')
    have "slots_ok cfg (put_request rid (Running (identity_of ops trust req) cls None) st')"
      using c [of cls k] granted(1) by (intro slots_ok_put) auto
    with granted(2) show ?thesis by simp
  next
    case (refused cls k st' wait)
    with c [of cls k] show ?thesis by simp
  qed (use assms in simp)
qed

lemma respond_slots_ok:
  assumes "slots_ok cfg st"
  shows "slots_ok cfg (respond now rid resp st)"
proof (cases "\<exists>who cls p. map_of (lm_requests st) rid = Some (Running who cls p)")
  case True
  then obtain who cls p where r: "map_of (lm_requests st) rid = Some (Running who cls p)" by blast
  let ?st = "case p of None \<Rightarrow> drop_request rid st | Some s \<Rightarrow> put_request rid (Sending who s) st"
  have "slots_ok cfg ?st"
  proof (cases p)
    case (Some s)
    have "slots_ok cfg (put_request rid (Sending who s) st)"
    proof (rule slots_ok_put [OF assms])
      show "(id_key (stage_identity (Sending who s)), s') \<in> set (lm_streams st)"
        if "refers (Sending who s) = Some s'" for s'
        using slots_okD(3) [OF assms r] that Some by simp
      show "rid \<in> permit_ids s' (lm_requests st) \<or> permits_out s' st < stream_concurrency cfg"
        if "permit (Sending who s) = Some s'" for s'
        using that r Some by (simp add: permit_ids_def)
    qed
    with Some show ?thesis by simp
  qed (simp add: assms slots_ok_drop)
  moreover have "respond now rid resp st = conclude now who resp (allowed cls ?st)"
    using r by (simp add: respond_def)
  ultimately show ?thesis by simp
qed (auto simp: respond_def assms split: option.split stage.split)

lemma time_out_slots_ok: "slots_ok cfg st \<Longrightarrow> slots_ok cfg (time_out now rid st)"
  by (auto simp: time_out_def slots_ok_drop split: option.split stage.split)

lemma step_slots_ok:
  assumes "limiter_step ops gov cfg trust st st'" "slots_ok cfg st"
  shows "slots_ok cfg st'"
  using assms(1)
proof (cases rule: limiter_step.cases)
  case (acquire rid who s)
  have "slots_ok cfg (put_request rid (Running who Stream (Some s)) st)"
    using slots_okD(3) [OF assms(2) acquire(2)] acquire(3) by (intro slots_ok_put assms(2)) auto
  with acquire show ?thesis by simp
qed (use assms(2) in \<open>simp_all add: arrive_slots_ok respond_slots_ok time_out_slots_ok slots_ok_drop\<close>)

lemma slots_ok_new: "slots_ok cfg (limiter_new a w)"
  by (rule slots_okI) (simp_all add: limiter_new_def permit_ids_def)

lemma reachable_slots_ok:
  "(limiter_step ops gov cfg trust)\<^sup>*\<^sup>* (limiter_new a w) st \<Longrightarrow> slots_ok cfg st"
  by (induction rule: rtranclp_induct) (auto intro: slots_ok_new step_slots_ok)

definition in_flight :: "key \<Rightarrow> 'g limiter \<Rightarrow> nat" where
  "in_flight k st =
     length (filter (\<lambda>(_, g). permit g \<noteq> None \<and> id_key (stage_identity g) = k) (lm_requests st))"

lemma permit_refers: "permit g = Some s \<Longrightarrow> refers g = Some s"
  by (cases g) auto

lemma in_flight_bound:
  assumes "slots_ok cfg st"
  shows "in_flight k st \<le> stream_concurrency cfg"
proof (cases "\<exists>rid g s. map_of (lm_requests st) rid = Some g \<and> permit g = Some s
    \<and> id_key (stage_identity g) = k")
  case True
  then obtain rid g s where g: "map_of (lm_requests st) rid = Some g" "permit g = Some s"
    "id_key (stage_identity g) = k" by blast
  have s: "s' = s" if "map_of (lm_requests st) rid' = Some g'" "permit g' = Some s'"
      "id_key (stage_identity g') = k" for rid' g' s'
  proof -
    have "(k, s') \<in> set (lm_streams st)" "(k, s) \<in> set (lm_streams st)"
      using slots_okD(3) [OF assms that(1) permit_refers [OF that(2)]]
        slots_okD(3) [OF assms g(1) permit_refers [OF g(2)]] that(3) g(3) by simp_all
    with slots_okD(2) [OF assms] show ?thesis by (metis map_of_eq_Some_iff option.inject)
  qed
  have "in_flight k st = card {rid. \<exists>g. map_of (lm_requests st) rid = Some g \<and> permit g \<noteq> None
      \<and> id_key (stage_identity g) = k}"
    unfolding in_flight_def by (rule filter_length_card [OF slots_okD(1) [OF assms]])
  also have "\<dots> \<le> card (permit_ids s (lm_requests st))"
    using s by (intro card_mono finite_permit_ids) (auto simp: permit_ids_def)
  also have "\<dots> \<le> stream_concurrency cfg" by (rule slots_okD(4) [OF assms])
  finally show ?thesis .
next
  case False
  then have "filter (\<lambda>(_, g). permit g \<noteq> None \<and> id_key (stage_identity g) = k) (lm_requests st) = []"
    by (force simp: filter_empty_conv dest: map_of_is_SomeI [OF slots_okD(1) [OF assms]])
  then show ?thesis by (simp add: in_flight_def)
qed

section \<open>The cache of verified credentials\<close>

definition cache_ok :: "'g limiter \<Rightarrow> bool" where
  "cache_ok st \<longleftrightarrow>
     distinct (map fst (lm_verified st)) \<and> length (lm_verified st) \<le> VERIFIED_CAPACITY
     \<and> (\<forall>(fp, t)\<in>set (lm_verified st). \<exists>code. map_of (lm_answers st) fp = Some (code, t) \<and> code \<noteq> 401)"

lemma cache_ok_cong:
  "lm_verified st' = lm_verified st \<Longrightarrow> lm_answers st' = lm_answers st \<Longrightarrow> cache_ok st' \<longleftrightarrow> cache_ok st"
  by (simp add: cache_ok_def)

lemma min_by_key_None [simp]: "min_by_key f xs = None \<longleftrightarrow> xs = []"
  by (cases xs) (auto split: option.splits)

lemma min_by_key_Some:
  "min_by_key f xs = Some x \<Longrightarrow> x \<in> set xs \<and> (\<forall>y\<in>set xs. f x \<le> f y)"
proof (induction xs arbitrary: x)
  case (Cons z zs)
  then show ?case by (cases "min_by_key f zs") (auto split: if_splits)
qed simp

lemma evict_verified_subset: "set (evict_verified now vs) \<subseteq> set vs"
  by (auto simp: evict_verified_def Let_def split: option.split dest!: set_alist_delete)

lemma evict_verified_distinct: "distinct (map fst vs) \<Longrightarrow> distinct (map fst (evict_verified now vs))"
  by (auto simp: evict_verified_def Let_def distinct_map_filter distinct_delete split: option.split)

lemma evict_verified_length:
  assumes "length vs \<le> VERIFIED_CAPACITY"
  shows "length (evict_verified now vs) < VERIFIED_CAPACITY"
proof -
  define ws where "ws = filter (\<lambda>(_, t). elapsed now t < VERIFIED_TTL) vs"
  have le: "length ws \<le> VERIFIED_CAPACITY"
    unfolding ws_def by (rule order_trans [OF length_filter_le assms])
  show ?thesis
  proof (cases "length ws \<ge> VERIFIED_CAPACITY")
    case True
    then have "ws \<noteq> []" by (auto simp: VERIFIED_CAPACITY_def)
    then obtain k t where m: "min_by_key snd ws = Some (k, t)"
      using min_by_key_None [of snd ws] by (cases "min_by_key snd ws") auto
    then have "length (AList.delete k ws) < length ws"
      by (intro length_alist_delete_less) (auto dest!: min_by_key_Some intro: rev_image_eqI)
    with True m le show ?thesis by (simp add: evict_verified_def flip: ws_def)
  qed (simp add: evict_verified_def flip: ws_def)
qed

lemma record_verification_cache:
  assumes "distinct (map fst (lm_verified st))" "length (lm_verified st) \<le> VERIFIED_CAPACITY"
  shows "distinct (map fst (lm_verified (record_verification now fp code st)))"
    "length (lm_verified (record_verification now fp code st)) \<le> VERIFIED_CAPACITY"
    "set (lm_verified (record_verification now fp code st))
       \<subseteq> (if code = 401 then {} else {(fp, now)}) \<union> {(fp', t) \<in> set (lm_verified st). fp' \<noteq> fp}"
proof -
  define vs where "vs = (if length (lm_verified st) \<ge> VERIFIED_CAPACITY \<and> map_of (lm_verified st) fp = None
    then evict_verified now (lm_verified st) else lm_verified st)"
  have e: "lm_verified (record_verification now fp code st)
      = (if code = 401 then AList.delete fp (lm_verified st) else AList.update fp now vs)"
    by (simp add: record_verification_def vs_def Let_def)
  have d: "distinct (map fst vs)" and sub: "set vs \<subseteq> set (lm_verified st)"
    using assms(1) evict_verified_distinct evict_verified_subset by (auto simp: vs_def)
  show "distinct (map fst (lm_verified (record_verification now fp code st)))"
    using d assms(1) by (simp add: e distinct_update distinct_delete)
  have "length (AList.update fp now vs) \<le> VERIFIED_CAPACITY"
    using assms(2) evict_verified_length [OF assms(2), of now]
    by (auto simp: vs_def length_alist_update map_of_None_fst)
  then show "length (lm_verified (record_verification now fp code st)) \<le> VERIFIED_CAPACITY"
    using assms(2) length_delete_le [of fp "lm_verified st"] by (simp add: e)
  have "x \<in> {(fp, now)} \<union> {(fp', t) \<in> set (lm_verified st). fp' \<noteq> fp}"
    if "x \<in> set (AList.update fp now vs)" for x
    using set_alist_update_distinct [OF d that] sub by (cases x) auto
  moreover have "x \<in> {(fp', t) \<in> set (lm_verified st). fp' \<noteq> fp}"
    if "x \<in> set (AList.delete fp (lm_verified st))" for x
    using that by (auto simp: AList.delete_eq)
  ultimately show "set (lm_verified (record_verification now fp code st))
       \<subseteq> (if code = 401 then {} else {(fp, now)}) \<union> {(fp', t) \<in> set (lm_verified st). fp' \<noteq> fp}"
    unfolding e by auto
qed

lemma conclude_cache_ok:
  assumes "cache_ok st"
  shows "cache_ok (conclude now who resp st)"
proof (cases "id_verifiable who")
  case (Some fp)
  have d: "distinct (map fst (lm_verified st))" "length (lm_verified st) \<le> VERIFIED_CAPACITY"
    using assms by (simp_all add: cache_ok_def)
  note r = record_verification_cache [OF d, of now fp "status resp"]
  have "\<exists>code. map_of (lm_answers (conclude now who resp st)) fp' = Some (code, t) \<and> code \<noteq> 401"
    if "(fp', t) \<in> set (lm_verified (conclude now who resp st))" for fp' t
    using that r(3) assms Some
    by (cases "fp' = fp") (auto simp: conclude_def cache_ok_def split: if_splits)
  with r(1,2) Some show ?thesis by (auto simp: cache_ok_def conclude_def)
qed (use assms in \<open>simp add: conclude_def\<close>)

lemma cache_ok_frame [simp]:
  "cache_ok (allowed cls st) \<longleftrightarrow> cache_ok st"
  "cache_ok (put_request rid g st) \<longleftrightarrow> cache_ok st"
  "cache_ok (drop_request rid st) \<longleftrightarrow> cache_ok st"
  "cache_ok (fst (check gov now cls k st)) \<longleftrightarrow> cache_ok st"
  "cache_ok (fst (limited cls wait st)) \<longleftrightarrow> cache_ok st"
  "cache_ok (fst (stream_semaphore key st)) \<longleftrightarrow> cache_ok st"
  by (rule cache_ok_cong; simp add: limited_def stream_semaphore_def Let_def split: option.split)+

lemma refuse_cache_ok: "cache_ok st \<Longrightarrow> cache_ok (fst (refuse now who cls wait st))"
  using cache_ok_frame(5) [of cls wait st]
  by (simp add: refuse_def split_beta conclude_cache_ok del: cache_ok_frame)

lemma step_cache_ok:
  assumes "limiter_step ops gov cfg trust st st'" "cache_ok st"
  shows "cache_ok st'"
  using assms(1)
proof (cases rule: limiter_step.cases)
  case (arrive rid now req)
  have c: "cache_ok (fst (check gov now cls k st))" "cache_ok (fst (stream_semaphore k st))" for cls k
    using assms(2) by simp_all
  show ?thesis
  proof (cases rule: arrive_cases [of ops gov trust now rid req st])
    case (stream s t)
    with arrive(1) c(2) [of "id_key (identity_of ops trust req)"] show ?thesis by simp
  next
    case (granted cls k t)
    with arrive(1) c(1) [of cls k] show ?thesis by simp
  next
    case (refused cls k t wait)
    with arrive(1) c(1) [of cls k] show ?thesis by (simp add: refuse_cache_ok)
  qed (use arrive(1) assms(2) in simp)
next
  case (time_out now rid)
  with assms(2) show ?thesis
    by (auto simp: time_out_def refuse_cache_ok split: option.split stage.split)
next
  case (respond now rid resp)
  with assms(2) show ?thesis
    by (auto simp: respond_def conclude_cache_ok split: option.split stage.split)
qed (use assms(2) in simp_all)

lemma cache_ok_new: "cache_ok (limiter_new a w)"
  by (simp add: cache_ok_def limiter_new_def)

lemma reachable_cache_ok:
  "(limiter_step ops gov cfg trust)\<^sup>*\<^sup>* (limiter_new a w) st \<Longrightarrow> cache_ok st"
  by (induction rule: rtranclp_induct) (auto intro: step_cache_ok cache_ok_new)

lemma cache_ok_answer:
  assumes "cache_ok st" "map_of (lm_verified st) fp = Some t"
  shows "\<exists>code. map_of (lm_answers st) fp = Some (code, t) \<and> code \<noteq> 401"
  using assms(1) map_of_SomeD [OF assms(2)] unfolding cache_ok_def by blast

section \<open>Properties\<close>

lemma retry_after_pos: "retry_after (too_many_requests wait) = Some n \<Longrightarrow> 1 \<le> n"
  by (cases "f64_ceil (as_secs_f64 wait)") (auto simp: too_many_requests_def f64_max_def Suc_le_eq)

definition idle_governor :: "bool \<Rightarrow> unit governor_ops" where
  "idle_governor open_gate =
     \<lparr>retain_recent = (\<lambda>_ g. g), check_key = (\<lambda>_ _ g. (g, if open_gate then None else Some 6000000000))\<rparr>"

definition example_ops :: limiter_ops where
  "example_ops =
     \<lparr>to_str = Some, to_bytes = (\<lambda>b _. Inr b), sha256 = (\<lambda>b. b), from_slice = (\<lambda>_. None),
      parse_query = (\<lambda>_. None)\<rparr>"

definition example_request :: request where
  "example_request =
     \<lparr>req_method = GET, req_path = lit ''/opds/v1.2/catalog'',
      req_headers = [(''authorization'', lit ''Basic guess'')], req_peer = Some LOCALHOST, req_body = []\<rparr>"

definition example_config :: rate_limit_config where
  "example_config =
     \<lparr>enabled = True, auth_per_min = 10, auth_burst = 20, write_per_min = 120, write_burst = 60,
      stream_concurrency = 32\<rparr>"

text \<open>
  C5. In every interleaving of arrivals, waits, answers, bodies and disconnects, at most
  \<open>stream_concurrency\<close> requests of one key hold a stream slot, although idle slots are
  forgotten and created again when the map is full.
\<close>

theorem stream_slots_bounded:
  assumes "(limiter_step ops gov cfg trust)\<^sup>*\<^sup>* (limiter_new a w) st"
  shows "in_flight k st \<le> stream_concurrency cfg"
  by (rule in_flight_bound [OF reachable_slots_ok [OF assms]])

theorem stream_slots_bounded_witness:
  "in_flight (Ip LOCALHOST) (fst (arrive example_ops (idle_governor True) False 5 1 example_request
     (limiter_new () ()))) \<le> 32"
  using stream_slots_bounded [of example_ops "idle_governor True" example_config False "()" "()",
      OF r_into_rtranclp, OF limiter_step.arrive [of 1 "limiter_new () ()" _ _ _ _ 5 example_request]]
  by (simp add: example_config_def limiter_new_def)

text \<open>
  C20. A credential is exempt from the authentication limit only while the last answer to it was
  not a 401 and is less than a minute old; and the cache of such credentials never holds more
  than \<open>VERIFIED_CAPACITY\<close> entries.
\<close>

theorem verified_was_answered:
  assumes "(limiter_step ops gov cfg trust)\<^sup>*\<^sup>* (limiter_new a w) st"
  shows "length (lm_verified st) \<le> VERIFIED_CAPACITY
    \<and> (is_verified now fp st \<longrightarrow> (\<exists>code t. map_of (lm_answers st) fp = Some (code, t)
          \<and> code \<noteq> 401 \<and> now - t < VERIFIED_TTL))"
proof -
  have ok: "cache_ok st" by (rule reachable_cache_ok [OF assms])
  then have "length (lm_verified st) \<le> VERIFIED_CAPACITY" by (simp add: cache_ok_def)
  moreover have "\<exists>code t. map_of (lm_answers st) fp = Some (code, t) \<and> code \<noteq> 401 \<and> now - t < VERIFIED_TTL"
    if "is_verified now fp st"
    using that cache_ok_answer [OF ok, of fp]
    by (auto simp: is_verified_def elapsed_def split: option.splits)
  ultimately show ?thesis by blast
qed

theorem verified_was_answered_witness:
  "length (lm_verified (fst (arrive example_ops (idle_governor False) False 5 1 example_request
     (limiter_new () ())))) \<le> VERIFIED_CAPACITY"
  using verified_was_answered [of example_ops "idle_governor False" example_config False "()" "()",
      OF r_into_rtranclp, OF limiter_step.arrive [of 1 "limiter_new () ()" _ _ _ _ 5 example_request]]
  by (simp add: limiter_new_def)

text \<open>
  The first hit of a Basic, API-key or path-key credential is an authentication attempt,
  whatever its path: it is handed on exactly when the limiter admits the client's address, and
  is answered 429 with a \<open>Retry-After\<close> of at least one second otherwise.
\<close>

theorem first_hit_is_auth:
  assumes "classify ops req = Inr cls" "id_verifiable (identity_of ops trust req) = Some fp"
    "\<not> is_verified now fp st"
    "check gov now Auth (Ip (id_ip (identity_of ops trust req))) st = (st', r)"
  shows "case r of
      None \<Rightarrow> arrive ops gov trust now rid req st
        = (put_request rid (Running (identity_of ops trust req) Auth None) st', None)
    | Some wait \<Rightarrow> (\<exists>st'' n. arrive ops gov trust now rid req st
        = (st'', Some \<lparr>status = 429, retry_after = Some n\<rparr>)
        \<and> 1 \<le> n \<and> lm_requests st'' = lm_requests st)"
proof (cases r)
  case None
  with assms show ?thesis by (simp add: arrive_def Let_def effective_class_def)
next
  case (Some wait)
  obtain n where n: "too_many_requests wait = \<lparr>status = 429, retry_after = Some n\<rparr>" "1 \<le> n"
    using retry_after_pos [of wait] by (simp add: too_many_requests_def)
  have "lm_requests st' = lm_requests st" using assms(4) frame_simps(1) by (metis fst_conv)
  with assms Some n show ?thesis
    by (auto simp: arrive_def Let_def effective_class_def refuse_def limited_def)
qed

theorem first_hit_is_auth_witness:
  "\<exists>st'' n. arrive example_ops (idle_governor False) False 5 1 example_request (limiter_new () ())
      = (st'', Some \<lparr>status = 429, retry_after = Some n\<rparr>) \<and> 1 \<le> n"
proof -
  have c: "classify example_ops example_request = Inr Stream" by code_simp
  have v: "id_verifiable (identity_of example_ops False example_request) = Some (lit ''Basic guess'')"
    by code_simp
  have n: "\<not> is_verified 5 (lit ''Basic guess'') (limiter_new () ())"
    by (simp add: is_verified_def limiter_new_def)
  obtain st' where "check (idle_governor False) 5 Auth
      (Ip (id_ip (identity_of example_ops False example_request))) (limiter_new () ())
      = (st', Some 6000000000)"
    by (simp add: check_def Let_def idle_governor_def limiter_new_def RETAIN_EVERY_def)
  from first_hit_is_auth [OF c v n this, of 1] show ?thesis by auto
qed

text \<open>
  C21. A refusal verifies the credential it refused: the 429 of the limiter is recorded as an
  answer other than 401, so the same credential presented again within a minute is no longer
  counted as an authentication attempt. A client that sends every guess twice therefore gets
  every guess past the exhausted limit.
\<close>

theorem refusal_verifies:
  assumes "classify ops req = Inr Stream" "id_verifiable (identity_of ops trust req) = Some fp"
    "\<not> is_verified now fp st"
    "snd (check gov now Auth (Ip (id_ip (identity_of ops trust req))) st) = Some wait"
    "now \<le> now'" "now' < now + VERIFIED_TTL"
  shows "\<exists>st1 resp st2 s. arrive ops gov trust now rid req st = (st1, Some resp) \<and> status resp = 429
    \<and> arrive ops gov trust now' rid req st1
        = (put_request rid (Waiting (identity_of ops trust req) s) st2, None)
    \<and> lm_auth st2 = lm_auth st1 \<and> lm_checks st2 = lm_checks st1"
proof -
  define who where "who = identity_of ops trust req"
  obtain st' where c: "check gov now Auth (Ip (id_ip who)) st = (st', Some wait)"
    using assms(4) by (metis prod.collapse who_def)
  define st1 where "st1 = fst (refuse now who Auth wait st')"
  have a: "arrive ops gov trust now rid req st = (st1, Some (too_many_requests wait))"
    using assms(1-3) c
    by (simp add: arrive_def Let_def effective_class_def refuse_def limited_def st1_def flip: who_def)
  have "map_of (lm_verified st1) fp = Some now"
    using assms(2) by (simp add: st1_def refuse_def limited_def conclude_def too_many_requests_def
        record_verification_def Let_def update_conv' flip: who_def)
  then have v: "is_verified now' fp st1" using assms(5,6) by (simp add: is_verified_def elapsed_def VERIFIED_TTL_def)
  obtain st2 s where s: "stream_semaphore (id_key who) st1 = (st2, s)" by fastforce
  have "arrive ops gov trust now' rid req st1 = (put_request rid (Waiting who s) st2, None)"
    using assms(1,2) v s by (simp add: arrive_def Let_def effective_class_def flip: who_def)
  moreover have "lm_auth st2 = lm_auth st1 \<and> lm_checks st2 = lm_checks st1"
    using s by (auto simp: stream_semaphore_def Let_def split: option.splits)
  ultimately show ?thesis using a by (auto simp: who_def too_many_requests_def)
qed

theorem refusal_verifies_witness:
  "\<exists>st1 resp st2 s. arrive example_ops (idle_governor False) False 5 1 example_request (limiter_new () ())
      = (st1, Some resp) \<and> status resp = 429
    \<and> arrive example_ops (idle_governor False) False 6 1 example_request st1
        = (put_request 1 (Waiting (identity_of example_ops False example_request) s) st2, None)
    \<and> lm_auth st2 = lm_auth st1 \<and> lm_checks st2 = lm_checks st1"
proof (rule refusal_verifies)
  show "classify example_ops example_request = Inr Stream" by code_simp
  show "id_verifiable (identity_of example_ops False example_request) = Some (lit ''Basic guess'')"
    by code_simp
  show "\<not> is_verified 5 (lit ''Basic guess'') (limiter_new () ())"
    by (simp add: is_verified_def limiter_new_def)
  show "snd (check (idle_governor False) 5 Auth
      (Ip (id_ip (identity_of example_ops False example_request))) (limiter_new () ())) = Some 6000000000"
    by (simp add: check_def Let_def idle_governor_def limiter_new_def RETAIN_EVERY_def)
qed (simp_all add: VERIFIED_TTL_def)

text \<open>
  A mutating request is unlimited only if it is one of the query-over-POST paths or a
  GraphQL document that selects no mutation.
\<close>

theorem mutating_is_limited:
  assumes "mutating (req_method req)" "classify ops req = Inr Stream"
  shows "is_query_over_post (req_path req)
    \<or> (req_method req = POST \<and> drop_end_while (\<lambda>c. c = 47) (req_path req) = lit ''/api/graphql''
        \<and> (\<exists>bytes. to_bytes ops (req_body req) GRAPHQL_SNIFF_LIMIT = Inr bytes
              \<and> \<not> graphql_is_mutation ops bytes))"
  using assms
  by (auto simp: classify_def graphql_class_def path_class_of_def mutating_def
      split: if_splits sum.splits option.splits)

theorem mutating_is_limited_witness:
  "is_query_over_post (lit ''/api/v1/books/list'')"
proof -
  let ?r = "example_request\<lparr>req_method := POST, req_path := lit ''/api/v1/books/list''\<rparr>"
  have "mutating (req_method ?r)" by (simp add: mutating_def)
  moreover have "classify example_ops ?r = Inr Stream" by code_simp
  ultimately have "is_query_over_post (req_path ?r)
    \<or> (req_method ?r = POST \<and> drop_end_while (\<lambda>c. c = 47) (req_path ?r) = lit ''/api/graphql''
        \<and> (\<exists>bytes. to_bytes example_ops (req_body ?r) GRAPHQL_SNIFF_LIMIT = Inr bytes
              \<and> \<not> graphql_is_mutation example_ops bytes))"
    by (rule mutating_is_limited)
  moreover have "drop_end_while (\<lambda>c. c = 47) (lit ''/api/v1/books/list'') \<noteq> lit ''/api/graphql''"
    by code_simp
  ultimately show ?thesis by simp
qed

end
