(* ===== verification/Permissions.thy ===== *)
theory Permissions
  imports Prelude
begin

text \<open>
  User permissions: the enumeration of \<^verbatim>\<open>crates/models/src/shared/enums.rs\<close>, the permission set
  of \<^verbatim>\<open>crates/models/src/shared/permission_set.rs\<close> with its associated permissions and its stored
  form, the authenticated user of \<^verbatim>\<open>crates/models/src/entity/user.rs\<close> and the checks of
  \<^verbatim>\<open>crates/auth/src/lib.rs\<close>. Resolving adds the associated permissions of one level only;
  the development shows that storing and loading a set resolves it completely.
\<close>

section \<open>The permissions and their names\<close>

datatype user_permission =
    AccessApiKeys | AccessKoreaderSync | AccessKoboSync | AccessRemoteSource | AcquireReleases
    | AccessWorker | AccessBookClub | CreateBookClub | ShareBookClubReader | ChangePassword
    | ChangeUsername | ChangeAvatar | EmailerRead | EmailerCreate | EmailerManage | EmailSend
    | EmailArbitrarySend | AccessSmartList | FileExplorer | UploadFile | DownloadFile
    | CreateLibrary | EditLibrary | ScanLibrary | ManageLibrary | EditThumbnails | EditMetadata
    | WriteBackMetadata | DeleteLibrary | ReadUsers | ManageUsers | ReadNotifier
    | CreateNotifier | ManageNotifier | DeleteNotifier | ReadJobs | ManageJobs
    | MetadataFetchRecordRead | MetadataFetchRecordManage | MetadataProviderRead
    | MetadataProviderManage | ReadPersistedLogs | ReadSystemLogs | ManageServer

text \<open>\<open>EnumIter\<close>: the variants in declaration order.\<close>

definition all_permissions :: "user_permission list" where
  "all_permissions = [
     AccessApiKeys, AccessKoreaderSync, AccessKoboSync, AccessRemoteSource, AcquireReleases,
     AccessWorker, AccessBookClub, CreateBookClub, ShareBookClubReader, ChangePassword,
     ChangeUsername, ChangeAvatar, EmailerRead, EmailerCreate, EmailerManage, EmailSend,
     EmailArbitrarySend, AccessSmartList, FileExplorer, UploadFile, DownloadFile, CreateLibrary,
     EditLibrary, ScanLibrary, ManageLibrary, EditThumbnails, EditMetadata, WriteBackMetadata,
     DeleteLibrary, ReadUsers, ManageUsers, ReadNotifier, CreateNotifier, ManageNotifier,
     DeleteNotifier, ReadJobs, ManageJobs, MetadataFetchRecordRead, MetadataFetchRecordManage,
     MetadataProviderRead, MetadataProviderManage, ReadPersistedLogs, ReadSystemLogs,
     ManageServer]"

text \<open>\<open>Display\<close> of the derive with \<open>SCREAMING_SNAKE_CASE\<close>.\<close>

fun permission_name :: "user_permission \<Rightarrow> ustr" where
  "permission_name AccessApiKeys = lit ''ACCESS_API_KEYS''"
| "permission_name AccessKoreaderSync = lit ''ACCESS_KOREADER_SYNC''"
| "permission_name AccessKoboSync = lit ''ACCESS_KOBO_SYNC''"
| "permission_name AccessRemoteSource = lit ''ACCESS_REMOTE_SOURCE''"
| "permission_name AcquireReleases = lit ''ACQUIRE_RELEASES''"
| "permission_name AccessWorker = lit ''ACCESS_WORKER''"
| "permission_name AccessBookClub = lit ''ACCESS_BOOK_CLUB''"
| "permission_name CreateBookClub = lit ''CREATE_BOOK_CLUB''"
| "permission_name ShareBookClubReader = lit ''SHARE_BOOK_CLUB_READER''"
| "permission_name ChangePassword = lit ''CHANGE_PASSWORD''"
| "permission_name ChangeUsername = lit ''CHANGE_USERNAME''"
| "permission_name ChangeAvatar = lit ''CHANGE_AVATAR''"
| "permission_name EmailerRead = lit ''EMAILER_READ''"
| "permission_name EmailerCreate = lit ''EMAILER_CREATE''"
| "permission_name EmailerManage = lit ''EMAILER_MANAGE''"
| "permission_name EmailSend = lit ''EMAIL_SEND''"
| "permission_name EmailArbitrarySend = lit ''EMAIL_ARBITRARY_SEND''"
| "permission_name AccessSmartList = lit ''ACCESS_SMART_LIST''"
| "permission_name FileExplorer = lit ''FILE_EXPLORER''"
| "permission_name UploadFile = lit ''UPLOAD_FILE''"
| "permission_name DownloadFile = lit ''DOWNLOAD_FILE''"
| "permission_name CreateLibrary = lit ''CREATE_LIBRARY''"
| "permission_name EditLibrary = lit ''EDIT_LIBRARY''"
| "permission_name ScanLibrary = lit ''SCAN_LIBRARY''"
| "permission_name ManageLibrary = lit ''MANAGE_LIBRARY''"
| "permission_name EditThumbnails = lit ''EDIT_THUMBNAILS''"
| "permission_name EditMetadata = lit ''EDIT_METADATA''"
| "permission_name WriteBackMetadata = lit ''WRITE_BACK_METADATA''"
| "permission_name DeleteLibrary = lit ''DELETE_LIBRARY''"
| "permission_name ReadUsers = lit ''READ_USERS''"
| "permission_name ManageUsers = lit ''MANAGE_USERS''"
| "permission_name ReadNotifier = lit ''READ_NOTIFIER''"
| "permission_name CreateNotifier = lit ''CREATE_NOTIFIER''"
| "permission_name ManageNotifier = lit ''MANAGE_NOTIFIER''"
| "permission_name DeleteNotifier = lit ''DELETE_NOTIFIER''"
| "permission_name ReadJobs = lit ''READ_JOBS''"
| "permission_name ManageJobs = lit ''MANAGE_JOBS''"
| "permission_name MetadataFetchRecordRead = lit ''METADATA_FETCH_RECORD_READ''"
| "permission_name MetadataFetchRecordManage = lit ''METADATA_FETCH_RECORD_MANAGE''"
| "permission_name MetadataProviderRead = lit ''METADATA_PROVIDER_READ''"
| "permission_name MetadataProviderManage = lit ''METADATA_PROVIDER_MANAGE''"
| "permission_name ReadPersistedLogs = lit ''READ_PERSISTED_LOGS''"
| "permission_name ReadSystemLogs = lit ''READ_SYSTEM_LOGS''"
| "permission_name ManageServer = lit ''MANAGE_SERVER''"

text \<open>\<open>EnumString\<close>: the variant with exactly this name.\<close>

definition permission_from_str :: "ustr \<Rightarrow> user_permission option" where
  "permission_from_str s = find (\<lambda>p. permission_name p = s) all_permissions"

fun associated :: "user_permission \<Rightarrow> user_permission list" where
  "associated CreateBookClub = [AccessBookClub]"
| "associated ShareBookClubReader = [AccessBookClub]"
| "associated EmailerRead = [EmailSend]"
| "associated EmailerCreate = [EmailerRead]"
| "associated EmailerManage = [EmailerCreate, EmailerRead]"
| "associated EmailArbitrarySend = [EmailSend]"
| "associated CreateLibrary = [EditLibrary, ScanLibrary]"
| "associated ManageLibrary = [ScanLibrary, EditLibrary, ManageLibrary, EditThumbnails]"
| "associated DeleteLibrary = [ManageLibrary]"
| "associated CreateNotifier = [ReadNotifier]"
| "associated ManageNotifier = [DeleteNotifier, ReadNotifier, CreateNotifier]"
| "associated DeleteNotifier = [ManageNotifier, ReadNotifier]"
| "associated ManageUsers = [ReadUsers]"
| "associated ReadPersistedLogs = [ReadJobs]"
| "associated WriteBackMetadata = [EditMetadata]"
| "associated _ = []"

section \<open>Permission sets\<close>

text \<open>\<open>Itertools::unique\<close>: the first occurrence of each element.\<close>

definition unique_elems :: "'a list \<Rightarrow> 'a list" where
  "unique_elems xs = rev (remdups (rev xs))"

definition resolve_into_vec :: "user_permission list \<Rightarrow> user_permission list" where
  "resolve_into_vec ps = unique_elems (concat (map (\<lambda>p. p # associated p) ps))"

fun join_with :: "'a \<Rightarrow> 'a list list \<Rightarrow> 'a list" where
  "join_with c [] = []"
| "join_with c [x] = x"
| "join_with c (x # y # ys) = x @ c # join_with c (y # ys)"

definition resolve_into_string :: "user_permission list \<Rightarrow> ustr option" where
  "resolve_into_string ps =
     (let resolved = resolve_into_vec ps
      in if resolved = [] then None else Some (join_with 44 (map permission_name resolved)))"

definition permission_set_of :: "ustr \<Rightarrow> user_permission list" where
  "permission_set_of s =
     (if s = [] then []
      else List.map_filter permission_from_str
             (filter (\<lambda>t. t \<noteq> []) (map trim (split_on 44 s))))"

text \<open>How a user row is loaded: an absent column is the empty string, and the set is resolved.\<close>

definition loaded_permissions :: "ustr option \<Rightarrow> user_permission list" where
  "loaded_permissions stored =
     resolve_into_vec (permission_set_of (case stored of Some s \<Rightarrow> s | None \<Rightarrow> []))"

section \<open>The authenticated user\<close>

record auth_user =
  au_id :: string
  au_username :: ustr
  au_is_server_owner :: bool
  au_is_locked :: bool
  au_permissions :: "user_permission list"
  au_device_library_scope :: "string list option"

definition has_permission :: "auth_user \<Rightarrow> user_permission \<Rightarrow> bool" where
  "has_permission user p \<longleftrightarrow> au_is_server_owner user \<or> p \<in> set (au_permissions user)"

definition user_has_permission :: "auth_user \<Rightarrow> user_permission \<Rightarrow> bool" where
  "user_has_permission user p \<longleftrightarrow>
     au_is_server_owner user \<or> (\<exists>q\<in>set (au_permissions user). q = p \<or> p \<in> set (associated q))"

definition user_has_all_permissions :: "auth_user \<Rightarrow> user_permission list \<Rightarrow> bool" where
  "user_has_all_permissions user ps \<longleftrightarrow>
     au_is_server_owner user \<or> filter (\<lambda>p. \<not> user_has_permission user p) ps = []"

datatype authorization_error = LockedAccount | ForbiddenAction

definition enforce_permissions ::
  "auth_user \<Rightarrow> user_permission list \<Rightarrow> (authorization_error, unit) result" where
  "enforce_permissions user ps =
     (if au_is_server_owner user then Inr ()
      else if au_is_locked user then Inl LockedAccount
      else if user_has_all_permissions user ps then Inr ()
      else Inl ForbiddenAction)"

section \<open>Lemmas\<close>

lemma set_unique_elems [simp]: "set (unique_elems xs) = set xs"
  by (simp add: unique_elems_def)

lemma distinct_unique_elems [simp]: "distinct (unique_elems xs)"
  by (simp add: unique_elems_def)

lemma unique_elems_eq_Nil [simp]: "unique_elems xs = [] \<longleftrightarrow> xs = []"
  by (simp add: unique_elems_def)

lemma set_resolve_into_vec: "set (resolve_into_vec ps) = (\<Union>p\<in>set ps. insert p (set (associated p)))"
  by (simp add: resolve_into_vec_def)

lemma resolve_into_vec_eq_Nil [simp]: "resolve_into_vec ps = [] \<longleftrightarrow> ps = []"
  by (cases ps) (simp_all add: resolve_into_vec_def)

lemma split_on_join:
  assumes "xs \<noteq> []" "\<forall>x\<in>set xs. c \<notin> set x"
  shows "split_on c (join_with c xs) = xs"
  using assms by (induction c xs rule: join_with.induct) (simp_all add: split_on_append split_on_none)

text \<open>A name is not empty and has no comma and no white space, so it survives splitting and trimming.\<close>

definition plain_char :: "uchar \<Rightarrow> bool" where
  "plain_char c \<longleftrightarrow> c = 95 \<or> (65 \<le> c \<and> c \<le> 90)"

lemma permission_name_plain: "permission_name p \<noteq> [] \<and> list_all plain_char (permission_name p)"
  by (cases p) (simp_all add: lit_def plain_char_def)

lemma plain_no_space: "plain_char c \<Longrightarrow> \<not> is_whitespace c \<and> c \<noteq> 44"
  by (auto simp: plain_char_def is_whitespace_def)

lemma trim_plain: "list_all plain_char s \<Longrightarrow> trim s = s"
proof -
  assume s: "list_all plain_char s"
  have "dropWhile is_whitespace s = s" if "list_all plain_char s" for s
    using that by (cases s) (auto simp: plain_no_space)
  from this [OF s] this [of "rev s"] s show ?thesis by (simp add: trim_def drop_end_while_def)
qed

lemma lit_eq_iff: "lit a = lit b \<longleftrightarrow> a = b"
  by (simp add: lit_def inj_map_eq_map inj_on_def)

lemma permission_from_str_name: "permission_from_str (permission_name p) = Some p"
  by (cases p) (simp_all add: permission_from_str_def all_permissions_def lit_eq_iff)

lemma permission_set_of_join:
  assumes "ps \<noteq> []"
  shows "permission_set_of (join_with 44 (map permission_name ps)) = ps"
proof -
  have plain: "\<forall>s\<in>set (map permission_name ps). s \<noteq> [] \<and> list_all plain_char s"
    using permission_name_plain by auto
  then have "\<forall>s\<in>set (map permission_name ps). 44 \<notin> set s"
    using plain_no_space by (metis list.pred_set)
  then have sp: "split_on 44 (join_with 44 (map permission_name ps)) = map permission_name ps"
    using assms by (simp add: split_on_join)
  have "join_with 44 (map permission_name ps) \<noteq> []"
    using sp plain assms by (metis list.set_intros(1) list.simps(8) neq_Nil_conv split_on.simps(1) map_is_Nil_conv)
  moreover have "filter (\<lambda>t. t \<noteq> []) (map trim (map permission_name ps)) = map permission_name ps"
    using plain by (simp add: trim_plain filter_id_conv)
  moreover have "List.map_filter permission_from_str (map permission_name ps) = ps"
    by (simp add: List.map_filter_def permission_from_str_name comp_def)
  ultimately show ?thesis using sp by (simp add: permission_set_of_def)
qed

text \<open>The permissions implied by a permission through any number of associations.\<close>

definition implied :: "user_permission \<Rightarrow> user_permission \<Rightarrow> bool" where
  "implied = (\<lambda>p q. q \<in> set (associated p))\<^sup>*\<^sup>*"

definition two_levels :: "user_permission \<Rightarrow> user_permission set" where
  "two_levels p = (\<Union>q\<in>insert p (set (associated p)). insert q (set (associated q)))"

lemma two_levels_closed: "q \<in> two_levels p \<Longrightarrow> set (associated q) \<subseteq> two_levels p"
  unfolding two_levels_def by (cases p) auto

lemma implied_two_levels: "implied p q \<longleftrightarrow> q \<in> two_levels p"
proof
  assume "implied p q"
  then show "q \<in> two_levels p"
    unfolding implied_def
  proof induction
    case base
    show ?case by (simp add: two_levels_def)
  next
    case (step q r)
    then show ?case using two_levels_closed by blast
  qed
next
  assume "q \<in> two_levels p"
  then show "implied p q"
    by (auto simp: two_levels_def implied_def intro: rtranclp.rtrancl_into_rtrancl)
qed

lemma loaded_resolved: "loaded_permissions (resolve_into_string ps) = resolve_into_vec (resolve_into_vec ps)"
proof (cases "ps = []")
  case True
  then show ?thesis
    by (simp add: loaded_permissions_def resolve_into_string_def permission_set_of_def resolve_into_vec_def
        unique_elems_def)
next
  case False
  then show ?thesis
    by (simp add: loaded_permissions_def resolve_into_string_def Let_def permission_set_of_join)
qed

section \<open>Properties\<close>

text \<open>
  C19. A permission set that is stored and loaded again is resolved completely: the user
  gets exactly the permissions implied by the granted ones through any number of
  associations, each once, although each resolution follows only one level. Nothing is lost or
  added by the comma-separated form.
\<close>

theorem stored_permissions_closed:
  "set (loaded_permissions (resolve_into_string ps)) = {q. \<exists>p\<in>set ps. implied p q}
    \<and> distinct (loaded_permissions (resolve_into_string ps))"
proof -
  have "distinct (resolve_into_vec (resolve_into_vec ps))" by (simp add: resolve_into_vec_def)
  moreover have "set (resolve_into_vec (resolve_into_vec ps)) = {q. \<exists>p\<in>set ps. implied p q}"
    by (auto simp: set_resolve_into_vec implied_two_levels two_levels_def)
  ultimately show ?thesis by (simp add: loaded_resolved)
qed

end
