(* ===== verification/Device_Credentials.thy ===== *)
theory Device_Credentials
  imports Permissions Json
begin

text \<open>
  The values of the device registry: \<^verbatim>\<open>crates/devices/src/credential.rs\<close> (which credential a
  kind of device gets and what it may do), \<^verbatim>\<open>scope.rs\<close> (the libraries a device may see),
  \<^verbatim>\<open>telemetry.rs\<close> (what a client reports about itself), \<^verbatim>\<open>kindle.rs\<close> (mail addresses) and the
  naming rules of \<^verbatim>\<open>service.rs\<close>. The package \<open>prefixed-api-key\<close>, SHA-256 and the RFC 3339
  parser are parameters, gathered in \<open>key_ops\<close>.
\<close>

section \<open>Kinds, protocols and errors\<close>

datatype device_protocol = Kobo | Koreader | Komga | Opds | Liseur | Api

datatype device_credential_kind = ApiKey | LiseurToken | Session

datatype device_kind =
    Kobo | Koreader | Coppice | Crosspoint | Mihon | Komelia | Liseur | Opds | Abs | Api | Web
  | Worker | SourceWorker | Kavita

datatype api_key_permissions = Inherit | Custom "user_permission list"

datatype credential_issuance = InteractiveSession | DelegatedCredential

datatype name_problem = EmptyName | LongName | TakenName ustr

datatype email_problem =
  EmptyAddress | LongAddress | SpaceInAddress | NoAt | NothingBeforeAt | ManyAts | NoHostname

datatype device_error =
    NotFound
  | Forbidden
  | InheritedCredentialRequiresSession
  | Revoked
  | InvalidName name_problem
  | InvalidScope string
  | InvalidEmail email_problem
  | CredentialError
  | Database

type_synonym 'a device_result = "(device_error, 'a) result"

section \<open>Credentials\<close>

text \<open>\<open>PrefixedApiKey\<close>: the parts of a key as \<open>from_string\<close> reads them.\<close>

record pak =
  pk_prefix :: string
  pk_short_token :: string
  pk_long_token :: string

record key_ops =
  parse_key :: "string \<Rightarrow> pak option"
  key_text :: "pak \<Rightarrow> string"
  long_token_hashed :: "pak \<Rightarrow> string"
  hash_secret :: "string \<Rightarrow> string"
  parse_rfc3339 :: "string \<Rightarrow> int option"

text \<open>What the package documents: only the long token is hashed, and a key's text parses back.\<close>

definition hashes_long_token :: "key_ops \<Rightarrow> bool" where
  "hashes_long_token ops \<longleftrightarrow>
     (\<forall>p q. pk_long_token p = pk_long_token q \<longrightarrow> long_token_hashed ops p = long_token_hashed ops q)"

definition API_KEY_PREFIX :: string where "API_KEY_PREFIX = ''stump''"

datatype credential_ref = ApiKeyRef string | LiseurTokenRef string

type_synonym seen_key = "device_credential_kind \<times> string"

fun lookup_key :: "key_ops \<Rightarrow> credential_ref \<Rightarrow> seen_key option" where
  "lookup_key ops (ApiKeyRef raw) =
     (case parse_key ops raw of
        Some p \<Rightarrow> if pk_prefix p = API_KEY_PREFIX then Some (ApiKey, pk_short_token p) else None
      | None \<Rightarrow> None)"
| "lookup_key ops (LiseurTokenRef tid) = Some (LiseurToken, tid)"

definition authorize_credential_issuance ::
  "device_kind \<Rightarrow> credential_issuance \<Rightarrow> unit device_result" where
  "authorize_credential_issuance kind issuance =
     (if issuance = DelegatedCredential \<and> kind \<in> {device_kind.Api, Web}
      then Inl InheritedCredentialRequiresSession else Inr ())"

fun protocol_for :: "device_kind \<Rightarrow> device_protocol" where
  "protocol_for device_kind.Kobo = device_protocol.Kobo"
| "protocol_for device_kind.Koreader = device_protocol.Koreader"
| "protocol_for Coppice = device_protocol.Koreader"
| "protocol_for Crosspoint = device_protocol.Koreader"
| "protocol_for Mihon = Komga"
| "protocol_for Komelia = Komga"
| "protocol_for device_kind.Opds = device_protocol.Opds"
| "protocol_for Abs = device_protocol.Api"
| "protocol_for Kavita = device_protocol.Api"
| "protocol_for device_kind.Liseur = device_protocol.Liseur"
| "protocol_for device_kind.Api = device_protocol.Api"
| "protocol_for Web = device_protocol.Api"
| "protocol_for Worker = device_protocol.Api"
| "protocol_for SourceWorker = device_protocol.Api"

fun credential_kind_for :: "device_kind \<Rightarrow> device_credential_kind" where
  "credential_kind_for device_kind.Liseur = LiseurToken"
| "credential_kind_for _ = ApiKey"

definition api_key_permissions_for :: "device_kind \<Rightarrow> bool \<Rightarrow> api_key_permissions" where
  "api_key_permissions_for kind komf =
     (case kind of
        device_kind.Kobo \<Rightarrow> Custom [AccessKoboSync, DownloadFile]
      | Crosspoint \<Rightarrow> Custom [AccessKoreaderSync]
      | device_kind.Koreader \<Rightarrow> Custom [AccessKoreaderSync, DownloadFile]
      | Coppice \<Rightarrow> Custom [AccessKoreaderSync, DownloadFile]
      | Worker \<Rightarrow> Custom [AccessWorker, DownloadFile]
      | SourceWorker \<Rightarrow> Custom [AccessRemoteSource]
      | device_kind.Liseur \<Rightarrow> Inherit
      | device_kind.Api \<Rightarrow> Inherit
      | Web \<Rightarrow> Inherit
      | _ \<Rightarrow> Custom ([DownloadFile] @ (if kind = Komelia \<and> komf then [EditMetadata] else [])))"

definition required_permissions :: "device_kind \<Rightarrow> bool \<Rightarrow> user_permission list" where
  "required_permissions kind komf =
     (case api_key_permissions_for kind komf of Custom ps \<Rightarrow> ps | Inherit \<Rightarrow> [])
     @ (if credential_kind_for kind = ApiKey then [AccessApiKeys] else [])"

definition credential_specs :: "device_kind \<Rightarrow> (device_credential_kind \<times> device_protocol) list" where
  "credential_specs kind =
     (if kind = Coppice
      then [(ApiKey, device_protocol.Koreader), (LiseurToken, device_protocol.Liseur)]
      else [(credential_kind_for kind, protocol_for kind)])"

definition authorize_creation :: "auth_user \<Rightarrow> device_kind \<Rightarrow> bool \<Rightarrow> unit device_result" where
  "authorize_creation user kind komf =
     (if komf \<and> \<not> has_permission user EditMetadata then Inl Forbidden
      else if au_is_server_owner user then Inr ()
      else if list_ex (\<lambda>p. p \<notin> set (au_permissions user)) (required_permissions kind komf)
      then Inl Forbidden else Inr ())"

section \<open>Names\<close>

definition MAX_NAME_CHARS :: nat where "MAX_NAME_CHARS = 128"

fun kind_label :: "device_kind \<Rightarrow> ustr" where
  "kind_label device_kind.Kobo = lit ''Kobo''"
| "kind_label device_kind.Koreader = lit ''KOReader''"
| "kind_label Crosspoint = lit ''CrossPoint''"
| "kind_label Coppice = lit ''Coppice''"
| "kind_label Komelia = lit ''Komelia''"
| "kind_label Mihon = lit ''Mihon''"
| "kind_label device_kind.Liseur = lit ''Liseur''"
| "kind_label device_kind.Opds = lit ''OPDS reader''"
| "kind_label Abs = lit ''Audiobookshelf client''"
| "kind_label Kavita = lit ''Kavita''"
| "kind_label device_kind.Api = lit ''API client''"
| "kind_label Web = lit ''Browser''"
| "kind_label Worker = lit ''Worker''"
| "kind_label SourceWorker = lit ''Source worker''"

definition validate_name :: "ustr \<Rightarrow> ustr device_result" where
  "validate_name name =
     (let name = trim name
      in if name = [] then Inl (InvalidName EmptyName)
         else if length name > MAX_NAME_CHARS then Inl (InvalidName LongName)
         else Inr name)"

definition numbered :: "ustr \<Rightarrow> nat \<Rightarrow> ustr" where
  "numbered base n = base @ 32 # show_nat n"

lemma numbered_inj: "numbered base m = numbered base n \<longleftrightarrow> m = n"
  by (simp add: numbered_def show_nat_eq_iff)

lemma numbered_finite: "finite {m. n \<le> m \<and> numbered base m \<in> set taken}"
proof (rule finite_imageD [where f = "numbered base"])
  show "finite (numbered base ` {m. n \<le> m \<and> numbered base m \<in> set taken})"
    by (rule finite_subset [of _ "set taken"]) auto
qed (auto simp: inj_on_def numbered_inj)

text \<open>\<open>(2..).map(..).find(..)\<close>: the candidates are different, so only finitely many are taken.\<close>

function first_unused :: "ustr list \<Rightarrow> ustr \<Rightarrow> nat \<Rightarrow> ustr" where
  "first_unused taken base n =
     (if numbered base n \<in> set taken then first_unused taken base (n + 1) else numbered base n)"
  by auto
termination
proof (relation "measure (\<lambda>(taken, base, n). card {m. n \<le> m \<and> numbered base m \<in> set taken})")
  fix taken base n
  assume n: "numbered base n \<in> set taken"
  have "n \<in> {m. n \<le> m \<and> numbered base m \<in> set taken} - {m. n + 1 \<le> m \<and> numbered base m \<in> set taken}"
    using n by simp
  then have "{m. n + 1 \<le> m \<and> numbered base m \<in> set taken} \<subset> {m. n \<le> m \<and> numbered base m \<in> set taken}"
    by fastforce
  then show "((taken, base, n + 1), taken, base, n)
      \<in> measure (\<lambda>(taken, base, n). card {m. n \<le> m \<and> numbered base m \<in> set taken})"
    by (simp add: psubset_card_mono numbered_finite)
qed simp

declare first_unused.simps [simp del]

definition numbered_name :: "ustr list \<Rightarrow> ustr \<Rightarrow> ustr" where
  "numbered_name taken base =
     (if base \<notin> set taken then base else first_unused taken base 2)"

lemma first_unused_spec:
  "\<exists>m\<ge>n. first_unused taken base n = numbered base m \<and> numbered base m \<notin> set taken
     \<and> numbered base ` {n..<m} \<subseteq> set taken"
proof (induction taken base n rule: first_unused.induct)
  case (1 taken base n)
  show ?case
  proof (cases "numbered base n \<in> set taken")
    case True
    then obtain m where m: "m \<ge> n + 1" "first_unused taken base (n + 1) = numbered base m"
        "numbered base m \<notin> set taken" "numbered base ` {n + 1..<m} \<subseteq> set taken"
      using 1 by blast
    moreover have "{n..<m} = insert n {n + 1..<m}" using m(1) by auto
    ultimately show ?thesis
      using True by (intro exI [of _ m]) (simp add: first_unused.simps [of taken base n])
  next
    case False
    then show ?thesis by (intro exI [of _ n]) (simp add: first_unused.simps [of taken base n])
  qed
qed

lemma numbered_name_unused: "numbered_name taken base \<notin> set taken"
  using first_unused_spec [of 2 taken base] by (auto simp: numbered_name_def)

section \<open>Library scopes\<close>

datatype library_scope = Inherit | Only "string list"

fun library_ids :: "library_scope \<Rightarrow> string list option" where
  "library_ids library_scope.Inherit = None"
| "library_ids (Only ids) = Some ids"

fun to_column_value :: "library_scope \<Rightarrow> json option" where
  "to_column_value library_scope.Inherit = None"
| "to_column_value (Only ids) = Some (JArray (map JString ids))"

text \<open>\<open>From<Option<Vec<String>>>\<close>: \<open>sort_unstable\<close> and \<open>dedup\<close>.\<close>

fun scope_from :: "string list option \<Rightarrow> library_scope" where
  "scope_from None = library_scope.Inherit"
| "scope_from (Some ids) = Only (remdups_adj (sort ids))"

fun value_as_str :: "json \<Rightarrow> string option" where
  "value_as_str (JString s) = Some s"
| "value_as_str _ = None"

text \<open>\<open>device::Model::library_scope_ids\<close>: anything but an array of strings is no restriction.\<close>

fun collect_options :: "'a option list \<Rightarrow> 'a list option" where
  "collect_options [] = Some []"
| "collect_options (None # _) = None"
| "collect_options (Some x # xs) = map_option ((#) x) (collect_options xs)"

fun library_scope_ids :: "json option \<Rightarrow> string list option" where
  "library_scope_ids (Some (JArray entries)) = collect_options (map value_as_str entries)"
| "library_scope_ids _ = None"

definition scope_of_column :: "json option \<Rightarrow> library_scope" where
  "scope_of_column column =
     (case library_scope_ids column of Some ids \<Rightarrow> Only ids | None \<Rightarrow> library_scope.Inherit)"

lemma collect_options_Some [simp]: "collect_options (map Some xs) = Some xs"
  by (induction xs) auto

lemma scope_round_trip [simp]: "scope_of_column (to_column_value scope) = scope"
  by (cases scope) (simp_all add: scope_of_column_def comp_def)

definition resolve_scope :: "library_scope \<Rightarrow> string set \<Rightarrow> string set" where
  "resolve_scope scope owner =
     (case library_ids scope of None \<Rightarrow> owner | Some ids \<Rightarrow> {i \<in> set ids. i \<in> owner})"

section \<open>Telemetry\<close>

record telemetry_counters =
  tc_progress :: "int option"
  tc_highlights :: "int option"
  tc_notes :: "int option"
  tc_bookmarks :: "int option"
  tc_sessions :: "int option"
  tc_items :: "int option"

record telemetry_patch =
  tp_battery_percent :: "int option"
  tp_charging :: "bool option"
  tp_battery_source :: "string option"
  tp_battery_observed_at :: "int option"
  tp_sync_status :: "string option"
  tp_sync_protocol :: "device_protocol option"
  tp_synced_at :: "int option"
  tp_counters :: telemetry_counters

fun as_object :: "json \<Rightarrow> (string \<times> json) list option" where
  "as_object (JObject fs) = Some fs"
| "as_object _ = None"

fun as_bool :: "json \<Rightarrow> bool option" where
  "as_bool (JBool b) = Some b"
| "as_bool _ = None"

definition or_else :: "'a option \<Rightarrow> 'a option \<Rightarrow> 'a option" where
  "or_else x y = (case x of Some _ \<Rightarrow> x | None \<Rightarrow> y)"

definition keep_if :: "('a \<Rightarrow> bool) \<Rightarrow> 'a option \<Rightarrow> 'a option" where
  "keep_if p x = Option.bind x (\<lambda>v. if p v then Some v else None)"

definition field_value :: "(string \<times> json) list option \<Rightarrow> string \<Rightarrow> string \<Rightarrow> json option" where
  "field_value obj camel snake =
     Option.bind obj (\<lambda>fs. or_else (map_of fs camel) (map_of fs snake))"

definition counter :: "json option \<Rightarrow> int option" where
  "counter v = keep_if (\<lambda>i. i \<ge> 0) (Option.bind v as_i64)"

definition parse_timestamp :: "key_ops \<Rightarrow> json \<Rightarrow> int option" where
  "parse_timestamp ops v = Option.bind (value_as_str v) (parse_rfc3339 ops)"

definition patch_counters :: "(string \<times> json) list option \<Rightarrow> telemetry_counters" where
  "patch_counters obj =
     (let nested = Option.bind (Option.bind obj (\<lambda>fs. map_of fs ''counters'')) as_object;
          read = (\<lambda>name. counter (or_else (field_value obj name name) (field_value nested name name)))
      in \<lparr>tc_progress = read ''progress'', tc_highlights = read ''highlights'',
          tc_notes = read ''notes'', tc_bookmarks = read ''bookmarks'',
          tc_sessions = read ''sessions'', tc_items = read ''items''\<rparr>)"

definition from_summary :: "key_ops \<Rightarrow> json \<Rightarrow> device_protocol \<Rightarrow> int \<Rightarrow> telemetry_patch" where
  "from_summary ops summary protocol now =
     (let obj = as_object summary;
          percent = keep_if (\<lambda>v. 0 \<le> v \<and> v \<le> 100)
            (keep_if (\<lambda>v. I32_MIN \<le> v \<and> v \<le> I32_MAX)
              (Option.bind (field_value obj ''batteryPercent'' ''battery_percent'') as_i64));
          charging = Option.bind (field_value obj ''charging'' ''is_charging'') as_bool;
          observed = Option.bind (field_value obj ''batteryObservedAt'' ''battery_observed_at'')
            (parse_timestamp ops)
      in \<lparr>tp_battery_percent = percent,
          tp_charging = charging,
          tp_battery_source = Option.bind (field_value obj ''batterySource'' ''battery_source'') value_as_str,
          tp_battery_observed_at =
            or_else observed (if percent \<noteq> None \<or> charging \<noteq> None then Some now else None),
          tp_sync_status =
            or_else (Option.bind (or_else (field_value obj ''syncStatus'' ''sync_status'')
                (field_value obj ''status'' ''status'')) value_as_str) (Some ''synced''),
          tp_sync_protocol = Some protocol,
          tp_synced_at = Some now,
          tp_counters = patch_counters obj\<rparr>)"

fun merge_counter :: "int option \<Rightarrow> int option \<Rightarrow> int option" where
  "merge_counter (Some current) (Some incoming) = Some (max current incoming)"
| "merge_counter None incoming = incoming"
| "merge_counter current None = current"

section \<open>Mail addresses\<close>

definition KINDLE_EMAIL_PROTOCOL :: string where "KINDLE_EMAIL_PROTOCOL = ''kindle-email''"
definition MAX_EMAIL_CHARS :: nat where "MAX_EMAIL_CHARS = 254"

record kindle_send_summary =
  ks_protocol :: string
  ks_bytes :: nat
  ks_format :: string

definition kindle_send_summary_new :: "nat \<Rightarrow> string \<Rightarrow> kindle_send_summary" where
  "kindle_send_summary_new bytes format =
     \<lparr>ks_protocol = KINDLE_EMAIL_PROTOCOL, ks_bytes = bytes, ks_format = format\<rparr>"

definition json_of_kindle :: "kindle_send_summary \<Rightarrow> json" where
  "json_of_kindle s =
     JObject [(''bytes'', JNumber (PosInt (ks_bytes s))), (''format'', JString (ks_format s)),
              (''protocol'', JString (ks_protocol s))]"

definition normalize_kindle_email :: "ustr \<Rightarrow> ustr device_result" where
  "normalize_kindle_email email =
     (let address = trim email
      in if address = [] then Inl (InvalidEmail EmptyAddress)
         else if length address > MAX_EMAIL_CHARS then Inl (InvalidEmail LongAddress)
         else if list_ex is_whitespace address then Inl (InvalidEmail SpaceInAddress)
         else (case split_once 64 address of
                 None \<Rightarrow> Inl (InvalidEmail NoAt)
               | Some (local_part, domain) \<Rightarrow>
                   if local_part = [] then Inl (InvalidEmail NothingBeforeAt)
                   else if 64 \<in> set domain then Inl (InvalidEmail ManyAts)
                   else if 46 \<notin> set domain \<or> starts_with domain [46] \<or> ends_with domain [46]
                   then Inl (InvalidEmail NoHostname)
                   else Inr address))"

end
