(* ===== verification/Devices.thy ===== *)
theory Devices
  imports Device_Credentials Keyed_Table
begin

text \<open>
  The device registry, \<^verbatim>\<open>crates/devices/src/service.rs\<close>, over its tables (the entities of
  \<^verbatim>\<open>crates/models/src/entity\<close>), and the requests that authenticate with an API key,
  \<^verbatim>\<open>apps/server/src/middleware/auth.rs\<close>. A transaction either commits or leaves the tables as
  they were, so an operation returns the new registry or an error. Several operations read
  before they open their transaction: the read and the write are separate definitions, the
  operation composes them, and the step relation lets other operations come between. Random
  identifiers and secrets are arguments, times are integers and one operation reads the clock
  once.
\<close>

section \<open>Tables\<close>

record device =
  dv_id :: string
  dv_user_id :: string
  dv_name :: ustr
  dv_kind :: device_kind
  dv_transform_profile :: "json option"
  dv_library_scope :: "json option"
  dv_kindle_email :: "ustr option"
  dv_created_at :: int
  dv_last_seen_at :: "int option"
  dv_last_sync_at :: "int option"
  dv_last_sync_summary :: "json option"
  dv_revoked_at :: "int option"

definition is_revoked :: "device \<Rightarrow> bool" where
  "is_revoked d \<longleftrightarrow> dv_revoked_at d \<noteq> None"

definition scope_of :: "device \<Rightarrow> library_scope" where
  "scope_of d = scope_of_column (dv_library_scope d)"

record device_credential =
  dc_id :: nat
  dc_device_id :: string
  dc_protocol :: device_protocol
  dc_kind :: device_credential_kind
  dc_ref :: string

record api_key =
  ak_id :: nat
  ak_name :: ustr
  ak_short_token :: string
  ak_long_token_hash :: string
  ak_permissions :: api_key_permissions
  ak_created_at :: int
  ak_last_used_at :: "int option"
  ak_expires_at :: "int option"
  ak_user_id :: string

record liseur_token =
  lt_id :: string
  lt_user_id :: string
  lt_device_id :: string
  lt_secret_hash :: string
  lt_scopes :: "string list"
  lt_created_at :: int
  lt_expires_at :: int
  lt_last_used_at :: "int option"
  lt_revoked_at :: "int option"
  lt_name :: "ustr option"
  lt_token_kind :: "string option"

record telemetry_row =
  tl_device_id :: string
  tl_battery_percent :: "int option"
  tl_charging :: "bool option"
  tl_battery_source :: "string option"
  tl_battery_observed_at :: "int option"
  tl_sync_status :: "string option"
  tl_sync_protocol :: "device_protocol option"
  tl_synced_at :: "int option"
  tl_counters :: telemetry_counters
  tl_updated_at :: int

record entitlement_delta =
  ed_device_id :: string
  ed_media_id :: string
  ed_removed :: bool
  ed_created_at :: int

record media_row =
  md_id :: string
  md_series_id :: "string option"
  md_deleted_at :: "int option"

record login_user =
  lu_id :: string
  lu_username :: ustr
  lu_is_server_owner :: bool
  lu_is_locked :: bool
  lu_permissions :: "ustr option"
  lu_deleted_at :: "int option"

record device_seen =
  se_device_id :: string
  se_user_id :: string
  se_protocol :: device_protocol
  se_first_seen :: bool

text \<open>The tables, the sighting debounce and the sightings forwarded to the listener.\<close>

record registry =
  rg_devices :: "device list"
  rg_credentials :: "device_credential list"
  rg_next_credential :: nat
  rg_api_keys :: "api_key list"
  rg_next_api_key :: nat
  rg_liseur_tokens :: "liseur_token list"
  rg_sessions :: "string list"
  rg_telemetry :: "telemetry_row list"
  rg_deltas :: "entitlement_delta list"
  rg_libraries :: "string list"
  rg_exclusions :: "(string \<times> string) list"
  rg_series :: "(string \<times> string option) list"
  rg_media :: "media_row list"
  rg_users :: "login_user list"
  rg_recently_seen :: "(seen_key \<times> int) list"
  rg_announced :: "device_seen list"

definition credential_key :: "device_credential \<Rightarrow> seen_key" where
  "credential_key c = (dc_kind c, dc_ref c)"

definition delta_key :: "entitlement_delta \<Rightarrow> string \<times> string" where
  "delta_key e = (ed_device_id e, ed_media_id e)"

interpretation device_rows: keyed_table dv_id set "row_at dv_id" insert_row "update_row dv_id" "unique_key dv_id"
  by (rule keyed_table_rows)

interpretation credential_rows: keyed_table credential_key set "row_at credential_key" insert_row
    "update_row credential_key" "unique_key credential_key"
  by (rule keyed_table_rows)

interpretation telemetry_rows: keyed_table tl_device_id set "row_at tl_device_id" insert_row
    "update_row tl_device_id" "unique_key tl_device_id"
  by (rule keyed_table_rows)

interpretation delta_rows: keyed_table delta_key set "row_at delta_key" insert_row
    "update_row delta_key" "unique_key delta_key"
  by (rule keyed_table_rows)

section \<open>Reading\<close>

definition visible_to :: "auth_user \<Rightarrow> device \<Rightarrow> bool" where
  "visible_to user d \<longleftrightarrow> au_is_server_owner user \<or> dv_user_id d = au_id user"

definition list_devices :: "auth_user \<Rightarrow> registry \<Rightarrow> device list" where
  "list_devices user st = sort_key dv_created_at (filter (visible_to user) (rg_devices st))"

definition get :: "auth_user \<Rightarrow> string \<Rightarrow> registry \<Rightarrow> device device_result" where
  "get user did st =
     (case find (\<lambda>d. visible_to user d \<and> dv_id d = did) (rg_devices st) of
        Some d \<Rightarrow> Inr d | None \<Rightarrow> Inl NotFound)"

definition find_credentials :: "string \<Rightarrow> registry \<Rightarrow> device_credential list" where
  "find_credentials did st = sort_key dc_id (filter (\<lambda>c. dc_device_id c = did) (rg_credentials st))"

fun kind_rank :: "device_credential_kind \<Rightarrow> nat" where
  "kind_rank ApiKey = 0" | "kind_rank LiseurToken = 1" | "kind_rank Session = 2"

fun protocol_rank :: "device_protocol \<Rightarrow> nat" where
  "protocol_rank device_protocol.Kobo = 0"
| "protocol_rank device_protocol.Koreader = 1"
| "protocol_rank Komga = 2"
| "protocol_rank device_protocol.Opds = 3"
| "protocol_rank device_protocol.Liseur = 4"
| "protocol_rank device_protocol.Api = 5"

definition credential_order :: "device_credential \<Rightarrow> nat \<times> nat \<times> string" where
  "credential_order c = (kind_rank (dc_kind c), protocol_rank (dc_protocol c), dc_ref c)"

fun primary_credential :: "device_credential list \<Rightarrow> device_credential option" where
  "primary_credential [] = None"
| "primary_credential (c # cs) =
     (case primary_credential cs of
        None \<Rightarrow> Some c
      | Some b \<Rightarrow> if credential_order c \<le> credential_order b then Some c else Some b)"

definition existing_names :: "string \<Rightarrow> registry \<Rightarrow> ustr list" where
  "existing_names uid st = map dv_name (filter (\<lambda>d. dv_user_id d = uid) (rg_devices st))"

definition visible_library_ids :: "string \<Rightarrow> registry \<Rightarrow> string list" where
  "visible_library_ids uid st = filter (\<lambda>l. (uid, l) \<notin> set (rg_exclusions st)) (rg_libraries st)"

text \<open>\<open>VisibilityScope::for_user\<close> and \<open>library_condition\<close>: what a request may see.\<close>

definition library_condition :: "auth_user \<Rightarrow> string \<Rightarrow> registry \<Rightarrow> bool" where
  "library_condition user l st \<longleftrightarrow>
     (au_id user, l) \<notin> set (rg_exclusions st)
     \<and> (case au_device_library_scope user of Some ids \<Rightarrow> l \<in> set ids | None \<Rightarrow> True)"

definition visible_libraries :: "auth_user \<Rightarrow> registry \<Rightarrow> string list" where
  "visible_libraries user st = filter (\<lambda>l. library_condition user l st) (rg_libraries st)"

section \<open>Minting and discarding credentials\<close>

record minting =
  mt_device_id :: string
  mt_short_token :: string
  mt_long_token :: string
  mt_token_id :: string
  mt_secret :: string

definition minted_pak :: "minting \<Rightarrow> pak" where
  "minted_pak mt = \<lparr>pk_prefix = API_KEY_PREFIX, pk_short_token = mt_short_token mt,
     pk_long_token = mt_long_token mt\<rparr>"

definition minted_key ::
  "key_ops \<Rightarrow> int \<Rightarrow> minting \<Rightarrow> string \<Rightarrow> ustr \<Rightarrow> api_key_permissions \<Rightarrow> nat \<Rightarrow> api_key" where
  "minted_key ops now mt uid name permissions kid =
     \<lparr>ak_id = kid, ak_name = name, ak_short_token = pk_short_token (minted_pak mt),
      ak_long_token_hash = long_token_hashed ops (minted_pak mt), ak_permissions = permissions,
      ak_created_at = now, ak_last_used_at = None, ak_expires_at = None, ak_user_id = uid\<rparr>"

definition mint_api_key ::
  "key_ops \<Rightarrow> int \<Rightarrow> minting \<Rightarrow> string \<Rightarrow> ustr \<Rightarrow> api_key_permissions \<Rightarrow> registry
     \<Rightarrow> registry \<times> string \<times> string" where
  "mint_api_key ops now mt uid name permissions st =
     (st\<lparr>rg_api_keys := insert_row
           (minted_key ops now mt uid name permissions (rg_next_api_key st)) (rg_api_keys st),
         rg_next_api_key := rg_next_api_key st + 1\<rparr>,
      pk_short_token (minted_pak mt), key_text ops (minted_pak mt))"

definition DEVICE_TOKEN_TTL_SECS :: int where "DEVICE_TOKEN_TTL_SECS = 10 * 365 * 24 * 60 * 60"
definition DEVICE_SCOPES :: "string list" where
  "DEVICE_SCOPES = [''sync'', ''read-insights'', ''library-read'']"

definition liseur_mint ::
  "key_ops \<Rightarrow> int \<Rightarrow> minting \<Rightarrow> string \<Rightarrow> string \<Rightarrow> ustr \<Rightarrow> registry
     \<Rightarrow> (registry \<times> string \<times> string) device_result" where
  "liseur_mint ops now mt uid did name st =
     (if list_ex (\<lambda>t. lt_id t = mt_token_id mt) (rg_liseur_tokens st) then Inl Database
      else Inr (st\<lparr>rg_liseur_tokens := insert_row
          \<lparr>lt_id = mt_token_id mt, lt_user_id = uid, lt_device_id = did,
           lt_secret_hash = hash_secret ops (mt_secret mt), lt_scopes = DEVICE_SCOPES,
           lt_created_at = now, lt_expires_at = now + DEVICE_TOKEN_TTL_SECS * 1000000000,
           lt_last_used_at = None, lt_revoked_at = None, lt_name = Some name,
           lt_token_kind = Some ''device''\<rparr> (rg_liseur_tokens st)\<rparr>,
        mt_token_id mt, mt_secret mt))"

definition liseur_revoke :: "int \<Rightarrow> string \<Rightarrow> registry \<Rightarrow> registry" where
  "liseur_revoke now tid st =
     st\<lparr>rg_liseur_tokens := map (\<lambda>t. if lt_id t = tid \<and> lt_revoked_at t = None
          then t\<lparr>lt_revoked_at := Some now\<rparr> else t) (rg_liseur_tokens st)\<rparr>"

definition liseur_rename :: "string \<Rightarrow> ustr \<Rightarrow> registry \<Rightarrow> registry" where
  "liseur_rename tid name st =
     st\<lparr>rg_liseur_tokens := map (\<lambda>t. if lt_id t = tid then t\<lparr>lt_name := Some name\<rparr> else t)
          (rg_liseur_tokens st)\<rparr>"

text \<open>
  The insert of a credential row: the device must exist (a foreign key) and the kind and
  reference must be new (the unique index \<open>idx-device_credentials-kind-ref\<close>).
\<close>

definition insert_credential ::
  "string \<Rightarrow> device_protocol \<Rightarrow> device_credential_kind \<Rightarrow> string \<Rightarrow> registry \<Rightarrow> registry device_result" where
  "insert_credential did protocol kind ref st =
     (if row_at dv_id did (rg_devices st) = None
         \<or> row_at credential_key (kind, ref) (rg_credentials st) \<noteq> None
      then Inl Database
      else Inr (st\<lparr>rg_credentials := insert_row
             \<lparr>dc_id = rg_next_credential st, dc_device_id = did, dc_protocol = protocol,
              dc_kind = kind, dc_ref = ref\<rparr> (rg_credentials st),
           rg_next_credential := rg_next_credential st + 1\<rparr>))"

record issued =
  is_kind :: device_credential_kind
  is_protocol :: device_protocol
  is_ref :: string
  is_secret :: string

text \<open>The secret of one credential, stored at its source: its reference and its text.\<close>

definition mint_secret ::
  "key_ops \<Rightarrow> int \<Rightarrow> minting \<Rightarrow> device \<Rightarrow> bool \<Rightarrow> device_credential_kind \<Rightarrow> registry
     \<Rightarrow> (registry \<times> string \<times> string) device_result" where
  "mint_secret ops now mt d komf kind st =
     (case kind of
        ApiKey \<Rightarrow> Inr (mint_api_key ops now mt (dv_user_id d) (dv_name d)
                         (api_key_permissions_for (dv_kind d) komf) st)
      | LiseurToken \<Rightarrow> liseur_mint ops now mt (dv_user_id d) (dv_id d) (dv_name d) st
      | Session \<Rightarrow> Inl CredentialError)"

definition mint_one ::
  "key_ops \<Rightarrow> int \<Rightarrow> minting \<Rightarrow> device \<Rightarrow> bool \<Rightarrow> device_credential_kind \<Rightarrow> device_protocol \<Rightarrow> registry
     \<Rightarrow> (registry \<times> issued) device_result" where
  "mint_one ops now mt d komf kind protocol st =
     bind_result (mint_secret ops now mt d komf kind st) (\<lambda>(st, ref, secret).
     bind_result (insert_credential (dv_id d) protocol kind ref st) (\<lambda>st.
       Inr (st, \<lparr>is_kind = kind, is_protocol = protocol, is_ref = ref, is_secret = secret\<rparr>)))"

fun mint_all ::
  "key_ops \<Rightarrow> int \<Rightarrow> minting \<Rightarrow> device \<Rightarrow> bool \<Rightarrow> (device_credential_kind \<times> device_protocol) list
     \<Rightarrow> registry \<Rightarrow> (registry \<times> issued list) device_result" where
  "mint_all ops now mt d komf [] st = Inr (st, [])"
| "mint_all ops now mt d komf ((kind, protocol) # specs) st =
     bind_result (mint_one ops now mt d komf kind protocol st)
       (\<lambda>(st, i). bind_result (mint_all ops now mt d komf specs st) (\<lambda>(st, iss). Inr (st, i # iss)))"

text \<open>The issued credentials in order: the primary one first, then the additional ones.\<close>

definition mint_credential ::
  "key_ops \<Rightarrow> int \<Rightarrow> minting \<Rightarrow> device \<Rightarrow> bool \<Rightarrow> registry \<Rightarrow> (registry \<times> issued list) device_result" where
  "mint_credential ops now mt d komf st =
     bind_result (mint_all ops now mt d komf (credential_specs (dv_kind d)) st)
       (\<lambda>(st, iss). if iss = [] then Inl CredentialError else Inr (st, iss))"

definition discard_one :: "int \<Rightarrow> string \<Rightarrow> device_credential \<Rightarrow> registry \<Rightarrow> registry" where
  "discard_one now uid c st =
     (case dc_kind c of
        ApiKey \<Rightarrow> st\<lparr>rg_api_keys := delete_rows
            (\<lambda>k. ak_user_id k = uid \<and> ak_short_token k = dc_ref c) (rg_api_keys st)\<rparr>
      | LiseurToken \<Rightarrow> liseur_revoke now (dc_ref c) st
      | Session \<Rightarrow> st\<lparr>rg_sessions := filter (\<lambda>s. s \<noteq> dc_ref c) (rg_sessions st)\<rparr>)"

definition discard_credentials :: "int \<Rightarrow> device \<Rightarrow> registry \<Rightarrow> registry" where
  "discard_credentials now d st =
     (let cs = filter (\<lambda>c. dc_device_id c = dv_id d) (rg_credentials st);
          st = fold (discard_one now (dv_user_id d)) cs st
      in st\<lparr>rg_credentials := delete_rows (\<lambda>c. dc_device_id c = dv_id d) (rg_credentials st)\<rparr>)"

section \<open>Operations\<close>

text \<open>\<open>ActiveModel::update\<close> writes the columns that were set, on the row with this id.\<close>

definition update_device ::
  "string \<Rightarrow> (device \<Rightarrow> device) \<Rightarrow> registry \<Rightarrow> (registry \<times> device) device_result" where
  "update_device did f st =
     (case row_at dv_id did (rg_devices st) of
        None \<Rightarrow> Inl Database
      | Some d \<Rightarrow> Inr (st\<lparr>rg_devices := update_row dv_id (f d) (rg_devices st)\<rparr>, f d))"

definition device_name_for ::
  "auth_user \<Rightarrow> device_kind \<Rightarrow> ustr option \<Rightarrow> registry \<Rightarrow> ustr device_result" where
  "device_name_for user kind name st =
     (case name of
        Some n \<Rightarrow> bind_result (validate_name n)
          (\<lambda>n. if n \<in> set (existing_names (au_id user) st)
                then Inl (InvalidName (TakenName n)) else Inr n)
      | None \<Rightarrow> Inr (numbered_name (existing_names (au_id user) st)
                      (au_username user @ lit [CHR 0x27] @ lit ''s '' @ kind_label kind)))"

definition new_device :: "int \<Rightarrow> string \<Rightarrow> string \<Rightarrow> ustr \<Rightarrow> device_kind \<Rightarrow> device" where
  "new_device now did uid name kind =
     \<lparr>dv_id = did, dv_user_id = uid, dv_name = name, dv_kind = kind, dv_transform_profile = None,
      dv_library_scope = None, dv_kindle_email = None, dv_created_at = now, dv_last_seen_at = None,
      dv_last_sync_at = None, dv_last_sync_summary = None, dv_revoked_at = None\<rparr>"

definition create_device_in_transaction ::
  "key_ops \<Rightarrow> int \<Rightarrow> minting \<Rightarrow> auth_user \<Rightarrow> credential_issuance \<Rightarrow> device_kind \<Rightarrow> ustr option \<Rightarrow> bool
     \<Rightarrow> registry \<Rightarrow> (registry \<times> device \<times> issued list) device_result" where
  "create_device_in_transaction ops now mt user issuance kind name komf st =
     bind_result (authorize_credential_issuance kind issuance) (\<lambda>_.
     bind_result (authorize_creation user kind komf) (\<lambda>_.
     bind_result (device_name_for user kind name st) (\<lambda>name.
       if row_at dv_id (mt_device_id mt) (rg_devices st) \<noteq> None then Inl Database
       else let d = new_device now (mt_device_id mt) (au_id user) name kind;
                st = st\<lparr>rg_devices := insert_row d (rg_devices st)\<rparr>
            in bind_result (mint_credential ops now mt d komf st) (\<lambda>(st, iss). Inr (st, d, iss)))))"

definition create_device ::
  "key_ops \<Rightarrow> int \<Rightarrow> minting \<Rightarrow> auth_user \<Rightarrow> credential_issuance \<Rightarrow> device_kind \<Rightarrow> ustr option
     \<Rightarrow> registry \<Rightarrow> (registry \<times> device \<times> issued list) device_result" where
  "create_device ops now mt user issuance kind name st =
     create_device_in_transaction ops now mt user issuance kind name False st"

definition create_komelia_device ::
  "key_ops \<Rightarrow> int \<Rightarrow> minting \<Rightarrow> auth_user \<Rightarrow> credential_issuance \<Rightarrow> ustr option \<Rightarrow> bool
     \<Rightarrow> registry \<Rightarrow> (registry \<times> device \<times> issued list) device_result" where
  "create_komelia_device ops now mt user issuance name komf st =
     create_device_in_transaction ops now mt user issuance Komelia name komf st"

definition komf_metadata_editing_for_device :: "device \<Rightarrow> registry \<Rightarrow> bool" where
  "komf_metadata_editing_for_device d st =
     (dv_kind d = Komelia \<and>
      (case find (\<lambda>c. dc_kind c = ApiKey) (find_credentials (dv_id d) st) of
         None \<Rightarrow> False
       | Some c \<Rightarrow>
           (case find (\<lambda>k. ak_user_id k = dv_user_id d \<and> ak_short_token k = dc_ref c) (rg_api_keys st) of
              Some k \<Rightarrow> (case ak_permissions k of
                 Custom ps \<Rightarrow> EditMetadata \<in> set ps | api_key_permissions.Inherit \<Rightarrow> False)
            | None \<Rightarrow> False)))"

definition rotate_read ::
  "auth_user \<Rightarrow> credential_issuance \<Rightarrow> string \<Rightarrow> registry \<Rightarrow> (device \<times> bool) device_result" where
  "rotate_read user issuance did st =
     bind_result (get user did st) (\<lambda>d.
     bind_result (authorize_credential_issuance (dv_kind d) issuance) (\<lambda>_.
       if is_revoked d then Inl Revoked
       else let komf = komf_metadata_editing_for_device d st
            in if komf \<and> \<not> has_permission user EditMetadata then Inl Forbidden else Inr (d, komf)))"

definition rotate_write ::
  "key_ops \<Rightarrow> int \<Rightarrow> minting \<Rightarrow> device \<Rightarrow> bool \<Rightarrow> registry \<Rightarrow> (registry \<times> issued list) device_result" where
  "rotate_write ops now mt d komf st = mint_credential ops now mt d komf (discard_credentials now d st)"

definition rotate_credential ::
  "key_ops \<Rightarrow> int \<Rightarrow> minting \<Rightarrow> auth_user \<Rightarrow> credential_issuance \<Rightarrow> string \<Rightarrow> registry
     \<Rightarrow> (registry \<times> issued list) device_result" where
  "rotate_credential ops now mt user issuance did st =
     bind_result (rotate_read user issuance did st) (\<lambda>(d, komf). rotate_write ops now mt d komf st)"

definition revoke_write :: "int \<Rightarrow> device \<Rightarrow> registry \<Rightarrow> (registry \<times> device) device_result" where
  "revoke_write now d st =
     update_device (dv_id d) (\<lambda>d. d\<lparr>dv_revoked_at := Some now\<rparr>) (discard_credentials now d st)"

definition revoke :: "int \<Rightarrow> auth_user \<Rightarrow> string \<Rightarrow> registry \<Rightarrow> (registry \<times> device) device_result" where
  "revoke now user did st =
     bind_result (get user did st) (\<lambda>d. if is_revoked d then Inr (st, d) else revoke_write now d st)"

definition rename_one :: "string \<Rightarrow> ustr \<Rightarrow> device_credential \<Rightarrow> registry \<Rightarrow> registry" where
  "rename_one uid name c st =
     (case dc_kind c of
        ApiKey \<Rightarrow> st\<lparr>rg_api_keys := map (\<lambda>k. if ak_user_id k = uid \<and> ak_short_token k = dc_ref c
            then k\<lparr>ak_name := name\<rparr> else k) (rg_api_keys st)\<rparr>
      | LiseurToken \<Rightarrow> liseur_rename (dc_ref c) name st
      | Session \<Rightarrow> st)"

definition rename_write :: "device \<Rightarrow> ustr \<Rightarrow> registry \<Rightarrow> (registry \<times> device) device_result" where
  "rename_write d name st =
     update_device (dv_id d) (\<lambda>d. d\<lparr>dv_name := name\<rparr>)
       (fold (rename_one (dv_user_id d) name) (find_credentials (dv_id d) st) st)"

definition rename_device ::
  "auth_user \<Rightarrow> string \<Rightarrow> ustr \<Rightarrow> registry \<Rightarrow> (registry \<times> device) device_result" where
  "rename_device user did name st =
     bind_result (get user did st) (\<lambda>d.
     bind_result (validate_name name) (\<lambda>name.
       if name = dv_name d then Inr (st, d)
       else if name \<in> set (existing_names (dv_user_id d) st) then Inl (InvalidName (TakenName name))
       else rename_write d name st))"

definition set_transform_profile ::
  "auth_user \<Rightarrow> string \<Rightarrow> json option \<Rightarrow> registry \<Rightarrow> (registry \<times> device) device_result" where
  "set_transform_profile user did profile st =
     bind_result (get user did st) (\<lambda>d.
       update_device (dv_id d) (\<lambda>d. d\<lparr>dv_transform_profile := profile\<rparr>) st)"

definition set_kindle_email ::
  "auth_user \<Rightarrow> string \<Rightarrow> ustr option \<Rightarrow> registry \<Rightarrow> (registry \<times> device) device_result" where
  "set_kindle_email user did email st =
     bind_result (get user did st) (\<lambda>d.
     bind_result (case email of None \<Rightarrow> Inr None
                  | Some e \<Rightarrow> bind_result (normalize_kindle_email e) (\<lambda>e. Inr (Some e))) (\<lambda>email.
       update_device (dv_id d) (\<lambda>d. d\<lparr>dv_kindle_email := email\<rparr>) st))"

section \<open>Telemetry\<close>

definition merge_counters :: "telemetry_counters \<Rightarrow> telemetry_counters \<Rightarrow> telemetry_counters" where
  "merge_counters old new =
     \<lparr>tc_progress = merge_counter (tc_progress old) (tc_progress new),
      tc_highlights = merge_counter (tc_highlights old) (tc_highlights new),
      tc_notes = merge_counter (tc_notes old) (tc_notes new),
      tc_bookmarks = merge_counter (tc_bookmarks old) (tc_bookmarks new),
      tc_sessions = merge_counter (tc_sessions old) (tc_sessions new),
      tc_items = merge_counter (tc_items old) (tc_items new)\<rparr>"

text \<open>A field of the patch replaces the stored one when it is present.\<close>

definition merged_row :: "int \<Rightarrow> telemetry_patch \<Rightarrow> telemetry_row \<Rightarrow> telemetry_row" where
  "merged_row now patch row =
     \<lparr>tl_device_id = tl_device_id row,
      tl_battery_percent = or_else (tp_battery_percent patch) (tl_battery_percent row),
      tl_charging = or_else (tp_charging patch) (tl_charging row),
      tl_battery_source = or_else (tp_battery_source patch) (tl_battery_source row),
      tl_battery_observed_at = or_else (tp_battery_observed_at patch) (tl_battery_observed_at row),
      tl_sync_status = or_else (tp_sync_status patch) (tl_sync_status row),
      tl_sync_protocol = or_else (tp_sync_protocol patch) (tl_sync_protocol row),
      tl_synced_at = or_else (tp_synced_at patch) (tl_synced_at row),
      tl_counters = merge_counters (tl_counters row) (tp_counters patch),
      tl_updated_at = now\<rparr>"

definition first_row :: "int \<Rightarrow> string \<Rightarrow> telemetry_patch \<Rightarrow> telemetry_row" where
  "first_row now did patch =
     \<lparr>tl_device_id = did, tl_battery_percent = tp_battery_percent patch,
      tl_charging = tp_charging patch, tl_battery_source = tp_battery_source patch,
      tl_battery_observed_at = tp_battery_observed_at patch,
      tl_sync_status = tp_sync_status patch, tl_sync_protocol = tp_sync_protocol patch,
      tl_synced_at = tp_synced_at patch, tl_counters = tp_counters patch, tl_updated_at = now\<rparr>"

definition merge_telemetry ::
  "int \<Rightarrow> string \<Rightarrow> telemetry_patch \<Rightarrow> registry \<Rightarrow> registry device_result" where
  "merge_telemetry now did patch st =
     (case row_at tl_device_id did (rg_telemetry st) of
        Some row \<Rightarrow> Inr (st\<lparr>rg_telemetry :=
          update_row tl_device_id (merged_row now patch row) (rg_telemetry st)\<rparr>)
      | None \<Rightarrow>
          if row_at dv_id did (rg_devices st) = None then Inl Database
          else Inr (st\<lparr>rg_telemetry := insert_row (first_row now did patch) (rg_telemetry st)\<rparr>))"

definition update_telemetry ::
  "int \<Rightarrow> string \<Rightarrow> telemetry_patch \<Rightarrow> registry \<Rightarrow> registry device_result" where
  "update_telemetry now did patch st = merge_telemetry now did patch st"

text \<open>\<open>update_many\<close> filtered on the id: no row is no error.\<close>

definition update_devices :: "string \<Rightarrow> (device \<Rightarrow> device) \<Rightarrow> registry \<Rightarrow> registry" where
  "update_devices did f st =
     st\<lparr>rg_devices := map (\<lambda>d. if dv_id d = did then f d else d) (rg_devices st)\<rparr>"

definition record_delivery ::
  "key_ops \<Rightarrow> int \<Rightarrow> string \<Rightarrow> kindle_send_summary \<Rightarrow> registry \<Rightarrow> registry device_result" where
  "record_delivery ops now did summary st =
     (let summary = json_of_kindle summary;
          st = update_devices did
            (\<lambda>d. d\<lparr>dv_last_sync_at := Some now, dv_last_sync_summary := Some summary\<rparr>) st;
          patch = (from_summary ops summary device_protocol.Api now)
            \<lparr>tp_sync_protocol := None, tp_sync_status := Some ''delivered''\<rparr>
      in merge_telemetry now did patch st)"

definition telemetry :: "string \<Rightarrow> registry \<Rightarrow> telemetry_row option" where
  "telemetry did st = row_at tl_device_id did (rg_telemetry st)"

section \<open>Library scope\<close>

definition scope_between ::
  "library_scope \<Rightarrow> library_scope \<Rightarrow> string list \<Rightarrow> string list \<times> string list" where
  "scope_between previous nxt owner =
     (let before = resolve_scope previous (set owner); after = resolve_scope nxt (set owner)
      in (filter (\<lambda>l. l \<in> after - before) owner, filter (\<lambda>l. l \<in> before - after) owner))"

definition DELTA_CHUNK :: nat where "DELTA_CHUNK = 256"

text \<open>The library of a book, through its series, and the books of libraries that are not deleted.\<close>

definition library_of_media :: "media_row \<Rightarrow> registry \<Rightarrow> string option" where
  "library_of_media m st =
     Option.bind (md_series_id m) (\<lambda>s. Option.bind (map_of (rg_series st) s) (\<lambda>l. l))"

definition media_of_libraries :: "string list \<Rightarrow> registry \<Rightarrow> string list" where
  "media_of_libraries ls st =
     map md_id (filter (\<lambda>m. md_deleted_at m = None
       \<and> (case library_of_media m st of None \<Rightarrow> False | Some l \<Rightarrow> l \<in> set ls)) (rg_media st))"

definition upsert_delta :: "int \<Rightarrow> string \<Rightarrow> bool \<Rightarrow> string \<Rightarrow> registry \<Rightarrow> registry" where
  "upsert_delta now did removed mid st =
     st\<lparr>rg_deltas := upsert_row delta_key
          \<lparr>ed_device_id = did, ed_media_id = mid, ed_removed = removed, ed_created_at = now\<rparr>
          (rg_deltas st)\<rparr>"

definition record_side :: "int \<Rightarrow> string \<Rightarrow> string list \<times> bool \<Rightarrow> registry \<Rightarrow> registry" where
  "record_side now did side st =
     (case side of (ls, removed) \<Rightarrow>
        fold (\<lambda>chunk st.
            fold (\<lambda>mids. fold (upsert_delta now did removed) mids)
              (chunks DELTA_CHUNK (media_of_libraries chunk st)) st)
          (chunks DELTA_CHUNK ls) st)"

definition record_entitlement_deltas ::
  "int \<Rightarrow> string \<Rightarrow> string list \<times> string list \<Rightarrow> registry \<Rightarrow> registry" where
  "record_entitlement_deltas now did transition st =
     (case transition of (entered, left) \<Rightarrow>
        if entered = [] \<and> left = [] then st
        else fold (record_side now did) [(left, True), (entered, False)] st)"

definition forget_sightings :: "string \<Rightarrow> registry \<Rightarrow> registry" where
  "forget_sightings did st =
     st\<lparr>rg_recently_seen := fold AList.delete
          (map credential_key (filter (\<lambda>c. dc_device_id c = did) (rg_credentials st)))
          (rg_recently_seen st)\<rparr>"

definition scope_write ::
  "int \<Rightarrow> string \<Rightarrow> library_scope \<Rightarrow> string list \<times> string list \<Rightarrow> registry
     \<Rightarrow> (registry \<times> device) device_result" where
  "scope_write now did scope transition st =
     bind_result (update_device did (\<lambda>d. d\<lparr>dv_library_scope := to_column_value scope\<rparr>) st)
       (\<lambda>(st, d). Inr (if dv_kind d = device_kind.Kobo
          then record_entitlement_deltas now did transition st else st, d))"

definition set_library_scope ::
  "int \<Rightarrow> auth_user \<Rightarrow> string \<Rightarrow> library_scope \<Rightarrow> registry \<Rightarrow> (registry \<times> device) device_result" where
  "set_library_scope now user did scope st =
     bind_result (get user did st) (\<lambda>d.
       let owner = visible_library_ids (dv_user_id d) st
       in case find (\<lambda>l. l \<notin> set owner) (case library_ids scope of Some ids \<Rightarrow> ids | None \<Rightarrow> []) of
            Some unknown \<Rightarrow> Inl (InvalidScope unknown)
          | None \<Rightarrow>
              bind_result (scope_write now (dv_id d) scope (scope_between (scope_of d) scope owner) st)
                (\<lambda>(st, d). Inr (forget_sightings (dv_id d) st, d)))"

section \<open>Sightings\<close>

definition TOUCH_INTERVAL :: int where "TOUCH_INTERVAL = 60 * 1000000000"

definition device_for_key :: "seen_key \<Rightarrow> registry \<Rightarrow> device option" where
  "device_for_key key st =
     (case row_at credential_key key (rg_credentials st) of
        None \<Rightarrow> None
      | Some c \<Rightarrow>
          (case row_at dv_id (dc_device_id c) (rg_devices st) of
             Some d \<Rightarrow> if \<not> is_revoked d then Some d else None
           | None \<Rightarrow> None))"

definition device_for_credential :: "key_ops \<Rightarrow> credential_ref \<Rightarrow> registry \<Rightarrow> device option" where
  "device_for_credential ops cref st =
     (case lookup_key ops cref of None \<Rightarrow> None | Some key \<Rightarrow> device_for_key key st)"

definition seen_within_interval :: "int \<Rightarrow> seen_key \<Rightarrow> registry \<Rightarrow> registry \<times> bool" where
  "seen_within_interval now key st =
     (case map_of (rg_recently_seen st) key of
        Some t \<Rightarrow>
          if max 0 (now - t) < TOUCH_INTERVAL then (st, True)
          else (st\<lparr>rg_recently_seen := AList.delete key (rg_recently_seen st)\<rparr>, False)
      | None \<Rightarrow> (st, False))"

definition mark_seen :: "int \<Rightarrow> seen_key \<Rightarrow> registry \<Rightarrow> registry" where
  "mark_seen now key st = st\<lparr>rg_recently_seen := AList.update key now (rg_recently_seen st)\<rparr>"

definition record_sighting ::
  "key_ops \<Rightarrow> int \<Rightarrow> device \<Rightarrow> seen_key \<Rightarrow> device_protocol \<Rightarrow> json option \<Rightarrow> registry
     \<Rightarrow> (registry \<times> device_seen) device_result" where
  "record_sighting ops now d key protocol summary st =
     (let st = update_devices (dv_id d)
            (\<lambda>d. case summary of
                None \<Rightarrow> d\<lparr>dv_last_seen_at := Some now\<rparr>
              | Some s \<Rightarrow> d\<lparr>dv_last_seen_at := Some now, dv_last_sync_at := Some now,
                            dv_last_sync_summary := Some s\<rparr>) st
      in bind_result
           (case summary of None \<Rightarrow> Inr st
            | Some s \<Rightarrow> merge_telemetry now (dv_id d) (from_summary ops s protocol now) st)
           (\<lambda>st. let seen = \<lparr>se_device_id = dv_id d, se_user_id = dv_user_id d,
                             se_protocol = protocol, se_first_seen = (dv_last_seen_at d = None)\<rparr>
                 in Inr ((mark_seen now key st)\<lparr>rg_announced := seen # rg_announced st\<rparr>, seen)))"

record device_auth =
  da_device_id :: string
  da_library_scope :: library_scope

definition authenticate ::
  "key_ops \<Rightarrow> int \<Rightarrow> credential_ref \<Rightarrow> device_protocol \<Rightarrow> registry \<Rightarrow> registry \<times> device_auth option" where
  "authenticate ops now cref protocol st =
     (case lookup_key ops cref of
        None \<Rightarrow> (st, None)
      | Some key \<Rightarrow>
          (case device_for_key key st of
             None \<Rightarrow> (st, None)
           | Some d \<Rightarrow>
               (let st = (case seen_within_interval now key st of
                    (st, True) \<Rightarrow> st
                  | (st, False) \<Rightarrow>
                      (case record_sighting ops now d key protocol None st of
                         Inr (st, _) \<Rightarrow> st | Inl _ \<Rightarrow> st))
                in (st, Some \<lparr>da_device_id = dv_id d, da_library_scope = scope_of d\<rparr>))))"

definition touch ::
  "key_ops \<Rightarrow> int \<Rightarrow> credential_ref \<Rightarrow> device_protocol \<Rightarrow> json option \<Rightarrow> registry
     \<Rightarrow> (registry \<times> device_seen option) device_result" where
  "touch ops now cref protocol summary st =
     (case lookup_key ops cref of
        None \<Rightarrow> Inr (st, None)
      | Some key \<Rightarrow>
          (case (if summary = None then seen_within_interval now key st else (st, False)) of
             (st, True) \<Rightarrow> Inr (st, None)
           | (st, False) \<Rightarrow>
               (case device_for_key key st of
                  None \<Rightarrow> Inr (st, None)
                | Some d \<Rightarrow> bind_result (record_sighting ops now d key protocol summary st)
                    (\<lambda>(st, seen). Inr (st, Some seen)))))"

section \<open>Requests with an API key\<close>

definition auth_user_of :: "login_user \<Rightarrow> auth_user" where
  "auth_user_of u =
     \<lparr>au_id = lu_id u, au_username = lu_username u, au_is_server_owner = lu_is_server_owner u,
      au_is_locked = lu_is_locked u, au_permissions = loaded_permissions (lu_permissions u),
      au_device_library_scope = None\<rparr>"

text \<open>The join of \<open>APIKeyWithUser\<close> with the filters of \<open>validate_api_key\<close>.\<close>

definition key_with_user :: "key_ops \<Rightarrow> int \<Rightarrow> pak \<Rightarrow> registry \<Rightarrow> (api_key \<times> login_user) option" where
  "key_with_user ops now p st =
     find (\<lambda>(k, u). ak_short_token k = pk_short_token p
            \<and> ak_long_token_hash k = long_token_hashed ops p
            \<and> (case ak_expires_at k of None \<Rightarrow> True | Some t \<Rightarrow> t \<ge> now)
            \<and> ak_user_id k = lu_id u \<and> lu_deleted_at u = None)
       (List.product (rg_api_keys st) (rg_users st))"

definition key_user :: "api_key \<Rightarrow> login_user \<Rightarrow> auth_user" where
  "key_user k u =
     (case ak_permissions k of
        api_key_permissions.Inherit \<Rightarrow> auth_user_of u
      | Custom ps \<Rightarrow> (auth_user_of u)\<lparr>au_permissions := ps, au_is_server_owner := False\<rparr>)"

definition validate_api_key ::
  "key_ops \<Rightarrow> int \<Rightarrow> pak \<Rightarrow> registry \<Rightarrow> (registry \<times> auth_user) option" where
  "validate_api_key ops now p st =
     (case key_with_user ops now p st of
        None \<Rightarrow> None
      | Some (k, u) \<Rightarrow>
          if \<not> (lu_is_server_owner u \<or> AccessApiKeys \<in> set (loaded_permissions (lu_permissions u)))
             \<or> long_token_hashed ops p \<noteq> ak_long_token_hash k
          then None
          else Some (st\<lparr>rg_api_keys := map (\<lambda>q. if ak_id q = ak_id k
                 then q\<lparr>ak_last_used_at := Some now\<rparr> else q) (rg_api_keys st)\<rparr>, key_user k u))"

record auth_context =
  ac_user :: auth_user
  ac_api_key :: "string option"
  ac_device_id :: "string option"

definition bind_device ::
  "key_ops \<Rightarrow> int \<Rightarrow> auth_context \<Rightarrow> credential_ref \<Rightarrow> device_protocol \<Rightarrow> registry
     \<Rightarrow> registry \<times> auth_context" where
  "bind_device ops now ctx cref protocol st =
     (case authenticate ops now cref protocol st of
        (st, Some a) \<Rightarrow> (st, ctx\<lparr>ac_user := (ac_user ctx)
              \<lparr>au_device_library_scope := library_ids (da_library_scope a)\<rparr>,
            ac_device_id := Some (da_device_id a)\<rparr>)
      | (st, None) \<Rightarrow> (st, ctx))"

text \<open>The protocol of the mount the path-key middleware runs under.\<close>

definition path_protocol :: "ustr \<Rightarrow> device_protocol" where
  "path_protocol path =
     (let first = hd (split_on 47 (dropWhile (\<lambda>c. c = 47) path))
      in if first = lit ''kobo'' then device_protocol.Kobo
         else if first = lit ''koreader'' then device_protocol.Koreader
         else device_protocol.Opds)"

definition api_key_middleware ::
  "key_ops \<Rightarrow> int \<Rightarrow> ustr \<Rightarrow> string \<Rightarrow> registry \<Rightarrow> (registry \<times> auth_context) option" where
  "api_key_middleware ops now path raw st =
     (case parse_key ops raw of
        None \<Rightarrow> None
      | Some p \<Rightarrow>
          (case validate_api_key ops now p st of
             None \<Rightarrow> None
           | Some (st, user) \<Rightarrow>
               Some (bind_device ops now
                 \<lparr>ac_user = user, ac_api_key = Some raw, ac_device_id = None\<rparr>
                 (ApiKeyRef raw) (path_protocol path) st)))"

end
