(* ===== verification/Device_Steps.thy ===== *)
theory Device_Steps
  imports Devices
begin

text \<open>
  The registry over time: the step relation with interleaved operations, the well-formedness of
  the tables, what every step keeps of devices and telemetry, and what minting, discarding and
  key lookup do to the tables.
\<close>

section \<open>Steps\<close>

text \<open>
  The steps of the registry, interleaved: a write may come any time after the read that named
  its device, so the row it was given may be stale except for the columns no operation writes.
  Other parts of the server change the remaining tables.
\<close>

definition known :: "device \<Rightarrow> registry \<Rightarrow> bool" where
  "known d st \<longleftrightarrow>
     list_ex (\<lambda>r. dv_id r = dv_id d \<and> dv_user_id r = dv_user_id d \<and> dv_kind r = dv_kind d) (rg_devices st)"

inductive dev_step :: "key_ops \<Rightarrow> registry \<Rightarrow> registry \<Rightarrow> bool" for ops where
  create: "create_device_in_transaction ops now mt user issuance kind name komf st = Inr (st', r)
    \<Longrightarrow> dev_step ops st st'"
| rotate: "known d st \<Longrightarrow> rotate_write ops now mt d komf st = Inr (st', iss) \<Longrightarrow> dev_step ops st st'"
| revoke: "known d st \<Longrightarrow> revoke_write now d st = Inr (st', d') \<Longrightarrow> dev_step ops st st'"
| rename: "known d st \<Longrightarrow> rename_write d name st = Inr (st', d') \<Longrightarrow> dev_step ops st st'"
| profile: "set_transform_profile user did profile st = Inr (st', d') \<Longrightarrow> dev_step ops st st'"
| kindle: "set_kindle_email user did email st = Inr (st', d') \<Longrightarrow> dev_step ops st st'"
| scope: "scope_write now did scope transition st = Inr (st', d') \<Longrightarrow> dev_step ops st st'"
| forget: "dev_step ops st (forget_sightings did st)"
| delivery: "record_delivery ops now did summary st = Inr st' \<Longrightarrow> dev_step ops st st'"
| report: "update_telemetry now did patch st = Inr st' \<Longrightarrow> dev_step ops st st'"
| sighting: "known d st \<Longrightarrow> record_sighting ops now d key protocol summary st = Inr (st', seen)
    \<Longrightarrow> dev_step ops st st'"
| expire: "dev_step ops st (fst (seen_within_interval now key st))"
| other: "rg_devices st' = rg_devices st \<Longrightarrow> rg_credentials st' = rg_credentials st
    \<Longrightarrow> rg_telemetry st' = rg_telemetry st \<Longrightarrow> unique_key delta_key (rg_deltas st') \<Longrightarrow> dev_step ops st st'"

section \<open>The invariant\<close>

definition registry_ok :: "registry \<Rightarrow> bool" where
  "registry_ok st \<longleftrightarrow>
     unique_key dv_id (rg_devices st) \<and> unique_key credential_key (rg_credentials st)
     \<and> unique_key tl_device_id (rg_telemetry st) \<and> unique_key delta_key (rg_deltas st)
     \<and> (\<forall>c\<in>set (rg_credentials st). dc_device_id c \<in> dv_id ` set (rg_devices st))"

definition device_le :: "device \<Rightarrow> device \<Rightarrow> bool" where
  "device_le d d' \<longleftrightarrow> dv_id d' = dv_id d \<and> dv_user_id d' = dv_user_id d \<and> dv_kind d' = dv_kind d
     \<and> dv_created_at d' = dv_created_at d \<and> (is_revoked d \<longrightarrow> is_revoked d')"

definition devices_grow :: "registry \<Rightarrow> registry \<Rightarrow> bool" where
  "devices_grow st st' \<longleftrightarrow> (\<forall>d\<in>set (rg_devices st). \<exists>d'\<in>set (rg_devices st'). device_le d d')"

fun counter_le :: "int option \<Rightarrow> int option \<Rightarrow> bool" where
  "counter_le None _ = True"
| "counter_le (Some a) None = False"
| "counter_le (Some a) (Some b) = (a \<le> b)"

definition counters_le :: "telemetry_counters \<Rightarrow> telemetry_counters \<Rightarrow> bool" where
  "counters_le a b \<longleftrightarrow>
     counter_le (tc_progress a) (tc_progress b) \<and> counter_le (tc_highlights a) (tc_highlights b)
     \<and> counter_le (tc_notes a) (tc_notes b) \<and> counter_le (tc_bookmarks a) (tc_bookmarks b)
     \<and> counter_le (tc_sessions a) (tc_sessions b) \<and> counter_le (tc_items a) (tc_items b)"

definition telemetry_grows :: "registry \<Rightarrow> registry \<Rightarrow> bool" where
  "telemetry_grows st st' \<longleftrightarrow> (\<forall>r\<in>set (rg_telemetry st). \<exists>r'\<in>set (rg_telemetry st').
     tl_device_id r' = tl_device_id r \<and> counters_le (tl_counters r) (tl_counters r'))"

text \<open>What every step keeps: the invariant, the identity and revocation of devices, the counters.\<close>

definition keeps :: "registry \<Rightarrow> registry \<Rightarrow> bool" where
  "keeps st st' \<longleftrightarrow>
     (registry_ok st \<longrightarrow> registry_ok st' \<and> devices_grow st st' \<and> telemetry_grows st st')"

lemma counter_le_refl [simp]: "counter_le a a"
  by (cases a) auto

lemma counter_le_trans: "counter_le a b \<Longrightarrow> counter_le b c \<Longrightarrow> counter_le a c"
  by (cases a; cases b; cases c) auto

lemma counter_le_merge [simp]: "counter_le a (merge_counter a b)"
  by (cases a; cases b) auto

lemma counters_le_refl [simp]: "counters_le a a"
  by (simp add: counters_le_def)

lemma counters_le_trans: "counters_le a b \<Longrightarrow> counters_le b c \<Longrightarrow> counters_le a c"
  unfolding counters_le_def by (blast intro: counter_le_trans)

lemma counters_le_merge [simp]: "counters_le a (merge_counters a b)"
  by (simp add: counters_le_def merge_counters_def)

lemma device_le_refl [simp]: "device_le d d"
  by (simp add: device_le_def)

lemma device_le_trans: "device_le a b \<Longrightarrow> device_le b c \<Longrightarrow> device_le a c"
  by (simp add: device_le_def)

lemma devices_grow_same: "rg_devices st' = rg_devices st \<Longrightarrow> devices_grow st st'"
  unfolding devices_grow_def by (rule ballI, rule bexI [where P = "device_le _", OF device_le_refl]) simp

lemma telemetry_grows_same: "rg_telemetry st' = rg_telemetry st \<Longrightarrow> telemetry_grows st st'"
  by (auto simp: telemetry_grows_def)

lemma devices_grow_trans: "devices_grow a b \<Longrightarrow> devices_grow b c \<Longrightarrow> devices_grow a c"
  unfolding devices_grow_def by (meson device_le_trans)

lemma telemetry_grows_trans: "telemetry_grows a b \<Longrightarrow> telemetry_grows b c \<Longrightarrow> telemetry_grows a c"
  unfolding telemetry_grows_def by (metis counters_le_trans)

lemma keeps_trans: "keeps a b \<Longrightarrow> keeps b c \<Longrightarrow> keeps a c"
  unfolding keeps_def by (blast intro: devices_grow_trans telemetry_grows_trans)

lemma keeps_other:
  assumes "rg_devices st' = rg_devices st" "rg_credentials st' = rg_credentials st"
    "rg_telemetry st' = rg_telemetry st" "unique_key delta_key (rg_deltas st) \<longrightarrow> unique_key delta_key (rg_deltas st')"
  shows "keeps st st'"
  using assms
  by (auto simp: keeps_def registry_ok_def devices_grow_same telemetry_grows_same)

lemma keeps_map_devices:
  assumes "\<And>d. device_le d (f d)" "rg_devices st' = map f (rg_devices st)"
    "rg_credentials st' = rg_credentials st" "rg_telemetry st' = rg_telemetry st"
    "rg_deltas st' = rg_deltas st"
  shows "keeps st st'"
proof -
  have same: "dv_id (f d) = dv_id d" for d using assms(1) by (simp add: device_le_def)
  then have "dv_id \<circ> f = dv_id" by (simp add: fun_eq_iff)
  moreover from this have "dv_id ` f ` set (rg_devices st) = dv_id ` set (rg_devices st)"
    by (simp add: image_comp)
  moreover have "devices_grow st st'" using assms(1,2) by (auto simp: devices_grow_def)
  ultimately show ?thesis
    using assms by (simp add: keeps_def registry_ok_def unique_key_def telemetry_grows_same)
qed

lemma update_device_keeps:
  assumes "\<And>d. device_le d (f d)" "update_device did f st = Inr (st', d')"
  shows "keeps st st'"
proof -
  obtain d where d: "row_at dv_id did (rg_devices st) = Some d"
      "st' = st\<lparr>rg_devices := update_row dv_id (f d) (rg_devices st)\<rparr>"
    using assms(2) by (auto simp: update_device_def split: option.splits)
  have id: "dv_id (f d) = did" using assms(1) d(1) by (auto simp: device_le_def row_at_def find_Some_iff)
  show ?thesis
    unfolding keeps_def
  proof
    assume ok: "registry_ok st"
    then have u: "unique_key dv_id (rg_devices st)" by (simp add: registry_ok_def)
    have "update_row dv_id (f d) (rg_devices st) = map (\<lambda>r. if r = d then f d else r) (rg_devices st)"
      unfolding update_row_def id
    proof (rule map_cong [OF refl])
      fix r assume "r \<in> set (rg_devices st)"
      then have "dv_id r = did \<longleftrightarrow> r = d" using device_rows.lookup_rows [OF u] d(1) by (metis option.inject)
      then show "(if dv_id r = did then f d else r) = (if r = d then f d else r)" by simp
    qed
    then have m: "rg_devices st' = map (\<lambda>r. if r = d then f d else r) (rg_devices st)" by (simp add: d(2))
    have le: "device_le r (if r = d then f d else r)" for r using assms(1) by simp
    have "keeps st st'" by (rule keeps_map_devices [OF le m]) (simp_all add: d(2))
    with ok show "registry_ok st' \<and> devices_grow st st' \<and> telemetry_grows st st'"
      by (simp add: keeps_def)
  qed
qed

lemma update_devices_keeps:
  "(\<And>d. device_le d (f d)) \<Longrightarrow> keeps st (update_devices did f st)"
  by (rule keeps_map_devices [where f = "\<lambda>d. if dv_id d = did then f d else d"])
    (auto simp: update_devices_def)

lemma insert_device_keeps:
  assumes "row_at dv_id (dv_id d) (rg_devices st) = None"
  shows "keeps st (st\<lparr>rg_devices := insert_row d (rg_devices st)\<rparr>)"
proof -
  have "devices_grow st (st\<lparr>rg_devices := insert_row d (rg_devices st)\<rparr>)"
    unfolding devices_grow_def by (rule ballI, rule bexI [where P = "device_le _", OF device_le_refl])
      (simp add: insert_row_def)
  then show ?thesis
    using assms device_rows.invar_insert [of "rg_devices st" d]
    by (auto simp: keeps_def registry_ok_def telemetry_grows_same insert_row_def)
qed

lemma insert_credential_keeps:
  assumes "insert_credential did protocol kind ref st = Inr st'"
  shows "keeps st st'"
proof -
  define c where "c = \<lparr>dc_id = rg_next_credential st, dc_device_id = did, dc_protocol = protocol,
    dc_kind = kind, dc_ref = ref\<rparr>"
  have a: "row_at dv_id did (rg_devices st) \<noteq> None" "row_at credential_key (credential_key c) (rg_credentials st) = None"
      "st' = st\<lparr>rg_credentials := insert_row c (rg_credentials st), rg_next_credential := rg_next_credential st + 1\<rparr>"
    using assms by (auto simp: insert_credential_def c_def credential_key_def split: if_splits)
  then have "did \<in> dv_id ` set (rg_devices st)" by (auto simp: row_at_None)
  with a show ?thesis
    using credential_rows.invar_insert [of "rg_credentials st" c]
    by (auto simp: keeps_def registry_ok_def devices_grow_same telemetry_grows_same c_def insert_row_def)
qed

lemma merge_telemetry_keeps:
  assumes "merge_telemetry now did patch st = Inr st'"
  shows "keeps st st'"
proof (cases "row_at tl_device_id did (rg_telemetry st)")
  case None
  with assms have "st' = st\<lparr>rg_telemetry := insert_row (first_row now did patch) (rg_telemetry st)\<rparr>"
    by (auto simp: merge_telemetry_def split: if_splits)
  moreover have "tl_device_id (first_row now did patch) = did" by (simp add: first_row_def)
  ultimately show ?thesis
    using None telemetry_rows.invar_insert [of "rg_telemetry st" "first_row now did patch"]
    by (auto simp: keeps_def registry_ok_def devices_grow_same telemetry_grows_def insert_row_def)
next
  case (Some row)
  define r where "r = merged_row now patch row"
  have r: "tl_device_id r = tl_device_id row"
      "tl_counters r = merge_counters (tl_counters row) (tp_counters patch)"
      "st' = st\<lparr>rg_telemetry := update_row tl_device_id r (rg_telemetry st)\<rparr>"
    using assms Some by (simp_all add: merge_telemetry_def r_def merged_row_def)
  show ?thesis
    unfolding keeps_def
  proof
    assume ok: "registry_ok st"
    then have u: "unique_key tl_device_id (rg_telemetry st)" by (simp add: registry_ok_def)
    have row: "q \<in> set (rg_telemetry st) \<Longrightarrow> tl_device_id q = tl_device_id row \<Longrightarrow> q = row" for q
      using telemetry_rows.lookup_rows [OF u] Some by (metis option.inject)
    have "telemetry_grows st st'"
      unfolding telemetry_grows_def
    proof
      fix q assume q: "q \<in> set (rg_telemetry st)"
      show "\<exists>r'\<in>set (rg_telemetry st'). tl_device_id r' = tl_device_id q \<and> counters_le (tl_counters q) (tl_counters r')"
      proof (cases "tl_device_id q = tl_device_id row")
        case True
        with row q have "q = row" by blast
        moreover have "r \<in> set (rg_telemetry st')" using q r True by (force simp: update_row_def)
        ultimately show ?thesis using r by (intro bexI [of _ r]) simp_all
      next
        case False
        with q r have "q \<in> set (rg_telemetry st')" by (force simp: update_row_def)
        then show ?thesis by (intro bexI [of _ q]) simp_all
      qed
    qed
    then show "registry_ok st' \<and> devices_grow st st' \<and> telemetry_grows st st'"
      using ok r telemetry_rows.invar_update [OF u, of r]
      by (auto simp: registry_ok_def devices_grow_same)
  qed
qed

lemma discard_one_frame [simp]:
  "rg_devices (discard_one now uid c st) = rg_devices st"
  "rg_credentials (discard_one now uid c st) = rg_credentials st"
  "rg_telemetry (discard_one now uid c st) = rg_telemetry st"
  "rg_deltas (discard_one now uid c st) = rg_deltas st"
  "rg_users (discard_one now uid c st) = rg_users st"
  by (simp_all add: discard_one_def liseur_revoke_def split: device_credential_kind.split)

lemma fold_discard_frame [simp]:
  "rg_devices (fold (discard_one now uid) cs st) = rg_devices st"
  "rg_credentials (fold (discard_one now uid) cs st) = rg_credentials st"
  "rg_telemetry (fold (discard_one now uid) cs st) = rg_telemetry st"
  "rg_deltas (fold (discard_one now uid) cs st) = rg_deltas st"
  "rg_users (fold (discard_one now uid) cs st) = rg_users st"
  by (induction cs arbitrary: st) simp_all

lemma discard_frame [simp]:
  "rg_devices (discard_credentials now d st) = rg_devices st"
  "rg_credentials (discard_credentials now d st)
     = delete_rows (\<lambda>c. dc_device_id c = dv_id d) (rg_credentials st)"
  "rg_telemetry (discard_credentials now d st) = rg_telemetry st"
  "rg_deltas (discard_credentials now d st) = rg_deltas st"
  "rg_users (discard_credentials now d st) = rg_users st"
  by (simp_all add: discard_credentials_def Let_def)

lemma discard_keeps: "keeps st (discard_credentials now d st)"
  by (auto simp: keeps_def registry_ok_def devices_grow_same telemetry_grows_same unique_key_delete)
    (auto simp: delete_rows_def)

lemma mint_secret_frame:
  "mint_secret ops now mt d komf kind st = Inr (st', r) \<Longrightarrow>
     rg_devices st' = rg_devices st \<and> rg_credentials st' = rg_credentials st
     \<and> rg_telemetry st' = rg_telemetry st \<and> rg_deltas st' = rg_deltas st \<and> rg_users st' = rg_users st"
  by (auto simp: mint_secret_def mint_api_key_def liseur_mint_def Let_def
      split: device_credential_kind.splits if_splits)

lemma mint_one_keeps:
  assumes "mint_one ops now mt d komf kind protocol st = Inr (st', i)"
  shows "keeps st st'"
proof -
  obtain st1 ref secret where s: "mint_secret ops now mt d komf kind st = Inr (st1, ref, secret)"
      "insert_credential (dv_id d) protocol kind ref st1 = Inr st'"
    using assms by (auto simp: mint_one_def)
  have "keeps st st1" using mint_secret_frame [OF s(1)] by (simp add: keeps_other)
  then show ?thesis using insert_credential_keeps [OF s(2)] keeps_trans by blast
qed

lemma keeps_refl [simp]: "keeps st st"
  by (simp add: keeps_other)

lemma mint_all_keeps: "mint_all ops now mt d komf specs st = Inr (st', iss) \<Longrightarrow> keeps st st'"
proof (induction specs arbitrary: st iss)
  case (Cons spec specs)
  obtain kind protocol where spec: "spec = (kind, protocol)" by force
  then obtain st1 i js where "mint_one ops now mt d komf kind protocol st = Inr (st1, i)"
      "mint_all ops now mt d komf specs st1 = Inr (st', js)"
    using Cons.prems by (auto split: prod.splits)
  then show ?case using mint_one_keeps Cons.IH keeps_trans by blast
qed simp

lemma mint_credential_keeps: "mint_credential ops now mt d komf st = Inr (st', iss) \<Longrightarrow> keeps st st'"
  by (auto simp: mint_credential_def split: if_splits dest: mint_all_keeps)

lemma rename_one_frame [simp]:
  "rg_devices (rename_one uid name c st) = rg_devices st"
  "rg_credentials (rename_one uid name c st) = rg_credentials st"
  "rg_telemetry (rename_one uid name c st) = rg_telemetry st"
  "rg_deltas (rename_one uid name c st) = rg_deltas st"
  by (simp_all add: rename_one_def liseur_rename_def split: device_credential_kind.split)

lemma fold_rename_frame [simp]:
  "rg_devices (fold (rename_one uid name) cs st) = rg_devices st"
  "rg_credentials (fold (rename_one uid name) cs st) = rg_credentials st"
  "rg_telemetry (fold (rename_one uid name) cs st) = rg_telemetry st"
  "rg_deltas (fold (rename_one uid name) cs st) = rg_deltas st"
  by (induction cs arbitrary: st) simp_all

lemma device_le_updates [simp]:
  "device_le d (d\<lparr>dv_name := n\<rparr>)" "device_le d (d\<lparr>dv_revoked_at := Some t\<rparr>)"
  "device_le d (d\<lparr>dv_transform_profile := p\<rparr>)" "device_le d (d\<lparr>dv_kindle_email := e\<rparr>)"
  "device_le d (d\<lparr>dv_library_scope := s\<rparr>)"
  "device_le d (d\<lparr>dv_last_sync_at := a, dv_last_sync_summary := b\<rparr>)"
  "device_le d (d\<lparr>dv_last_seen_at := c\<rparr>)"
  "device_le d (d\<lparr>dv_last_seen_at := c, dv_last_sync_at := a, dv_last_sync_summary := b\<rparr>)"
  by (simp_all add: device_le_def is_revoked_def)

lemma create_keeps:
  assumes "create_device_in_transaction ops now mt user issuance kind name komf st = Inr (st', d, iss)"
  shows "keeps st st'"
proof -
  obtain n where n: "row_at dv_id (mt_device_id mt) (rg_devices st) = None"
      "d = new_device now (mt_device_id mt) (au_id user) n kind"
      "mint_credential ops now mt d komf (st\<lparr>rg_devices := insert_row d (rg_devices st)\<rparr>) = Inr (st', iss)"
    using assms by (auto simp: create_device_in_transaction_def Let_def split: if_splits)
  have "dv_id d = mt_device_id mt" by (simp add: n(2) new_device_def)
  then have "keeps st (st\<lparr>rg_devices := insert_row d (rg_devices st)\<rparr>)"
    using insert_device_keeps [of d st] n(1) by simp
  then show ?thesis using mint_credential_keeps [OF n(3)] keeps_trans by blast
qed

lemma upsert_delta_frame [simp]:
  "rg_devices (upsert_delta now did rm m st) = rg_devices st"
  "rg_credentials (upsert_delta now did rm m st) = rg_credentials st"
  "rg_telemetry (upsert_delta now did rm m st) = rg_telemetry st"
  "rg_series (upsert_delta now did rm m st) = rg_series st"
  "rg_media (upsert_delta now did rm m st) = rg_media st"
  by (simp_all add: upsert_delta_def)

lemma fold_upsert_frame [simp]:
  "rg_devices (fold (upsert_delta now did rm) ms st) = rg_devices st"
  "rg_credentials (fold (upsert_delta now did rm) ms st) = rg_credentials st"
  "rg_telemetry (fold (upsert_delta now did rm) ms st) = rg_telemetry st"
  "rg_series (fold (upsert_delta now did rm) ms st) = rg_series st"
  "rg_media (fold (upsert_delta now did rm) ms st) = rg_media st"
  by (induction ms arbitrary: st) simp_all

lemma upsert_row_write: "upsert_row delta_key = delta_rows.write_r"
  by (simp add: fun_eq_iff upsert_row_def delta_rows.write_r_def)

lemma fold_upsert_unique:
  "unique_key delta_key (rg_deltas st) \<Longrightarrow> unique_key delta_key (rg_deltas (fold (upsert_delta now did rm) ms st))"
  by (induction ms arbitrary: st) (simp_all add: upsert_delta_def upsert_row_write delta_rows.invar_write)

text \<open>The chunks of a side amount to one upsert per book of its libraries.\<close>

lemma media_of_libraries_frame [simp]:
  "media_of_libraries ls (fold (upsert_delta now did rm) ms st) = media_of_libraries ls st"
proof -
  have "library_of_media m (fold (upsert_delta now did rm) ms st) = library_of_media m st" for m
    by (simp add: library_of_media_def)
  then show ?thesis by (simp add: media_of_libraries_def)
qed

lemma in_media_of_libraries:
  "mid \<in> set (media_of_libraries ls st) \<longleftrightarrow>
     (\<exists>m\<in>set (rg_media st). md_id m = mid \<and> md_deleted_at m = None
        \<and> (\<exists>l\<in>set ls. library_of_media m st = Some l))"
  by (auto simp: media_of_libraries_def split: option.splits)

definition side_media :: "string list \<Rightarrow> registry \<Rightarrow> string list" where
  "side_media ls st = concat (map (\<lambda>chunk. media_of_libraries chunk st) (chunks DELTA_CHUNK ls))"

lemma record_side_eq:
  "record_side now did (ls, rm) st = fold (upsert_delta now did rm) (side_media ls st) st"
proof -
  have "fold (\<lambda>chunk st. fold (fold (upsert_delta now did rm))
          (chunks DELTA_CHUNK (media_of_libraries chunk st)) st) cs st
      = fold (upsert_delta now did rm) (concat (map (\<lambda>chunk. media_of_libraries chunk st) cs)) st" for cs st
    by (induction cs arbitrary: st) (simp_all add: fold_chunks DELTA_CHUNK_def)
  then show ?thesis by (simp add: record_side_def side_media_def)
qed

lemma side_media_frame [simp]:
  "side_media ls (fold (upsert_delta now did rm) ms st) = side_media ls st"
  by (simp add: side_media_def)

lemma set_side_media: "set (side_media ls st) = set (media_of_libraries ls st)"
proof -
  have "set ls = (\<Union>c\<in>set (chunks DELTA_CHUNK ls). set c)"
    by (metis concat_chunks set_concat DELTA_CHUNK_def zero_less_numeral)
  then have "mid \<in> set (side_media ls st) \<longleftrightarrow> mid \<in> set (media_of_libraries ls st)" for mid
    unfolding side_media_def by (simp add: in_media_of_libraries) blast
  then show ?thesis by blast
qed

lemma record_deltas_eq:
  "record_entitlement_deltas now did (entered, left) st =
     fold (upsert_delta now did False) (side_media entered st)
       (fold (upsert_delta now did True) (side_media left st) st)"
  by (simp add: record_entitlement_deltas_def record_side_eq)
    (simp add: side_media_def chunks.simps)

lemma record_deltas_keeps: "keeps st (record_entitlement_deltas now did transition st)"
  by (cases transition) (rule keeps_other, simp_all add: record_deltas_eq fold_upsert_unique)

lemma scope_write_keeps:
  assumes "scope_write now did scope transition st = Inr (st', d')"
  shows "keeps st st'"
proof -
  obtain st1 where s: "update_device did (\<lambda>d. d\<lparr>dv_library_scope := to_column_value scope\<rparr>) st = Inr (st1, d')"
      "st' = (if dv_kind d' = device_kind.Kobo then record_entitlement_deltas now did transition st1 else st1)"
    using assms by (auto simp: scope_write_def)
  have "keeps st st1" by (rule update_device_keeps [OF _ s(1)]) simp
  moreover have "keeps st1 st'" by (simp add: s(2) record_deltas_keeps)
  ultimately show ?thesis by (rule keeps_trans)
qed

lemma record_sighting_keeps:
  assumes "record_sighting ops now d key protocol summary st = Inr (st', seen)"
  shows "keeps st st'"
proof -
  define st0 where "st0 = update_devices (dv_id d)
      (\<lambda>d. case summary of None \<Rightarrow> d\<lparr>dv_last_seen_at := Some now\<rparr>
        | Some s \<Rightarrow> d\<lparr>dv_last_seen_at := Some now, dv_last_sync_at := Some now,
                      dv_last_sync_summary := Some s\<rparr>) st"
  obtain st1 where s: "(case summary of None \<Rightarrow> Inr st0
      | Some s \<Rightarrow> merge_telemetry now (dv_id d) (from_summary ops s protocol now) st0) = Inr st1"
      "rg_devices st' = rg_devices st1" "rg_credentials st' = rg_credentials st1"
      "rg_telemetry st' = rg_telemetry st1" "rg_deltas st' = rg_deltas st1"
    using assms by (auto simp: record_sighting_def Let_def mark_seen_def simp flip: st0_def)
  have "keeps st st0" unfolding st0_def by (rule update_devices_keeps) (simp split: option.split)
  moreover have "keeps st0 st1" using s(1) merge_telemetry_keeps by (auto split: option.splits)
  moreover have "keeps st1 st'" by (rule keeps_other) (simp_all add: s)
  ultimately show ?thesis using keeps_trans by blast
qed

lemma record_delivery_keeps:
  assumes "record_delivery ops now did summary st = Inr st'"
  shows "keeps st st'"
proof -
  obtain st0 patch where s: "st0 = update_devices did (\<lambda>d. d\<lparr>dv_last_sync_at := Some now,
        dv_last_sync_summary := Some (json_of_kindle summary)\<rparr>) st"
      "merge_telemetry now did patch st0 = Inr st'"
    using assms by (auto simp: record_delivery_def Let_def)
  have "keeps st st0" unfolding s(1) by (rule update_devices_keeps) simp
  then show ?thesis using merge_telemetry_keeps [OF s(2)] keeps_trans by blast
qed

inductive_cases dev_stepE: "dev_step ops st st'"

lemma dev_step_keeps:
  assumes "dev_step ops st st'"
  shows "keeps st st'"
  using assms
proof cases
  case (create now mt user issuance kind name komf r)
  then show ?thesis using create_keeps by (cases r) blast
next
  case (rotate d now mt komf iss)
  then show ?thesis
    unfolding rotate_write_def using discard_keeps mint_credential_keeps keeps_trans by blast
next
  case (revoke d now d')
  then show ?thesis
    unfolding revoke_write_def
    by (auto intro: keeps_trans [OF discard_keeps] dest: update_device_keeps [rotated])
next
  case (rename d name d')
  have "keeps st (fold (rename_one (dv_user_id d) name) (find_credentials (dv_id d) st) st)"
    by (rule keeps_other) simp_all
  then show ?thesis
    using rename(2) keeps_trans unfolding rename_write_def by (auto dest: update_device_keeps [rotated])
next
  case (profile user did p d')
  then show ?thesis by (auto simp: set_transform_profile_def dest: update_device_keeps [rotated])
next
  case (kindle user did email d')
  then show ?thesis by (auto simp: set_kindle_email_def dest: update_device_keeps [rotated])
next
  case (scope now did s transition d')
  then show ?thesis by (simp add: scope_write_keeps)
next
  case (forget did)
  then show ?thesis by (simp add: forget_sightings_def keeps_other)
next
  case (delivery now did summary)
  then show ?thesis by (simp add: record_delivery_keeps)
next
  case (report now did patch)
  then show ?thesis by (simp add: update_telemetry_def merge_telemetry_keeps)
next
  case (sighting d now key protocol summary seen)
  then show ?thesis by (simp add: record_sighting_keeps)
next
  case (expire now key)
  then show ?thesis
    by (simp add: seen_within_interval_def keeps_other split: option.split)
next
  case other
  then show ?thesis by (simp add: keeps_other)
qed

lemma dev_steps_keep: "(dev_step ops)\<^sup>*\<^sup>* st st' \<Longrightarrow> keeps st st'"
  by (induction rule: rtranclp_induct) (auto intro: keeps_trans dev_step_keeps)

section \<open>What the operations do\<close>

lemma row_at_devices:
  "registry_ok st \<Longrightarrow> d \<in> set (rg_devices st) \<Longrightarrow> row_at dv_id (dv_id d) (rg_devices st) = Some d"
  using device_rows.lookup_rows by (auto simp: registry_ok_def)

lemma row_at_id: "row_at dv_id did ds = Some d \<Longrightarrow> dv_id d = did \<and> d \<in> set ds"
  by (auto simp: row_at_def find_Some_iff)

lemma get_Inr:
  assumes "registry_ok st" "get user did st = Inr d"
  shows "dv_id d = did \<and> d \<in> set (rg_devices st) \<and> visible_to user d \<and> row_at dv_id did (rg_devices st) = Some d"
proof -
  have d: "dv_id d = did" "d \<in> set (rg_devices st)" "visible_to user d"
    using assms(2) by (auto simp: get_def find_Some_iff split: option.splits)
  then show ?thesis using row_at_devices [OF assms(1) d(2)] by simp
qed

lemma device_for_key_live:
  "device_for_key key st = Some d \<Longrightarrow> \<not> is_revoked d \<and> d \<in> set (rg_devices st)"
  by (auto simp: device_for_key_def row_at_def find_Some_iff split: option.splits if_splits)

lemma device_for_key_frame:
  assumes "rg_devices st' = rg_devices st" "rg_credentials st' = rg_credentials st"
  shows "device_for_key key st' = device_for_key key st"
  unfolding device_for_key_def assms ..

lemma authenticate_device:
  "snd (authenticate ops now cref protocol st) =
     map_option (\<lambda>d. \<lparr>da_device_id = dv_id d, da_library_scope = scope_of d\<rparr>)
       (device_for_credential ops cref st)"
  by (auto simp: authenticate_def device_for_credential_def Let_def split: option.split)

lemma revoked_device_for_key:
  assumes "registry_ok st" "d \<in> set (rg_devices st)" "is_revoked d"
    "c \<in> set (rg_credentials st)" "dc_device_id c = dv_id d"
  shows "device_for_key (credential_key c) st = None"
proof -
  have "row_at credential_key (credential_key c) (rg_credentials st) = Some c"
    using assms(1,4) credential_rows.lookup_rows by (auto simp: registry_ok_def)
  then show ?thesis using row_at_devices [OF assms(1,2)] assms(3,5) by (simp add: device_for_key_def)
qed

definition invalid_at_source :: "string \<Rightarrow> device_credential \<Rightarrow> registry \<Rightarrow> bool" where
  "invalid_at_source uid c st =
     (case dc_kind c of
        ApiKey \<Rightarrow> list_all (\<lambda>k. ak_user_id k \<noteq> uid \<or> ak_short_token k \<noteq> dc_ref c) (rg_api_keys st)
      | LiseurToken \<Rightarrow> list_all (\<lambda>t. lt_id t \<noteq> dc_ref c \<or> lt_revoked_at t \<noteq> None) (rg_liseur_tokens st)
      | Session \<Rightarrow> dc_ref c \<notin> set (rg_sessions st))"

lemma discard_one_invalidates: "invalid_at_source uid c (discard_one now uid c st)"
  by (cases "dc_kind c")
    (auto simp: invalid_at_source_def discard_one_def liseur_revoke_def delete_rows_def list.pred_set)

lemma discard_one_keeps_invalid:
  "invalid_at_source uid c st \<Longrightarrow> invalid_at_source uid c (discard_one now uid c' st)"
  by (cases "dc_kind c"; cases "dc_kind c'")
    (auto simp: invalid_at_source_def discard_one_def liseur_revoke_def delete_rows_def list.pred_set)

lemma fold_discard_keeps_invalid:
  "invalid_at_source uid c st \<Longrightarrow> invalid_at_source uid c (fold (discard_one now uid) cs st)"
  by (induction cs arbitrary: st) (simp_all add: discard_one_keeps_invalid)

lemma fold_discard_invalidates:
  "c \<in> set cs \<Longrightarrow> invalid_at_source uid c (fold (discard_one now uid) cs st)"
  by (induction cs arbitrary: st)
    (auto simp: discard_one_invalidates fold_discard_keeps_invalid)

lemma set_find_credentials: "set (find_credentials did st) = {c \<in> set (rg_credentials st). dc_device_id c = did}"
  by (auto simp: find_credentials_def)

lemma discard_invalidates:
  "c \<in> set (find_credentials (dv_id d) st) \<Longrightarrow> invalid_at_source (dv_user_id d) c (discard_credentials now d st)"
  using fold_discard_invalidates
    [of c "filter (\<lambda>c. dc_device_id c = dv_id d) (rg_credentials st)" "dv_user_id d" now st]
  by (simp add: set_find_credentials discard_credentials_def Let_def invalid_at_source_def
      split: device_credential_kind.splits)

lemma find_credentials_discard:
  "find_credentials did (discard_credentials now d st) = (if did = dv_id d then [] else find_credentials did st)"
proof -
  have "filter (\<lambda>c. dc_device_id c = did \<and> dc_device_id c \<noteq> dv_id d) (rg_credentials st)
      = (if did = dv_id d then [] else filter (\<lambda>c. dc_device_id c = did) (rg_credentials st))"
    by (auto intro: filter_cong)
  then show ?thesis by (simp add: find_credentials_def delete_rows_def conj_commute)
qed

lemma discard_api_keys: "set (rg_api_keys (discard_credentials now d st)) \<subseteq> set (rg_api_keys st)"
proof -
  have "set (rg_api_keys (fold (discard_one now uid) cs st)) \<subseteq> set (rg_api_keys st)" for uid cs
  proof (induction cs arbitrary: st)
    case (Cons c cs)
    have "set (rg_api_keys (discard_one now uid c st)) \<subseteq> set (rg_api_keys st)"
      by (auto simp: discard_one_def liseur_revoke_def delete_rows_def split: device_credential_kind.split)
    with Cons [of "discard_one now uid c st"] show ?case by simp
  qed simp
  then show ?thesis by (simp add: discard_credentials_def Let_def)
qed

lemma revoke_then_get:
  assumes "registry_ok st" "get user did st = Inr d" "revoke_write now d st = Inr (st', d')"
  shows "get user did st' = Inr d'"
proof -
  have d: "dv_id d = did" "d \<in> set (rg_devices st)" "visible_to user d" "row_at dv_id did (rg_devices st) = Some d"
    using get_Inr [OF assms(1,2)] by auto
  have st': "d' = d\<lparr>dv_revoked_at := Some now\<rparr>" "rg_devices st' = update_row dv_id d' (rg_devices st)"
    using assms(3) d by (auto simp: revoke_write_def update_device_def)
  have ok: "registry_ok st'"
    using dev_step_keeps [OF dev_step.revoke [OF _ assms(3)]] assms(1) d by (auto simp: keeps_def known_def list_ex_iff)
  have rows: "rg_devices st' = map (\<lambda>r. if dv_id r = did then d' else r) (rg_devices st)"
    using d st' by (simp add: update_row_def)
  then have "d' \<in> set (rg_devices st')" using d by force
  then have "find (\<lambda>e. visible_to user e \<and> dv_id e = did) (rg_devices st') = Some d'"
    using row_at_devices [OF ok] d rows st'
    by (auto simp: find_Some_iff row_at_def visible_to_def split: option.splits)
  then show ?thesis by (simp add: get_def)
qed

subsection \<open>Minting\<close>

lemma insert_credential_frame:
  "insert_credential did protocol kind ref st = Inr st' \<Longrightarrow>
     rg_api_keys st' = rg_api_keys st \<and> rg_devices st' = rg_devices st \<and> rg_users st' = rg_users st
     \<and> (\<exists>c\<in>set (rg_credentials st'). dc_device_id c = did \<and> credential_key c = (kind, ref))
     \<and> set (rg_credentials st) \<subseteq> set (rg_credentials st')"
  by (auto simp: insert_credential_def insert_row_def credential_key_def split: if_splits)

text \<open>
  Minting for a device adds one API key when its kind uses one, with the permissions of the
  kind, and binds it to the device.
\<close>

definition new_keys :: "key_ops \<Rightarrow> int \<Rightarrow> minting \<Rightarrow> device \<Rightarrow> bool \<Rightarrow> registry \<Rightarrow> api_key list" where
  "new_keys ops now mt d komf st =
     (if credential_kind_for (dv_kind d) = ApiKey
      then [minted_key ops now mt (dv_user_id d) (dv_name d)
              (api_key_permissions_for (dv_kind d) komf) (rg_next_api_key st)]
      else [])"

lemma mint_one_api_key:
  assumes "mint_one ops now mt d komf ApiKey protocol st = Inr (st', i)"
  shows "rg_api_keys st' = rg_api_keys st @ [minted_key ops now mt (dv_user_id d) (dv_name d)
              (api_key_permissions_for (dv_kind d) komf) (rg_next_api_key st)]
    \<and> rg_devices st' = rg_devices st \<and> rg_users st' = rg_users st
    \<and> (\<exists>c\<in>set (rg_credentials st'). dc_device_id c = dv_id d \<and> credential_key c = (ApiKey, mt_short_token mt))
    \<and> i = \<lparr>is_kind = ApiKey, is_protocol = protocol, is_ref = mt_short_token mt,
            is_secret = key_text ops (minted_pak mt)\<rparr>"
  using assms insert_credential_frame
  by (fastforce simp: mint_one_def mint_secret_def mint_api_key_def insert_row_def minted_pak_def)

lemma mint_one_liseur:
  assumes "mint_one ops now mt d komf LiseurToken protocol st = Inr (st', i)"
  shows "rg_api_keys st' = rg_api_keys st \<and> rg_devices st' = rg_devices st \<and> rg_users st' = rg_users st
    \<and> set (rg_credentials st) \<subseteq> set (rg_credentials st')
    \<and> i = \<lparr>is_kind = LiseurToken, is_protocol = protocol, is_ref = mt_token_id mt, is_secret = mt_secret mt\<rparr>"
  using assms insert_credential_frame
  by (fastforce simp: mint_one_def mint_secret_def liseur_mint_def split: if_splits)

lemma credential_kind_for_cases:
  "credential_kind_for kind = (if kind = device_kind.Liseur then LiseurToken else ApiKey)"
  by (cases kind) simp_all

lemma mint_credential_adds:
  assumes "mint_credential ops now mt d komf st = Inr (st', iss)"
  shows "rg_api_keys st' = rg_api_keys st @ new_keys ops now mt d komf st
    \<and> rg_devices st' = rg_devices st \<and> rg_users st' = rg_users st
    \<and> map (\<lambda>i. (is_kind i, is_protocol i)) iss = credential_specs (dv_kind d)
    \<and> (credential_kind_for (dv_kind d) = ApiKey \<longrightarrow> is_secret (hd iss) = key_text ops (minted_pak mt)
        \<and> (\<exists>c\<in>set (rg_credentials st'). dc_device_id c = dv_id d \<and> credential_key c = (ApiKey, mt_short_token mt)))"
proof -
  have m: "mint_all ops now mt d komf (credential_specs (dv_kind d)) st = Inr (st', iss)"
    using assms by (auto simp: mint_credential_def split: if_splits)
  consider (two) "dv_kind d = Coppice" | (token) "dv_kind d = device_kind.Liseur"
    | (key) "dv_kind d \<noteq> Coppice" "dv_kind d \<noteq> device_kind.Liseur" by blast
  then show ?thesis
  proof cases
    case two
    then obtain st1 i1 i2 where
        a: "mint_one ops now mt d komf ApiKey device_protocol.Koreader st = Inr (st1, i1)"
      and b: "mint_one ops now mt d komf LiseurToken device_protocol.Liseur st1 = Inr (st', i2)"
      and i: "iss = [i1, i2]"
      using m by (auto simp: credential_specs_def)
    show ?thesis
      using mint_one_api_key [OF a] mint_one_liseur [OF b] two
      by (auto simp: i new_keys_def credential_specs_def)
  next
    case token
    then obtain i where
        b: "mint_one ops now mt d komf LiseurToken device_protocol.Liseur st = Inr (st', i)" and i: "iss = [i]"
      using m by (auto simp: credential_specs_def)
    show ?thesis using mint_one_liseur [OF b] token by (auto simp: i new_keys_def credential_specs_def)
  next
    case key
    then obtain i where
        a: "mint_one ops now mt d komf ApiKey (protocol_for (dv_kind d)) st = Inr (st', i)" and i: "iss = [i]"
      using m by (auto simp: credential_specs_def credential_kind_for_cases)
    show ?thesis
      using mint_one_api_key [OF a] key
      by (auto simp: i new_keys_def credential_specs_def credential_kind_for_cases)
  qed
qed

subsection \<open>Keys and requests\<close>

lemma find_product_fresh:
  assumes "\<forall>a\<in>set as. \<forall>b\<in>set bs. \<not> P (a, b)"
  shows "find P (List.product (as @ cs) bs) = find P (List.product cs bs)"
  using assms
proof (induction as)
  case (Cons a as)
  then have "find P (map (Pair a) bs) = None" by (auto simp: find_None_iff)
  with Cons show ?case by (simp add: find_append)
qed simp

lemma find_map_Pair: "find P (map (Pair a) bs) = map_option (Pair a) (find (\<lambda>b. P (a, b)) bs)"
  by (induction bs) auto

section \<open>Whole operations\<close>

text \<open>Each operation of the service, run without interruption, is a sequence of steps.\<close>

lemma get_known: "get user did st = Inr d \<Longrightarrow> known d st"
  by (auto simp: get_def known_def list_ex_iff find_Some_iff split: option.splits)

lemma rotate_is_step:
  "rotate_credential ops now mt user issuance did st = Inr (st', iss) \<Longrightarrow> dev_step ops st st'"
  by (auto simp: rotate_credential_def rotate_read_def Let_def split: if_splits
      intro: dev_step.rotate dest: get_known)

lemma revoke_is_step: "revoke now user did st = Inr (st', d) \<Longrightarrow> (dev_step ops)\<^sup>*\<^sup>* st st'"
  by (auto simp: revoke_def split: if_splits intro: dev_step.revoke dest: get_known)

lemma rename_is_step: "rename_device user did name st = Inr (st', d) \<Longrightarrow> (dev_step ops)\<^sup>*\<^sup>* st st'"
  by (auto simp: rename_device_def split: if_splits intro: dev_step.rename dest: get_known)

lemma set_scope_is_step:
  assumes "set_library_scope now user did scope st = Inr (st', d)"
  shows "(dev_step ops)\<^sup>*\<^sup>* st st'"
proof -
  obtain d0 where g: "get user did st = Inr d0" using assms by (auto simp: set_library_scope_def)
  obtain st1 where "scope_write now (dv_id d0) scope
        (scope_between (scope_of d0) scope (visible_library_ids (dv_user_id d0) st)) st = Inr (st1, d)"
      "st' = forget_sightings (dv_id d) st1"
    using assms by (auto simp: set_library_scope_def Let_def g split: option.splits)
  then show ?thesis by (meson dev_step.forget dev_step.scope r_into_rtranclp rtranclp.rtrancl_into_rtrancl)
qed

lemma device_for_key_known: "device_for_key key st = Some d \<Longrightarrow> known d st"
  by (drule device_for_key_live) (auto simp: known_def list_ex_iff)

lemma known_expire [simp]: "known d (fst (seen_within_interval now key st)) = known d st"
  by (simp add: known_def seen_within_interval_def split: option.split)

lemma sighting_is_step:
  assumes "known d st" "record_sighting ops now d key protocol summary (fst (seen_within_interval t key' st)) = Inr (st', seen)"
  shows "(dev_step ops)\<^sup>*\<^sup>* st st'"
  using dev_step.expire [of ops st t key'] dev_step.sighting [OF _ assms(2)] assms(1)
  by (meson known_expire r_into_rtranclp rtranclp.rtrancl_into_rtrancl)

lemma authenticate_is_step: "(dev_step ops)\<^sup>*\<^sup>* st (fst (authenticate ops now cref protocol st))"
proof (cases "lookup_key ops cref")
  case (Some key)
  show ?thesis
  proof (cases "device_for_key key st")
    case d: (Some d)
    define st1 where "st1 = fst (seen_within_interval now key st)"
    have e: "(dev_step ops)\<^sup>*\<^sup>* st st1" unfolding st1_def by (rule r_into_rtranclp, rule dev_step.expire)
    show ?thesis
    proof (cases "snd (seen_within_interval now key st)")
      case True
      then have "fst (authenticate ops now cref protocol st) = st1"
        using Some d by (auto simp: authenticate_def st1_def split: prod.splits)
      with e show ?thesis by simp
    next
      case False
      obtain st2 seen where r: "record_sighting ops now d key protocol None st1 = Inr (st2, seen)"
        by (simp add: record_sighting_def Let_def)
      have "fst (authenticate ops now cref protocol st) = st2"
        using Some d False r by (auto simp: authenticate_def st1_def split: prod.splits)
      then show ?thesis
        using sighting_is_step [OF device_for_key_known [OF d] r [unfolded st1_def]] by simp
    qed
  qed (use Some in \<open>simp add: authenticate_def\<close>)
qed (simp add: authenticate_def)

end
