(* ===== verification/Device_Properties.thy ===== *)
theory Device_Properties
  imports Device_Steps
begin

text \<open>
  What the device registry guarantees: well-formed tables, revocation, telemetry that never
  regresses, least privilege, scopes in force at once and recorded exactly, names; and three
  ways around revocation, scopes and locking that the code leaves open.
\<close>

section \<open>Properties\<close>

text \<open>
  C18. The tables of the registry stay well formed over every interleaving of its operations:
  device ids, credential references, telemetry rows and entitlement deltas are unique, and
  every credential belongs to a device.
\<close>

theorem registry_wellformed:
  assumes "registry_ok st" "(dev_step ops)\<^sup>*\<^sup>* st st'"
  shows "registry_ok st'"
  using dev_steps_keep [OF assms(2)] assms(1) by (simp add: keeps_def)

text \<open>
  C2. A revoked device is never authenticated again: after any further operations, interleaved
  in any way, no credential resolves to it.
\<close>

theorem revoked_stays_out:
  assumes "registry_ok st" "d \<in> set (rg_devices st)" "is_revoked d" "(dev_step ops)\<^sup>*\<^sup>* st st'"
  shows "da_device_id ` set_option (snd (authenticate ops now cref protocol st')) \<subseteq> - {dv_id d}"
proof -
  have k: "registry_ok st'" "devices_grow st st'"
    using dev_steps_keep [OF assms(4)] assms(1) by (simp_all add: keeps_def)
  then obtain d' where d': "d' \<in> set (rg_devices st')" "dv_id d' = dv_id d" "is_revoked d'"
    using assms(2,3) by (auto simp: devices_grow_def device_le_def)
  have "dv_id e \<noteq> dv_id d" if "device_for_credential ops cref st' = Some e" for e
  proof
    assume same: "dv_id e = dv_id d"
    have e: "\<not> is_revoked e" "e \<in> set (rg_devices st')"
      using that device_for_key_live by (auto simp: device_for_credential_def split: option.splits)
    have "e = d'" using row_at_devices [OF k(1)] e(2) d'(1,2) same by (metis option.inject)
    with e(1) d'(3) show False by simp
  qed
  then show ?thesis by (auto simp: authenticate_device)
qed

text \<open>
  C29. The cumulative telemetry counters of a device never regress, whatever clients, deliveries
  and adapters report in whatever order.
\<close>

theorem telemetry_monotone:
  assumes "registry_ok st" "(dev_step ops)\<^sup>*\<^sup>* st st'" "telemetry did st = Some r"
  shows "\<exists>r'. telemetry did st' = Some r' \<and> counters_le (tl_counters r) (tl_counters r')"
proof -
  have k: "registry_ok st'" "telemetry_grows st st'"
    using dev_steps_keep [OF assms(2)] assms(1) by (simp_all add: keeps_def)
  have "r \<in> set (rg_telemetry st)" "tl_device_id r = did"
    using assms(3) by (auto simp: telemetry_def row_at_def find_Some_iff)
  with k(2) obtain r' where r': "r' \<in> set (rg_telemetry st')" "tl_device_id r' = did"
      "counters_le (tl_counters r) (tl_counters r')"
    by (auto simp: telemetry_grows_def)
  then have "telemetry did st' = Some r'"
    using k(1) telemetry_rows.lookup_rows by (auto simp: telemetry_def registry_ok_def)
  with r'(3) show ?thesis by blast
qed

text \<open>
  Revoking a live device always succeeds: it marks the device, invalidates each of its
  credentials at its source (the API key is deleted, the token revoked, the session removed),
  leaves the device without credentials and every other device as it was, and a second
  revocation changes nothing.
\<close>

theorem revoke_spec:
  assumes "registry_ok st" "get user did st = Inr d" "\<not> is_revoked d"
  shows "\<exists>st' d'. revoke now user did st = Inr (st', d') \<and> d' = d\<lparr>dv_revoked_at := Some now\<rparr>
    \<and> list_all (\<lambda>c. invalid_at_source (dv_user_id d) c st') (find_credentials did st)
    \<and> (\<forall>other. find_credentials other st' = (if other = did then [] else find_credentials other st))
    \<and> rg_devices st' = map (\<lambda>r. if dv_id r = did then d' else r) (rg_devices st)
    \<and> (\<forall>later. revoke later user did st' = Inr (st', d'))"
proof -
  have d: "dv_id d = did" "d \<in> set (rg_devices st)" "visible_to user d" "row_at dv_id did (rg_devices st) = Some d"
    using get_Inr [OF assms(1,2)] by auto
  define d' where "d' = d\<lparr>dv_revoked_at := Some now\<rparr>"
  define st' where "st' = (discard_credentials now d st)\<lparr>rg_devices := update_row dv_id d' (rg_devices st)\<rparr>"
  have r: "revoke now user did st = Inr (st', d')"
    using assms(2,3) d by (simp add: revoke_def revoke_write_def update_device_def st'_def d'_def)
  have "revoke_write now d st = Inr (st', d')" using r assms(2,3) by (simp add: revoke_def)
  then have "get user did st' = Inr d'" by (rule revoke_then_get [OF assms(1,2)])
  then have again: "revoke later user did st' = Inr (st', d')" for later
    by (simp add: revoke_def is_revoked_def d'_def)
  have rows: "rg_devices st' = map (\<lambda>r. if dv_id r = did then d' else r) (rg_devices st)"
    using d by (simp add: st'_def update_row_def d'_def)
  have inv: "invalid_at_source (dv_user_id d) c st'" if "c \<in> set (find_credentials did st)" for c
    using discard_invalidates [of c d st now] that d
    by (simp add: st'_def invalid_at_source_def split: device_credential_kind.splits)
  have creds: "find_credentials other st' = (if other = did then [] else find_credentials other st)" for other
    using find_credentials_discard [of other now d st] d by (simp add: st'_def find_credentials_def)
  show ?thesis using r inv creds rows again d'_def by (auto simp: list.pred_set)
qed

text \<open>
  A new device never gets more than its owner has: the only key minted for it belongs to
  the owner and either carries permissions the owner holds, or inherits the owner's and was
  asked for in an interactive session for a script or a browser. Its credentials are those of
  its kind, and its name is not one of the owner's.
\<close>

theorem create_least_privilege:
  assumes "create_device_in_transaction ops now mt user issuance kind name komf st = Inr (st', d, iss)"
  shows "\<exists>keys. rg_api_keys st' = rg_api_keys st @ keys
    \<and> list_all (\<lambda>k. ak_user_id k = au_id user \<and>
        (case ak_permissions k of
           Custom ps \<Rightarrow> au_is_server_owner user \<or> set ps \<subseteq> set (au_permissions user)
         | api_key_permissions.Inherit \<Rightarrow> issuance = InteractiveSession \<and> kind \<in> {device_kind.Api, Web})) keys
    \<and> map (\<lambda>i. (is_kind i, is_protocol i)) iss = credential_specs kind
    \<and> dv_name d \<notin> set (existing_names (au_id user) st) \<and> rg_devices st' = rg_devices st @ [d]"
proof -
  let ?st = "st\<lparr>rg_devices := insert_row d (rg_devices st)\<rparr>"
  have c: "authorize_credential_issuance kind issuance = Inr ()" "authorize_creation user kind komf = Inr ()"
      "device_name_for user kind name st = Inr (dv_name d)" "dv_kind d = kind" "dv_user_id d = au_id user"
      "mint_credential ops now mt d komf ?st = Inr (st', iss)"
    using assms by (auto simp: create_device_in_transaction_def Let_def new_device_def split: if_splits)
  have "dv_name d \<notin> set (existing_names (au_id user) st)"
    using c(3) numbered_name_unused
    by (cases name) (auto simp: device_name_for_def split: if_splits simp del: not_Some_eq, metis)
  moreover have "list_all (\<lambda>k. ak_user_id k = au_id user \<and>
        (case ak_permissions k of
           Custom ps \<Rightarrow> au_is_server_owner user \<or> set ps \<subseteq> set (au_permissions user)
         | api_key_permissions.Inherit \<Rightarrow> issuance = InteractiveSession \<and> kind \<in> {device_kind.Api, Web}))
      (new_keys ops now mt d komf ?st)"
  proof (cases "api_key_permissions_for kind komf")
    case (Custom ps)
    then have "set ps \<subseteq> set (required_permissions kind komf)" by (simp add: required_permissions_def)
    then have "au_is_server_owner user \<or> set ps \<subseteq> set (au_permissions user)"
      using c(2) by (auto simp: authorize_creation_def list_ex_iff split: if_splits)
    with Custom c show ?thesis by (simp add: new_keys_def minted_key_def)
  next
    case Inherit
    then have "kind \<in> {device_kind.Liseur, device_kind.Api, Web}"
      by (cases kind) (simp_all add: api_key_permissions_for_def)
    then show ?thesis
      using Inherit c
      by (cases issuance) (auto simp: new_keys_def minted_key_def authorize_credential_issuance_def split: if_splits)
  qed
  ultimately show ?thesis
    using mint_credential_adds [OF c(6)] c(4) by (auto simp: insert_row_def)
qed

subsection \<open>Scopes\<close>

lemma set_scope_parts:
  assumes "registry_ok st" "set_library_scope now user did scope st = Inr (st', d)"
  obtains d0 st1 where "get user did st = Inr d0" "d = d0\<lparr>dv_library_scope := to_column_value scope\<rparr>"
    "st1 = st\<lparr>rg_devices := update_row dv_id d (rg_devices st)\<rparr>"
    "st' = forget_sightings did (if dv_kind d0 = device_kind.Kobo then record_entitlement_deltas now did
       (scope_between (scope_of d0) scope (visible_library_ids (dv_user_id d0) st)) st1 else st1)"
proof -
  obtain d0 where g: "get user did st = Inr d0"
    using assms(2) by (auto simp: set_library_scope_def)
  have d0: "dv_id d0 = did" "row_at dv_id did (rg_devices st) = Some d0"
    using get_Inr [OF assms(1) g] by auto
  show thesis
    by (rule that [OF g _ refl])
      (use assms(2) g d0 in \<open>auto simp: set_library_scope_def Let_def scope_write_def update_device_def
          split: option.splits\<close>)
qed

lemma forget_frame [simp]:
  "rg_devices (forget_sightings did st) = rg_devices st"
  "rg_credentials (forget_sightings did st) = rg_credentials st"
  "rg_deltas (forget_sightings did st) = rg_deltas st"
  "rg_exclusions (forget_sightings did st) = rg_exclusions st"
  "rg_libraries (forget_sightings did st) = rg_libraries st"
  by (simp_all add: forget_sightings_def)

lemma record_deltas_frame [simp]:
  "rg_devices (record_entitlement_deltas now did tr st) = rg_devices st"
  "rg_credentials (record_entitlement_deltas now did tr st) = rg_credentials st"
  by (cases tr; simp add: record_deltas_eq)+

lemma fold_upsert_libraries [simp]:
  "rg_exclusions (fold (upsert_delta now did rm) ms st) = rg_exclusions st"
  "rg_libraries (fold (upsert_delta now did rm) ms st) = rg_libraries st"
  by (induction ms arbitrary: st) (simp_all add: upsert_delta_def)

lemma record_deltas_libraries [simp]:
  "rg_exclusions (record_entitlement_deltas now did tr st) = rg_exclusions st"
  "rg_libraries (record_entitlement_deltas now did tr st) = rg_libraries st"
  by (cases tr; simp add: record_deltas_eq)+

lemma authenticate_libraries:
  "rg_exclusions (fst (authenticate ops now cref protocol st)) = rg_exclusions st"
  "rg_libraries (fst (authenticate ops now cref protocol st)) = rg_libraries st"
  by (auto simp: authenticate_def seen_within_interval_def record_sighting_def mark_seen_def
      update_devices_def Let_def split: option.splits prod.splits bool.splits sum.splits if_splits)

text \<open>
  C28. A scope is in force with the device's next request: binding the request to the device
  narrows it to exactly the libraries of the scope that the owner sees, or to all of those when
  the scope is lifted, whatever was coalesced before.
\<close>

theorem scope_in_force:
  assumes "registry_ok st" "set_library_scope now user did scope st = Inr (st1, d)" "\<not> is_revoked d"
    "lookup_key ops cref = Some (credential_key c)" "c \<in> set (rg_credentials st)" "dc_device_id c = did"
    "au_id (ac_user ctx) = dv_user_id d"
    "bind_device ops now' ctx cref protocol st1 = (st2, ctx')"
  shows "ac_device_id ctx' = Some did
    \<and> set (visible_libraries (ac_user ctx') st2)
        = resolve_scope scope (set (visible_library_ids (dv_user_id d) st))"
proof -
  obtain d0 st0 where s: "get user did st = Inr d0" "d = d0\<lparr>dv_library_scope := to_column_value scope\<rparr>"
      "st0 = st\<lparr>rg_devices := update_row dv_id d (rg_devices st)\<rparr>"
      "st1 = forget_sightings did (if dv_kind d0 = device_kind.Kobo then record_entitlement_deltas now did
         (scope_between (scope_of d0) scope (visible_library_ids (dv_user_id d0) st)) st0 else st0)"
    by (rule set_scope_parts [OF assms(1,2)])
  have d0: "dv_id d0 = did" "d0 \<in> set (rg_devices st)" "row_at dv_id did (rg_devices st) = Some d0"
    using get_Inr [OF assms(1) s(1)] by auto
  have frame: "rg_devices st1 = update_row dv_id d (rg_devices st)" "rg_credentials st1 = rg_credentials st"
      "rg_exclusions st1 = rg_exclusions st" "rg_libraries st1 = rg_libraries st"
    using s by simp_all
  have u: "unique_key dv_id (rg_devices st)" using assms(1) by (simp add: registry_ok_def)
  have id: "dv_id d = did" using s(2) d0 by simp
  have "row_at dv_id did (rg_devices st1) = Some d"
    using device_rows.lookup_rows [OF device_rows.invar_update [OF u]] device_rows.rows_update [OF u, of d] d0 id
    by (simp add: frame)
  moreover have "row_at credential_key (credential_key c) (rg_credentials st1) = Some c"
    using assms(1,5) credential_rows.lookup_rows by (auto simp: registry_ok_def frame)
  ultimately have "device_for_credential ops cref st1 = Some d"
    using assms(3,4,6) by (simp add: device_for_credential_def device_for_key_def)
  then have a: "snd (authenticate ops now' cref protocol st1)
      = Some \<lparr>da_device_id = did, da_library_scope = scope\<rparr>"
    using id s(2) by (simp add: authenticate_device scope_of_def)
  then have b: "ctx' = ctx\<lparr>ac_user := (ac_user ctx)\<lparr>au_device_library_scope := library_ids scope\<rparr>,
      ac_device_id := Some did\<rparr>" "st2 = fst (authenticate ops now' cref protocol st1)"
    using assms(8) by (auto simp: bind_device_def split: prod.splits)
  show ?thesis
    using b(1) assms(7)
    by (auto simp: visible_libraries_def library_condition_def resolve_scope_def visible_library_ids_def
        authenticate_libraries b(2) frame split: option.splits)
qed

definition delta_of :: "string \<Rightarrow> string \<Rightarrow> registry \<Rightarrow> bool option" where
  "delta_of did mid st = map_option ed_removed (row_at delta_key (did, mid) (rg_deltas st))"

definition book_in :: "string \<Rightarrow> string set \<Rightarrow> registry \<Rightarrow> bool" where
  "book_in mid ls st \<longleftrightarrow> list_ex (\<lambda>m. md_id m = mid \<and> md_deleted_at m = None
     \<and> (case library_of_media m st of Some l \<Rightarrow> l \<in> ls | None \<Rightarrow> False)) (rg_media st)"

lemma delta_of_fold:
  "unique_key delta_key (rg_deltas st) \<Longrightarrow>
     delta_of other mid (fold (upsert_delta now did rm) ms st)
       = (if other = did \<and> mid \<in> set ms then Some rm else delta_of other mid st)"
proof (induction ms arbitrary: st)
  case (Cons m ms)
  have u: "unique_key delta_key (rg_deltas (upsert_delta now did rm m st))"
    using Cons.prems by (simp add: upsert_delta_def upsert_row_write delta_rows.invar_write)
  have "delta_of other mid (upsert_delta now did rm m st)
      = (if other = did \<and> mid = m then Some rm else delta_of other mid st)"
    using Cons.prems
    by (simp add: delta_of_def upsert_delta_def upsert_row_write delta_rows.lookup_write) (simp add: delta_key_def)
  with Cons.IH [OF u] show ?case by (auto split: if_splits)
qed simp

lemma book_in_media: "mid \<in> set (media_of_libraries ls st) \<longleftrightarrow> book_in mid (set ls) st"
  by (auto simp: in_media_of_libraries book_in_def list_ex_iff split: option.splits)

text \<open>
  Changing the scope of a Kobo records exactly the books that changed side: a book of a
  library that entered is recorded as new, one of a library that left as removed, every other
  record of this device and all records of other devices stay. No other kind of device gets
  records.
\<close>

theorem scope_deltas_exact:
  assumes "registry_ok st" "get user did st = Inr d0" "set_library_scope now user did scope st = Inr (st', d)"
  shows "let owner = set (visible_library_ids (dv_user_id d0) st);
             before = resolve_scope (scope_of d0) owner; after = resolve_scope scope owner
         in delta_of other mid st' =
           (if dv_kind d0 = device_kind.Kobo \<and> other = did \<and> book_in mid (after - before) st then Some False
            else if dv_kind d0 = device_kind.Kobo \<and> other = did \<and> book_in mid (before - after) st then Some True
            else delta_of other mid st)"
proof -
  obtain e st1 where s: "get user did st = Inr e" and "d = e\<lparr>dv_library_scope := to_column_value scope\<rparr>"
    and s': "st1 = st\<lparr>rg_devices := update_row dv_id d (rg_devices st)\<rparr>"
      "st' = forget_sightings did (if dv_kind e = device_kind.Kobo then record_entitlement_deltas now did
         (scope_between (scope_of e) scope (visible_library_ids (dv_user_id e) st)) st1 else st1)"
    by (rule set_scope_parts [OF assms(1,3)])
  have e: "e = d0" using s assms(2) by simp
  define owner where "owner = visible_library_ids (dv_user_id d0) st"
  define before where "before = resolve_scope (scope_of d0) (set owner)"
  define after where "after = resolve_scope scope (set owner)"
  let ?in = "filter (\<lambda>l. l \<in> after - before) owner" and ?out = "filter (\<lambda>l. l \<in> before - after) owner"
  have sub: "before \<subseteq> set owner" "after \<subseteq> set owner"
    by (auto simp: before_def after_def resolve_scope_def split: option.splits)
  have sets: "set ?in = after - before" "set ?out = before - after" using sub by auto
  have u: "unique_key delta_key (rg_deltas st1)" using assms(1) by (simp add: s'(1) registry_ok_def)
  have lib: "library_of_media m st1 = library_of_media m st" for m by (simp add: library_of_media_def s'(1))
  have same: "book_in mid ls st1 = book_in mid ls st" "delta_of other mid st1 = delta_of other mid st" for ls
    by (simp_all add: book_in_def delta_of_def lib) (simp_all add: s'(1))
  have deltas: "delta_of other mid (record_entitlement_deltas now did (?in, ?out) st1) =
      (if other = did \<and> book_in mid (after - before) st then Some False
       else if other = did \<and> book_in mid (before - after) st then Some True
       else delta_of other mid st)"
  proof -
    have side: "mid \<in> set (side_media ?in st1) \<longleftrightarrow> book_in mid (after - before) st"
        "mid \<in> set (side_media ?out st1) \<longleftrightarrow> book_in mid (before - after) st"
      by (simp_all only: set_side_media book_in_media sets same)
    show ?thesis
      unfolding record_deltas_eq
      by (simp only: delta_of_fold [OF u] delta_of_fold [OF fold_upsert_unique [OF u]] side same)
  qed
  have tr: "scope_between (scope_of d0) scope owner = (?in, ?out)"
    by (simp only: scope_between_def Let_def before_def after_def)
  have fs: "delta_of other mid (forget_sightings did x) = delta_of other mid x" for x
    by (simp add: delta_of_def)
  show ?thesis
    unfolding Let_def s'(2) fs e owner_def [symmetric] before_def [symmetric] after_def [symmetric]
      tr if_distrib [of "delta_of other mid"] deltas same(2)
    by simp
qed

lemma minted_key_found:
  assumes "rg_api_keys st = keys @ [minted_key ops now mt uid name permissions kid]"
    "\<forall>a\<in>set keys. ak_short_token a \<noteq> mt_short_token mt"
    "find (\<lambda>u. uid = lu_id u \<and> lu_deleted_at u = None) (rg_users st) = Some u"
  shows "key_with_user ops later (minted_pak mt) st = Some (minted_key ops now mt uid name permissions kid, u)"
  unfolding key_with_user_def assms(1)
  by (subst find_product_fresh)
    (use assms(2,3) in \<open>simp_all add: find_map_Pair minted_key_def minted_pak_def\<close>)

text \<open>The request with a key whose device is revoked or unknown: accepted, but bound to nothing.\<close>

lemma unbound_key_accepted:
  assumes "parse_key ops raw = Some p" "pk_prefix p = API_KEY_PREFIX"
    "key_with_user ops now p st = Some (k, u)" "long_token_hashed ops p = ak_long_token_hash k"
    "lu_is_server_owner u \<or> AccessApiKeys \<in> set (loaded_permissions (lu_permissions u))"
    "device_for_key (ApiKey, pk_short_token p) st = None"
  shows "\<exists>st'. api_key_middleware ops now path raw st
    = Some (st', \<lparr>ac_user = key_user k u, ac_api_key = Some raw, ac_device_id = None\<rparr>)"
proof -
  define st' where "st' = st\<lparr>rg_api_keys := map (\<lambda>q. if ak_id q = ak_id k
      then q\<lparr>ak_last_used_at := Some now\<rparr> else q) (rg_api_keys st)\<rparr>"
  have v: "validate_api_key ops now p st = Some (st', key_user k u)"
    using assms(3-5) by (simp add: validate_api_key_def st'_def)
  have "device_for_key (ApiKey, pk_short_token p) st' = None"
    using assms(6) device_for_key_frame [of st' st] by (simp add: st'_def)
  then have "authenticate ops now (ApiKeyRef raw) protocol st' = (st', None)" for protocol
    using assms(1,2) by (simp add: authenticate_def)
  then show ?thesis using assms(1) v by (simp add: api_key_middleware_def bind_device_def)
qed

text \<open>
  C15. A rotation that read the device before a concurrent revocation and writes after it leaves a
  live key: the device is revoked, yet the key the rotation issued is accepted as its owner,
  bound to no device and restricted to no library, and revoking the device again is a no-op
  that does not remove it.
\<close>

theorem rotate_revoke_race:
  assumes "registry_ok st" "rotate_read user issuance did st = Inr (d, komf)"
    "revoke now user did st = Inr (st1, d1)" "rotate_write ops now mt d komf st1 = Inr (st2, iss)"
    "credential_kind_for (dv_kind d) = ApiKey"
    "\<forall>k\<in>set (rg_api_keys st1). ak_short_token k \<noteq> mt_short_token mt"
    "find (\<lambda>u. dv_user_id d = lu_id u \<and> lu_deleted_at u = None) (rg_users st2) = Some u"
    "lu_is_server_owner u \<or> AccessApiKeys \<in> set (loaded_permissions (lu_permissions u))"
    "parse_key ops (key_text ops (minted_pak mt)) = Some (minted_pak mt)"
  shows "is_revoked d1 \<and> revoke later user did st2 = Inr (st2, d1)
    \<and> (\<exists>st3 ctx. api_key_middleware ops later path (is_secret (hd iss)) st2 = Some (st3, ctx)
        \<and> au_id (ac_user ctx) = dv_user_id d \<and> ac_device_id ctx = None
        \<and> au_device_library_scope (ac_user ctx) = None)"
proof -
  have g: "get user did st = Inr d" "\<not> is_revoked d"
    using assms(2) by (auto simp: rotate_read_def Let_def split: if_splits)
  have dv: "dv_id d = did" using get_Inr [OF assms(1) g(1)] by simp
  have rv: "revoke_write now d st = Inr (st1, d1)" using assms(3) g by (simp add: revoke_def)
  have kn: "known d st" using get_Inr [OF assms(1) g(1)] by (auto simp: known_def list_ex_iff)
  have d1: "d1 = d\<lparr>dv_revoked_at := Some now\<rparr>" "get user did st1 = Inr d1"
    using rv get_Inr [OF assms(1) g(1)] revoke_then_get [OF assms(1) g(1) rv]
    by (auto simp: revoke_write_def update_device_def split: option.splits)
  have ok1: "registry_ok st1"
    using dev_step_keeps [OF dev_step.revoke [OF kn rv]] assms(1) by (simp add: keeps_def)
  have m: "mint_credential ops now mt d komf (discard_credentials now d st1) = Inr (st2, iss)"
    using assms(4) by (simp add: rotate_write_def)
  note adds = mint_credential_adds [OF m]
  have ok2: "registry_ok st2"
    using mint_credential_keeps [OF m] discard_keeps [of st1 now d] ok1 by (simp add: keeps_def)
  have devs: "rg_devices st2 = rg_devices st1" using adds by simp
  have "get user did st2 = Inr d1" using d1(2) devs by (simp add: get_def)
  then have again: "revoke later user did st2 = Inr (st2, d1)" by (simp add: revoke_def d1(1) is_revoked_def)
  obtain c where c: "c \<in> set (rg_credentials st2)" "dc_device_id c = dv_id d"
      "credential_key c = (ApiKey, mt_short_token mt)"
    using adds assms(5) by blast
  have none: "device_for_key (ApiKey, mt_short_token mt) st2 = None"
    using revoked_device_for_key [OF ok2, of d1 c] c get_Inr [OF ok1 d1(2)] d1(1) devs
    by (simp add: is_revoked_def)
  let ?k = "minted_key ops now mt (dv_user_id d) (dv_name d) (api_key_permissions_for (dv_kind d) komf)
      (rg_next_api_key (discard_credentials now d st1))"
  have "rg_api_keys st2 = rg_api_keys (discard_credentials now d st1) @ [?k]"
    using adds assms(5) by (simp add: new_keys_def)
  then have "key_with_user ops later (minted_pak mt) st2 = Some (?k, u)"
    using minted_key_found assms(6,7) discard_api_keys [of now d st1] by blast
  then obtain st3 where "api_key_middleware ops later path (is_secret (hd iss)) st2
      = Some (st3, \<lparr>ac_user = key_user ?k u, ac_api_key = Some (is_secret (hd iss)), ac_device_id = None\<rparr>)"
    using unbound_key_accepted [OF assms(9), of later st2 ?k u path] assms(5,8) adds none
    by (auto simp: minted_pak_def minted_key_def)
  moreover have "au_id (key_user ?k u) = dv_user_id d" "au_device_library_scope (key_user ?k u) = None"
    using assms(7) by (auto simp: key_user_def auth_user_of_def find_Some_iff split: api_key_permissions.split)
  ultimately show ?thesis using again by (auto simp: d1(1) is_revoked_def)
qed

text \<open>
  C16. The path-key routes do not compare a key's prefix, but only a key with the right prefix is
  bound to its device. A device that replaces the prefix of its own key is therefore accepted as
  the same user with the same permissions, bound to no device and restricted to no library.
\<close>

theorem path_key_prefix_escape:
  assumes "hashes_long_token ops" "parse_key ops raw = Some p" "parse_key ops raw' = Some q"
    "pk_short_token q = pk_short_token p" "pk_long_token q = pk_long_token p"
    "pk_prefix q \<noteq> API_KEY_PREFIX" "api_key_middleware ops now path raw st = Some (st1, ctx)"
  shows "\<exists>st2. api_key_middleware ops now path raw' st = Some (st2,
      \<lparr>ac_user = (ac_user ctx)\<lparr>au_device_library_scope := None\<rparr>, ac_api_key = Some raw', ac_device_id = None\<rparr>)"
proof -
  have h: "long_token_hashed ops q = long_token_hashed ops p"
    using assms(1,5) unfolding hashes_long_token_def by blast
  then have "key_with_user ops now q st = key_with_user ops now p st"
    using assms(4) by (simp add: key_with_user_def)
  then have v: "validate_api_key ops now q st = validate_api_key ops now p st"
    unfolding validate_api_key_def h by simp
  obtain st0 user where u: "validate_api_key ops now p st = Some (st0, user)"
      "bind_device ops now \<lparr>ac_user = user, ac_api_key = Some raw, ac_device_id = None\<rparr>
         (ApiKeyRef raw) (path_protocol path) st0 = (st1, ctx)"
    using assms(2,7) by (auto simp: api_key_middleware_def split: option.splits)
  have scope: "au_device_library_scope user = None"
    using u(1) by (auto simp: validate_api_key_def key_user_def auth_user_of_def
        split: option.splits if_splits api_key_permissions.splits)
  then have clear: "user\<lparr>au_device_library_scope := None\<rparr> = user" by (cases user) simp
  have "(ac_user ctx)\<lparr>au_device_library_scope := None\<rparr> = user\<lparr>au_device_library_scope := None\<rparr>"
    using u(2) by (auto simp: bind_device_def split: prod.splits option.splits)
  then have "(ac_user ctx)\<lparr>au_device_library_scope := None\<rparr> = user" by (simp only: clear)
  moreover have "authenticate ops now (ApiKeyRef raw') (path_protocol path) st0 = (st0, None)"
    using assms(3,6) by (simp add: authenticate_def)
  ultimately show ?thesis
    using assms(3) u(1) v by (simp add: api_key_middleware_def bind_device_def)
qed





text \<open>
  A default name always exists: it is the base name when the owner has no such device, and
  otherwise the base with the least number from two on that is not taken.
\<close>

theorem numbered_name_least:
  "numbered_name taken base \<notin> set taken
    \<and> (if base \<in> set taken
       then \<exists>n\<ge>2. numbered_name taken base = numbered base n \<and> numbered base ` {2..<n} \<subseteq> set taken
       else numbered_name taken base = base)"
  using first_unused_spec [of 2 taken base] numbered_name_unused [of taken base]
  by (auto simp: numbered_name_def)

section \<open>An example registry\<close>

text \<open>A key is its three parts joined by underscores, and the long token is its own hash.\<close>

definition example_keys :: key_ops where
  "example_keys =
     \<lparr>parse_key = (\<lambda>s. case split_on (CHR ''_'') s of
          [a, b, c] \<Rightarrow> Some \<lparr>pk_prefix = a, pk_short_token = b, pk_long_token = c\<rparr> | _ \<Rightarrow> None),
      key_text = (\<lambda>p. pk_prefix p @ ''_'' @ pk_short_token p @ ''_'' @ pk_long_token p),
      long_token_hashed = pk_long_token, hash_secret = (\<lambda>s. s), parse_rfc3339 = (\<lambda>_. None)\<rparr>"

definition example_user :: auth_user where
  "example_user = \<lparr>au_id = ''ana'', au_username = lit ''ana'', au_is_server_owner = False,
     au_is_locked = False, au_permissions = [AccessApiKeys, AccessKoboSync, DownloadFile],
     au_device_library_scope = None\<rparr>"

definition example_device :: device where
  "example_device = (new_device 1 ''kobo-1'' ''ana'' (lit ''Kobo'') device_kind.Kobo)
     \<lparr>dv_library_scope := Some (JArray [JString ''novels''])\<rparr>"

definition example_registry :: registry where
  "example_registry =
     \<lparr>rg_devices = [example_device],
      rg_credentials = [\<lparr>dc_id = 0, dc_device_id = ''kobo-1'', dc_protocol = device_protocol.Kobo,
        dc_kind = ApiKey, dc_ref = ''short''\<rparr>],
      rg_next_credential = 1,
      rg_api_keys = [\<lparr>ak_id = 0, ak_name = lit ''Kobo'', ak_short_token = ''short'',
        ak_long_token_hash = ''long'', ak_permissions = Custom [AccessKoboSync, DownloadFile],
        ak_created_at = 1, ak_last_used_at = None, ak_expires_at = None, ak_user_id = ''ana''\<rparr>],
      rg_next_api_key = 1, rg_liseur_tokens = [], rg_sessions = [],
      rg_telemetry = [first_row 1 ''kobo-1''
        (from_summary example_keys (JObject [(''items'', JNumber (PosInt 7))]) device_protocol.Kobo 1)],
      rg_deltas = [], rg_libraries = [''novels'', ''comics''], rg_exclusions = [],
      rg_series = [(''s1'', Some ''novels''), (''s2'', Some ''comics'')],
      rg_media = [\<lparr>md_id = ''m1'', md_series_id = Some ''s1'', md_deleted_at = None\<rparr>,
        \<lparr>md_id = ''m2'', md_series_id = Some ''s2'', md_deleted_at = None\<rparr>],
      rg_users = [\<lparr>lu_id = ''ana'', lu_username = lit ''ana'', lu_is_server_owner = False,
        lu_is_locked = False, lu_permissions = resolve_into_string [AccessApiKeys, AccessKoboSync, DownloadFile],
        lu_deleted_at = None\<rparr>],
      rg_recently_seen = [], rg_announced = []\<rparr>"

definition example_minting :: minting where
  "example_minting = \<lparr>mt_device_id = ''kobo-2'', mt_short_token = ''other'', mt_long_token = ''secret'',
     mt_token_id = ''t1'', mt_secret = ''liseur-1''\<rparr>"

definition revoked_registry :: registry where
  "revoked_registry = (case revoke 5 example_user ''kobo-1'' example_registry of Inr (st, _) \<Rightarrow> st
     | Inl _ \<Rightarrow> example_registry)"

lemma example_ok: "registry_ok example_registry"
  by (simp add: registry_ok_def example_registry_def unique_key_def example_device_def new_device_def)

lemma example_found: "get example_user ''kobo-1'' example_registry = Inr example_device"
  by (simp add: get_def example_registry_def example_user_def example_device_def new_device_def visible_to_def)

lemma example_permissions:
  "loaded_permissions (resolve_into_string [AccessApiKeys, AccessKoboSync, DownloadFile])
     = [AccessApiKeys, AccessKoboSync, DownloadFile]"
  by (simp add: loaded_resolved resolve_into_vec_def unique_elems_def)

lemma example_validated:
  "\<exists>st. validate_api_key example_keys 9 \<lparr>pk_prefix = pfx, pk_short_token = ''short'', pk_long_token = ''long''\<rparr>
       example_registry = Some (st, example_user\<lparr>au_permissions := [AccessKoboSync, DownloadFile]\<rparr>)
     \<and> rg_devices st = rg_devices example_registry \<and> rg_credentials st = rg_credentials example_registry"
  by (simp add: validate_api_key_def key_with_user_def example_registry_def example_keys_def
      example_permissions key_user_def auth_user_of_def example_user_def)

lemma example_revoke:
  "revoke 5 example_user ''kobo-1'' example_registry
     = Inr (revoked_registry, example_device\<lparr>dv_revoked_at := Some 5\<rparr>)"
  using example_found
  by (simp add: revoked_registry_def revoke_def revoke_write_def update_device_def example_device_def
      new_device_def is_revoked_def example_registry_def row_at_def)

lemma example_live: "\<not> is_revoked example_device"
  by (simp add: example_device_def new_device_def is_revoked_def)

lemma example_revoke_write:
  "revoke_write 5 example_device example_registry
     = Inr (revoked_registry, example_device\<lparr>dv_revoked_at := Some 5\<rparr>)"
  using example_revoke example_live by (simp add: revoke_def example_found)

lemma example_revocation: "(dev_step example_keys)\<^sup>*\<^sup>* example_registry revoked_registry"
  by (rule r_into_rtranclp, rule dev_step.revoke [OF _ example_revoke_write])
    (simp add: known_def example_registry_def)

lemma revoked_ok: "registry_ok revoked_registry"
  using dev_steps_keep [OF example_revocation] example_ok by (simp add: keeps_def)

lemma example_revoked_row: "example_device\<lparr>dv_revoked_at := Some 5\<rparr> \<in> set (rg_devices revoked_registry)"
  using get_Inr [OF revoked_ok revoke_then_get [OF example_ok example_found example_revoke_write]] by simp

theorem registry_wellformed_witness: "registry_ok revoked_registry"
  by (rule registry_wellformed [OF example_ok example_revocation])

theorem revoked_stays_out_witness:
  "da_device_id ` set_option (snd (authenticate example_keys 9 (ApiKeyRef ''stump_short_long'')
     device_protocol.Kobo (forget_sightings ''kobo-1'' revoked_registry))) \<subseteq> - {''kobo-1''}"
proof -
  have "(dev_step example_keys)\<^sup>*\<^sup>* revoked_registry (forget_sightings ''kobo-1'' revoked_registry)"
    by (rule r_into_rtranclp, rule dev_step.forget)
  from revoked_stays_out [OF revoked_ok example_revoked_row _ this, of 9 "ApiKeyRef ''stump_short_long''" device_protocol.Kobo]
  show ?thesis by (simp add: is_revoked_def example_device_def new_device_def)
qed

theorem telemetry_monotone_witness:
  "\<exists>r'. telemetry ''kobo-1'' revoked_registry = Some r'
     \<and> counters_le (tl_counters (hd (rg_telemetry example_registry))) (tl_counters r')"
  by (rule telemetry_monotone [OF example_ok example_revocation])
    (simp add: telemetry_def example_registry_def row_at_def first_row_def)

theorem revoke_spec_witness:
  "\<exists>st' d'. revoke 5 example_user ''kobo-1'' example_registry = Inr (st', d')
    \<and> d' = example_device\<lparr>dv_revoked_at := Some 5\<rparr>
    \<and> list_all (\<lambda>c. invalid_at_source (dv_user_id example_device) c st') (find_credentials ''kobo-1'' example_registry)
    \<and> (\<forall>other. find_credentials other st' = (if other = ''kobo-1'' then [] else find_credentials other example_registry))
    \<and> rg_devices st' = map (\<lambda>r. if dv_id r = ''kobo-1'' then d' else r) (rg_devices example_registry)
    \<and> (\<forall>later. revoke later example_user ''kobo-1'' st' = Inr (st', d'))"
  by (rule revoke_spec [OF example_ok example_found example_live])

lemmas mint_simps = mint_credential_def credential_specs_def mint_one_def mint_secret_def mint_api_key_def
  insert_credential_def minted_pak_def minted_key_def new_device_def row_at_def insert_row_def credential_key_def
  example_minting_def example_keys_def

lemma example_create:
  "\<exists>st' d iss. create_device_in_transaction example_keys 5 example_minting example_user DelegatedCredential
     device_kind.Kobo None False example_registry = Inr (st', d, iss)"
  by (simp add: create_device_in_transaction_def authorize_credential_issuance_def authorize_creation_def
      required_permissions_def api_key_permissions_for_def device_name_for_def example_user_def
      example_registry_def example_device_def Let_def mint_simps)

theorem create_least_privilege_witness:
  "\<exists>st' d iss keys. create_device_in_transaction example_keys 5 example_minting example_user DelegatedCredential
     device_kind.Kobo None False example_registry = Inr (st', d, iss)
    \<and> rg_api_keys st' = rg_api_keys example_registry @ keys
    \<and> map (\<lambda>i. (is_kind i, is_protocol i)) iss = credential_specs device_kind.Kobo
    \<and> rg_devices st' = rg_devices example_registry @ [d]"
proof -
  obtain st' d iss where c: "create_device_in_transaction example_keys 5 example_minting example_user
      DelegatedCredential device_kind.Kobo None False example_registry = Inr (st', d, iss)"
    using example_create by blast
  show ?thesis using create_least_privilege [OF c] c by blast
qed

definition scoped_registry :: registry where
  "scoped_registry = (case set_library_scope 6 example_user ''kobo-1'' (Only [''comics'']) example_registry of
     Inr (st, _) \<Rightarrow> st | Inl _ \<Rightarrow> example_registry)"

lemma example_scope:
  "set_library_scope 6 example_user ''kobo-1'' (Only [''comics'']) example_registry
     = Inr (scoped_registry, example_device\<lparr>dv_library_scope := Some (JArray [JString ''comics''])\<rparr>)"
  unfolding scoped_registry_def set_library_scope_def example_found
  by (simp add: Let_def visible_library_ids_def scope_write_def update_device_def example_registry_def
      example_device_def new_device_def row_at_def)

theorem scope_in_force_witness:
  "\<exists>st2 ctx'. bind_device example_keys 9 \<lparr>ac_user = example_user, ac_api_key = None, ac_device_id = None\<rparr>
      (ApiKeyRef ''stump_short_long'') device_protocol.Kobo scoped_registry = (st2, ctx')
    \<and> ac_device_id ctx' = Some ''kobo-1'' \<and> set (visible_libraries (ac_user ctx') st2) = {''comics''}"
proof -
  let ?c = "hd (rg_credentials example_registry)"
  let ?ctx = "\<lparr>ac_user = example_user, ac_api_key = None, ac_device_id = None\<rparr>"
  have key: "lookup_key example_keys (ApiKeyRef ''stump_short_long'') = Some (credential_key ?c)"
    by (simp add: example_keys_def example_registry_def credential_key_def API_KEY_PREFIX_def)
  have c: "?c \<in> set (rg_credentials example_registry)" "dc_device_id ?c = ''kobo-1''"
    by (simp_all add: example_registry_def)
  have live: "\<not> is_revoked (example_device\<lparr>dv_library_scope := Some (JArray [JString ''comics''])\<rparr>)"
    by (simp add: is_revoked_def example_device_def new_device_def)
  have uid: "au_id (ac_user ?ctx) = dv_user_id (example_device\<lparr>dv_library_scope := Some (JArray [JString ''comics''])\<rparr>)"
    by (simp add: example_user_def example_device_def new_device_def)
  obtain st2 ctx' where b: "bind_device example_keys 9 ?ctx (ApiKeyRef ''stump_short_long'')
      device_protocol.Kobo scoped_registry = (st2, ctx')" by force
  have "resolve_scope (Only [''comics'']) (set (visible_library_ids (dv_user_id
      (example_device\<lparr>dv_library_scope := Some (JArray [JString ''comics''])\<rparr>)) example_registry)) = {''comics''}"
    by (auto simp: resolve_scope_def visible_library_ids_def example_registry_def)
  with scope_in_force [OF example_ok example_scope live key c uid b] b show ?thesis by simp
qed

theorem scope_deltas_exact_witness:
  "delta_of ''kobo-1'' ''m1'' scoped_registry = Some True"
  using scope_deltas_exact [OF example_ok example_found example_scope, of "''kobo-1''" "''m1''"]
  by (simp add: Let_def example_device_def new_device_def scope_of_def scope_of_column_def
      resolve_scope_def visible_library_ids_def book_in_def library_of_media_def example_registry_def)

definition raced_registry :: registry where
  "raced_registry = (case rotate_write example_keys 5 example_minting example_device False revoked_registry of
     Inr (st, _) \<Rightarrow> st | Inl _ \<Rightarrow> example_registry)"

lemma revoked_tables:
  "rg_devices revoked_registry = [example_device\<lparr>dv_revoked_at := Some 5\<rparr>]"
  "rg_credentials revoked_registry = []" "rg_api_keys revoked_registry = []"
  "rg_users revoked_registry = rg_users example_registry"
  using example_revoke_write
  by (simp_all add: revoke_write_def update_device_def example_registry_def example_device_def
      new_device_def row_at_def update_row_def revoked_registry_def revoke_def get_def example_user_def
      visible_to_def is_revoked_def delete_rows_def discard_credentials_def discard_one_def)

lemma revoked_counters: "rg_next_api_key revoked_registry = 1" "rg_next_credential revoked_registry = 1"
  by (simp_all add: revoked_registry_def revoke_def revoke_write_def update_device_def example_registry_def
      example_device_def new_device_def row_at_def get_def example_user_def visible_to_def is_revoked_def
      discard_credentials_def discard_one_def)

lemma example_race:
  "\<exists>iss. rotate_write example_keys 5 example_minting example_device False revoked_registry
     = Inr (raced_registry, iss)"
  unfolding raced_registry_def rotate_write_def
  by (simp add: discard_credentials_def revoked_tables revoked_counters delete_rows_def example_device_def mint_simps Let_def)

lemma raced_users: "rg_users raced_registry = rg_users example_registry"
  using example_race mint_credential_adds revoked_tables(4) discard_frame(5)
  unfolding rotate_write_def by metis

theorem rotate_revoke_race_witness:
  "\<exists>iss st3 ctx. rotate_read example_user DelegatedCredential ''kobo-1'' example_registry = Inr (example_device, False)
     \<and> revoke 5 example_user ''kobo-1'' example_registry
         = Inr (revoked_registry, example_device\<lparr>dv_revoked_at := Some 5\<rparr>)
     \<and> rotate_write example_keys 5 example_minting example_device False revoked_registry = Inr (raced_registry, iss)
     \<and> api_key_middleware example_keys 9 (lit ''/kobo/k'') (is_secret (hd iss)) raced_registry = Some (st3, ctx)
     \<and> ac_device_id ctx = None \<and> au_device_library_scope (ac_user ctx) = None"
proof -
  have r: "rotate_read example_user DelegatedCredential ''kobo-1'' example_registry = Inr (example_device, False)"
    by (simp add: rotate_read_def example_found authorize_credential_issuance_def Let_def
        komf_metadata_editing_for_device_def is_revoked_def) (simp add: example_device_def new_device_def)
  obtain iss where w: "rotate_write example_keys 5 example_minting example_device False revoked_registry
      = Inr (raced_registry, iss)" using example_race by blast
  let ?u = "hd (rg_users example_registry)"
  have "\<exists>st3 ctx. api_key_middleware example_keys 9 (lit ''/kobo/k'') (is_secret (hd iss)) raced_registry = Some (st3, ctx)
        \<and> au_id (ac_user ctx) = dv_user_id example_device \<and> ac_device_id ctx = None
        \<and> au_device_library_scope (ac_user ctx) = None"
  proof (rule rotate_revoke_race [OF example_ok r example_revoke w, THEN conjunct2, THEN conjunct2])
    show "credential_kind_for (dv_kind example_device) = ApiKey" by (simp add: example_device_def new_device_def)
    show "\<forall>k\<in>set (rg_api_keys revoked_registry). ak_short_token k \<noteq> mt_short_token example_minting"
      by (simp add: revoked_tables)
    show "find (\<lambda>u. dv_user_id example_device = lu_id u \<and> lu_deleted_at u = None) (rg_users raced_registry) = Some ?u"
      by (simp add: raced_users example_registry_def example_device_def new_device_def)
    show "lu_is_server_owner ?u \<or> AccessApiKeys \<in> set (loaded_permissions (lu_permissions ?u))"
      by (simp add: example_registry_def example_permissions)
    show "parse_key example_keys (key_text example_keys (minted_pak example_minting)) = Some (minted_pak example_minting)"
      by (simp add: example_keys_def example_minting_def minted_pak_def API_KEY_PREFIX_def)
  qed
  with r w example_revoke show ?thesis by blast
qed

lemma example_accepted:
  "\<exists>st1 ctx. api_key_middleware example_keys 9 path ''stump_short_long'' example_registry = Some (st1, ctx)
     \<and> au_id (ac_user ctx) = ''ana''"
proof -
  obtain st where "validate_api_key example_keys 9 \<lparr>pk_prefix = ''stump'', pk_short_token = ''short'',
      pk_long_token = ''long''\<rparr> example_registry = Some (st, example_user\<lparr>au_permissions := [AccessKoboSync, DownloadFile]\<rparr>)"
    using example_validated by blast
  moreover have "parse_key example_keys ''stump_short_long''
      = Some \<lparr>pk_prefix = ''stump'', pk_short_token = ''short'', pk_long_token = ''long''\<rparr>"
    by (simp add: example_keys_def)
  ultimately show ?thesis
    by (simp add: api_key_middleware_def bind_device_def split: prod.split option.split) (simp add: example_user_def)
qed

theorem path_key_prefix_escape_witness:
  "\<exists>st1 ctx st2. api_key_middleware example_keys 9 (lit ''/opds/k'') ''stump_short_long'' example_registry = Some (st1, ctx)
     \<and> api_key_middleware example_keys 9 (lit ''/opds/k'') ''x_short_long'' example_registry = Some (st2,
          \<lparr>ac_user = (ac_user ctx)\<lparr>au_device_library_scope := None\<rparr>, ac_api_key = Some ''x_short_long'', ac_device_id = None\<rparr>)"
proof -
  obtain st1 ctx where a: "api_key_middleware example_keys 9 (lit ''/opds/k'') ''stump_short_long'' example_registry = Some (st1, ctx)"
    using example_accepted by blast
  have h: "hashes_long_token example_keys" by (simp add: hashes_long_token_def example_keys_def)
  have p: "parse_key example_keys ''stump_short_long''
      = Some \<lparr>pk_prefix = ''stump'', pk_short_token = ''short'', pk_long_token = ''long''\<rparr>"
    "parse_key example_keys ''x_short_long''
      = Some \<lparr>pk_prefix = ''x'', pk_short_token = ''short'', pk_long_token = ''long''\<rparr>"
    by (simp_all add: example_keys_def)
  show ?thesis using path_key_prefix_escape [OF h p _ _ _ a] a by (simp add: API_KEY_PREFIX_def)
qed

end
