(* ===== verification/Source_Protocol.thy ===== *)
theory Source_Protocol
  imports Json
begin

text \<open>
  \<^verbatim>\<open>crates/worker/src/source_protocol.rs\<close>: the control protocol between the server and a
  source worker. Text is a list of Unicode scalar values and \<open>len\<close> counts its UTF-8 bytes; a
  \<open>u64\<close> is a natural number below \<open>2 ^ 64\<close>. The size of a frame's JSON text is computed by
  \<open>serde_json\<close> and is the argument \<open>enc\<close> of the definitions that use it. The clock is an
  argument: \<open>SystemTime\<close> in nanoseconds since the epoch, negative before it.
\<close>

section \<open>Limits\<close>

definition U64_MAX :: nat where "U64_MAX = 18446744073709551615"
definition MAX_SOURCE_MANIFEST_ITEMS :: nat where "MAX_SOURCE_MANIFEST_ITEMS = 256"
definition MAX_SOURCE_MANIFEST_FRAME_BYTES :: nat where "MAX_SOURCE_MANIFEST_FRAME_BYTES = 1024 * 1024"

definition byte_len :: "ustr \<Rightarrow> nat" where
  "byte_len s = length (utf8 s)"

definition checked_add_u64 :: "nat \<Rightarrow> nat \<Rightarrow> nat option" where
  "checked_add_u64 a b = (if a + b \<le> U64_MAX then Some (a + b) else None)"

definition saturating_add_u64 :: "nat \<Rightarrow> nat \<Rightarrow> nat" where
  "saturating_add_u64 a b = min U64_MAX (a + b)"

section \<open>Frames\<close>

datatype source_transport = Direct | Tunnel

datatype source_read_mode = FullRead | RangeRead

record source_root_hello =
  hello_root_id :: ustr
  hello_label :: ustr
  hello_kind :: ustr
  hello_privacy_mode :: ustr
  hello_transport :: source_transport
  hello_direct_base_url :: "ustr option"

record source_worker_hello =
  hello_name :: "ustr option"
  hello_version :: "ustr option"
  hello_roots :: "source_root_hello list"

record source_manifest_item =
  mi_worker_item_id :: ustr
  mi_content_version :: ustr
  mi_relative_path :: "ustr option"
  mi_size :: nat
  mi_modified_at :: "json option"
  mi_media_type :: "ustr option"
  mi_quick_fingerprint :: "ustr option"
  mi_sha256 :: "ustr option"
  mi_metadata :: "json option"
  mi_retention :: "json option"

record source_manifest_chunk =
  batch_id :: ustr
  chunk_root_id :: ustr
  revision :: nat
  sequence :: nat
  terminal :: bool
  items :: "source_manifest_item list"

text \<open>A grant is a request with the identifier the hub generates.\<close>

record source_read_request =
  root_id :: ustr
  worker_item_id :: ustr
  worker_content_version :: ustr
  expected_sha256 :: "ustr option"
  mode :: source_read_mode
  offset :: nat
  read_length :: nat
  transport :: source_transport
  expires_at :: int
  max_bytes :: nat

record source_read_grant = source_read_request +
  grant_id :: ustr

datatype source_worker_frame =
    HelloFrame "ustr option" "ustr option" "source_root_hello list"
  | ManifestChunk source_manifest_chunk
  | ReadReady ustr
  | ReadFailed ustr ustr

datatype source_server_frame =
    ManifestAck ustr nat nat
  | Read source_read_grant

datatype source_protocol_error =
    ManifestItemLimit nat nat
  | ManifestFrameLimit nat nat
  | InvalidHello string
  | InvalidManifest string
  | GrantLengthExceedsMaximum nat nat
  | GrantFieldMissing
  | InvalidExpectedDigest
  | ExpectedHello
  | JsonError

section \<open>Validation\<close>

definition is_sha256 :: "ustr \<Rightarrow> bool" where
  "is_sha256 v \<longleftrightarrow>
     byte_len v = 64 \<and> list_all (\<lambda>b. is_ascii_digit b \<or> (97 \<le> b \<and> b \<le> 102)) (utf8 v)"

definition root_validate :: "source_root_hello \<Rightarrow> (source_protocol_error, unit) result" where
  "root_validate r =
     (let valid_id =
            hello_root_id r \<noteq> [] \<and> byte_len (hello_root_id r) \<le> 128
            \<and> list_all (\<lambda>b. is_ascii_alphanumeric b \<or> b = 45 \<or> b = 95 \<or> b = 46)
                (utf8 (hello_root_id r))
      in if \<not> valid_id \<or> trim (hello_label r) = [] \<or> byte_len (hello_label r) > 256
            \<or> trim (hello_kind r) = [] \<or> byte_len (hello_kind r) > 64
            \<or> hello_privacy_mode r \<noteq> lit ''catalog''
         then Inl (InvalidHello ''source root metadata is invalid'')
         else (case hello_transport r of
             Direct \<Rightarrow>
               (case hello_direct_base_url r of
                  None \<Rightarrow> Inl (InvalidHello ''direct source root requires a bounded base URL'')
                | Some url \<Rightarrow>
                    if url = [] \<or> byte_len url > 2048
                    then Inl (InvalidHello ''direct source root requires a bounded base URL'')
                    else Inr ())
           | Tunnel \<Rightarrow>
               if hello_direct_base_url r \<noteq> None
               then Inl (InvalidHello ''tunnel source root cannot advertise a direct base URL'')
               else Inr ()))"

primrec roots_validate ::
  "ustr list \<Rightarrow> source_root_hello list \<Rightarrow> (source_protocol_error, unit) result" where
  "roots_validate seen [] = Inr ()"
| "roots_validate seen (r # rs) =
     bind_result (root_validate r) (\<lambda>_.
       if hello_root_id r \<in> set seen
       then Inl (InvalidHello ''source hello contains a duplicate root id'')
       else roots_validate (hello_root_id r # seen) rs)"

definition hello_validate :: "source_worker_hello \<Rightarrow> (source_protocol_error, unit) result" where
  "hello_validate h =
     (if (case hello_name h of Some n \<Rightarrow> byte_len n > 256 | None \<Rightarrow> False)
         \<or> (case hello_version h of Some v \<Rightarrow> byte_len v > 128 | None \<Rightarrow> False)
         \<or> length (hello_roots h) > 128
      then Inl (InvalidHello ''source hello metadata exceeds protocol limits'')
      else roots_validate [] (hello_roots h))"

definition item_identity_ok :: "source_manifest_item \<Rightarrow> bool" where
  "item_identity_ok i \<longleftrightarrow>
     \<not> (mi_worker_item_id i = [] \<or> byte_len (mi_worker_item_id i) > 256
        \<or> mi_content_version i = [] \<or> byte_len (mi_content_version i) > 512
        \<or> (case mi_relative_path i of Some p \<Rightarrow> byte_len p > 2048 | None \<Rightarrow> False))"

definition chunk_validate ::
  "(source_manifest_chunk \<Rightarrow> nat) \<Rightarrow> source_manifest_chunk \<Rightarrow> (source_protocol_error, unit) result" where
  "chunk_validate enc c =
     (if batch_id c = [] \<or> byte_len (batch_id c) > 256
         \<or> chunk_root_id c = [] \<or> byte_len (chunk_root_id c) > 128
      then Inl (InvalidManifest ''manifest identity is missing or too long'')
      else if \<not> list_all item_identity_ok (items c)
      then Inl (InvalidManifest ''manifest item identity is missing or too long'')
      else if length (items c) > MAX_SOURCE_MANIFEST_ITEMS
      then Inl (ManifestItemLimit (length (items c)) MAX_SOURCE_MANIFEST_ITEMS)
      else if enc c > MAX_SOURCE_MANIFEST_FRAME_BYTES
      then Inl (ManifestFrameLimit (enc c) MAX_SOURCE_MANIFEST_FRAME_BYTES)
      else Inr ())"

text \<open>The checks a request and a grant share.\<close>

definition read_validate ::
  "bool \<Rightarrow> 'a source_read_request_scheme \<Rightarrow> (source_protocol_error, unit) result" where
  "read_validate named r =
     (if \<not> named \<or> root_id r = [] \<or> worker_item_id r = [] \<or> worker_content_version r = []
      then Inl GrantFieldMissing
      else if (case expected_sha256 r of Some d \<Rightarrow> \<not> is_sha256 d | None \<Rightarrow> False)
      then Inl InvalidExpectedDigest
      else if read_length r > max_bytes r \<or> checked_add_u64 (offset r) (read_length r) = None
      then Inl (GrantLengthExceedsMaximum (read_length r) (max_bytes r))
      else Inr ())"

definition request_validate :: "source_read_request \<Rightarrow> (source_protocol_error, unit) result" where
  "request_validate r = read_validate True r"

definition grant_validate :: "source_read_grant \<Rightarrow> (source_protocol_error, unit) result" where
  "grant_validate g = read_validate (grant_id g \<noteq> []) g"

definition request_of_grant :: "source_read_grant \<Rightarrow> source_read_request" where
  "request_of_grant g = source_read_request.truncate g"

definition into_hello :: "source_worker_frame \<Rightarrow> (source_protocol_error, source_worker_hello) result" where
  "into_hello f =
     (case f of
        HelloFrame n v rs \<Rightarrow> Inr \<lparr>hello_name = n, hello_version = v, hello_roots = rs\<rparr>
      | _ \<Rightarrow> Inl ExpectedHello)"

definition frame_validate ::
  "(source_manifest_chunk \<Rightarrow> nat) \<Rightarrow> source_worker_frame \<Rightarrow> (source_protocol_error, unit) result" where
  "frame_validate enc f =
     (case f of
        HelloFrame n v rs \<Rightarrow>
          hello_validate \<lparr>hello_name = n, hello_version = v, hello_roots = rs\<rparr>
      | ManifestChunk c \<Rightarrow> chunk_validate enc c
      | ReadReady g \<Rightarrow>
          if g = [] \<or> byte_len g > 256 then Inl GrantFieldMissing else Inr ()
      | ReadFailed g _ \<Rightarrow>
          if g = [] \<or> byte_len g > 256 then Inl GrantFieldMissing else Inr ())"

text \<open>
  Parsing a frame: \<open>serde_json\<close> turns the text into a frame, or not; the frame is then
  validated before anything else sees it.
\<close>

definition parse_source_worker_frame ::
  "(ustr \<Rightarrow> source_worker_frame option) \<Rightarrow> (source_manifest_chunk \<Rightarrow> nat) \<Rightarrow> ustr
   \<Rightarrow> (source_protocol_error, source_worker_frame) result" where
  "parse_source_worker_frame from_str enc text =
     (case from_str text of
        None \<Rightarrow> Inl JsonError
      | Some f \<Rightarrow> bind_result (frame_validate enc f) (\<lambda>_. Inr f))"

definition parse_source_server_frame ::
  "(ustr \<Rightarrow> source_server_frame option) \<Rightarrow> ustr \<Rightarrow> (source_protocol_error, source_server_frame) result" where
  "parse_source_server_frame from_str text =
     (case from_str text of
        None \<Rightarrow> Inl JsonError
      | Some f \<Rightarrow>
          (case f of
             Read g \<Rightarrow> bind_result (grant_validate g) (\<lambda>_. Inr f)
           | ManifestAck _ _ _ \<Rightarrow> Inr f))"

section \<open>Expiry\<close>

definition expires_at_millis :: "int \<Rightarrow> int" where
  "expires_at_millis e = (if \<bar>e\<bar> < 100000000000 then e * 1000 else e)"

definition wall_millis :: "int \<Rightarrow> int \<Rightarrow> int" where
  "wall_millis before_epoch now = (if now < 0 then before_epoch else now div 1000000)"

definition is_expired_at :: "int \<Rightarrow> 'a source_read_request_scheme \<Rightarrow> bool" where
  "is_expired_at now g \<longleftrightarrow> expires_at_millis (expires_at g) \<le> wall_millis (- (2 ^ 127)) now"

text \<open>
  Time left until the deadline, in milliseconds and capped at \<open>u64::MAX\<close>. A clock before the
  epoch reads as \<open>i128::MAX\<close>; the subtraction is on \<open>i128\<close>, which a release build wraps.
\<close>

definition i128_wrap :: "int \<Rightarrow> int" where
  "i128_wrap n = (n + 2 ^ 127) mod 2 ^ 128 - 2 ^ 127"

definition remaining_ttl_ms :: "int \<Rightarrow> 'a source_read_request_scheme \<Rightarrow> nat" where
  "remaining_ttl_ms now g =
     (let remaining = i128_wrap (expires_at_millis (expires_at g) - wall_millis (2 ^ 127 - 1) now)
      in if remaining \<le> 0 then 0 else min U64_MAX (nat remaining))"

section \<open>What a validated message satisfies\<close>

lemma grant_validate_iff:
  "grant_validate g = Inr () \<longleftrightarrow>
     grant_id g \<noteq> [] \<and> root_id g \<noteq> [] \<and> worker_item_id g \<noteq> [] \<and> worker_content_version g \<noteq> []
     \<and> (\<forall>d. expected_sha256 g = Some d \<longrightarrow> is_sha256 d)
     \<and> read_length g \<le> max_bytes g \<and> offset g + read_length g \<le> U64_MAX"
  by (auto simp: grant_validate_def read_validate_def checked_add_u64_def split: option.split)

lemma chunk_validate_iff:
  "chunk_validate enc c = Inr () \<longleftrightarrow>
     batch_id c \<noteq> [] \<and> byte_len (batch_id c) \<le> 256
     \<and> chunk_root_id c \<noteq> [] \<and> byte_len (chunk_root_id c) \<le> 128
     \<and> list_all item_identity_ok (items c) \<and> length (items c) \<le> MAX_SOURCE_MANIFEST_ITEMS
     \<and> enc c \<le> MAX_SOURCE_MANIFEST_FRAME_BYTES"
  by (auto simp: chunk_validate_def)

lemma expires_at_millis_pos: "0 < expires_at_millis e \<longleftrightarrow> 0 < e"
  by (auto simp: expires_at_millis_def)

text \<open>Nothing is left of an expired grant's window, and something of any other's.\<close>

lemma remaining_ttl_expired:
  assumes "0 \<le> now" "now < 2 ^ 64 * 1000000" "\<bar>expires_at g\<bar> \<le> 2 ^ 63"
  shows "remaining_ttl_ms now g = 0 \<longleftrightarrow> is_expired_at now g"
proof -
  let ?r = "expires_at_millis (expires_at g) - now div 1000000"
  have "\<bar>?r\<bar> < 2 ^ 127"
    using assms by (auto simp: expires_at_millis_def split: if_splits)
  then have "i128_wrap ?r = ?r" by (simp add: i128_wrap_def)
  then show ?thesis
    using assms by (auto simp: remaining_ttl_ms_def is_expired_at_def wall_millis_def Let_def U64_MAX_def)
qed

lemma roots_validate_distinct:
  "roots_validate seen rs = Inr () \<Longrightarrow>
     distinct (map hello_root_id rs) \<and> set (map hello_root_id rs) \<inter> set seen = {}
     \<and> (\<forall>r\<in>set rs. root_validate r = Inr ())"
  by (induction rs arbitrary: seen) (fastforce split: if_splits)+

end
