(* ===== verification/Source_Hub.thy ===== *)
theory Source_Hub
  imports Source_Protocol
begin

text \<open>
  \<^verbatim>\<open>crates/worker/src/source_hub.rs\<close>: the server's registry of source-worker sockets and
  one-use reads. A transfer is shared by the registry, the route that waits for it and the
  consumer of its tunnel (\<open>Arc<PendingTransfer>\<close>), so transfers live in a store and are named
  by their address; the registry maps a grant id to an address. A bounded channel is the list
  of the messages buffered in it. \<open>delivered\<close> records what the consumer of a tunnel has read.
  \<open>sending\<close> holds the pushes that have been accounted for and wait for room in their channel:
  each of them owns a clone of the sender. A clock reading is the wall clock together with
  the monotonic clock, both in nanoseconds.
\<close>

section \<open>State\<close>

definition SOURCE_OUTBOUND_CAPACITY :: nat where "SOURCE_OUTBOUND_CAPACITY = 64"
definition SOURCE_TUNNEL_CAPACITY :: nat where "SOURCE_TUNNEL_CAPACITY = 16"
definition MAX_SOURCE_TUNNEL_CHUNK_BYTES :: nat where "MAX_SOURCE_TUNNEL_CHUNK_BYTES = 64 * 1024"
definition SOURCE_TRANSFER_IDLE_TIMEOUT :: int where "SOURCE_TRANSFER_IDLE_TIMEOUT = 30000000000"

record clock =
  wall :: int
  mono :: int

record connected_source_worker =
  source_device_id :: ustr
  source_name :: ustr
  source_version :: "ustr option"
  source_roots :: "source_root_hello list"
  source_connected_at :: int
  source_last_frame_at :: int

record source_connection =
  source_worker :: connected_source_worker
  source_outbound :: "source_server_frame list"
  outbound_open :: bool
  source_epoch :: nat

datatype grant_lifecycle =
    Pending
  | Ready
  | Consumed
  | Completed
  | Failed ustr
  | Expired

definition lifecycle_terminal :: "grant_lifecycle \<Rightarrow> bool" where
  "lifecycle_terminal l \<longleftrightarrow> (case l of Completed \<Rightarrow> True | Failed _ \<Rightarrow> True | Expired \<Rightarrow> True | _ \<Rightarrow> False)"

record grant_mutable =
  lifecycle :: grant_lifecycle
  tunnel_claimed :: bool
  ready_seen :: bool
  bytes_sent :: nat
  last_activity :: int

record tunnel_channel =
  buffered :: "byte list list"
  delivered :: "byte list list"
  receiver_alive :: bool

record pending_transfer =
  grant :: source_read_grant
  owner :: ustr
  mutable :: grant_mutable
  wakeups :: nat
  tunnel_tx :: bool
  tunnel_rx :: bool
  channel :: tunnel_channel

record source_hub =
  source_connections :: "(ustr \<times> source_connection) list"
  registry :: "(ustr \<times> nat) list"
  transfers :: "pending_transfer list"
  sending :: "(nat \<times> byte list) list"
  source_epochs :: nat

datatype source_hub_error =
    Offline
  | OutboundFull
  | OutboundClosed
  | RootNotFound
  | TransportMismatch
  | DirectBaseUrlMissing
  | GrantNotFound
  | GrantConflict
  | WrongDevice
  | Replay
  | GrantExpired
  | NotReady
  | WorkerFailed ustr
  | IdleTimeout
  | TunnelNotAccepted
  | ChunkTooLarge nat nat
  | ExcessBytes nat nat
  | LengthMismatch nat nat
  | TunnelDisconnected
  | UnexpectedFrame
  | Protocol source_protocol_error

datatype source_read_status =
    StatusPending
  | StatusReady
  | StatusConsumed
  | StatusCompleted
  | StatusFailed ustr
  | StatusExpired

section \<open>One transfer\<close>

definition is_accepted_tunnel :: "grant_mutable \<Rightarrow> bool" where
  "is_accepted_tunnel m \<longleftrightarrow> lifecycle m = Consumed \<and> tunnel_claimed m \<and> ready_seen m"

definition new_transfer :: "clock \<Rightarrow> ustr \<Rightarrow> source_read_grant \<Rightarrow> pending_transfer" where
  "new_transfer now dev g =
     \<lparr>grant = g, owner = dev,
      mutable = \<lparr>lifecycle = Pending, tunnel_claimed = False, ready_seen = False,
                 bytes_sent = 0, last_activity = mono now\<rparr>,
      wakeups = 0, tunnel_tx = True, tunnel_rx = True,
      channel = \<lparr>buffered = [], delivered = [], receiver_alive = True\<rparr>\<rparr>"

definition set_lifecycle :: "grant_lifecycle \<Rightarrow> pending_transfer \<Rightarrow> pending_transfer" where
  "set_lifecycle l t = t\<lparr>mutable := (mutable t)\<lparr>lifecycle := l\<rparr>\<rparr>"

definition close_tunnel :: "pending_transfer \<Rightarrow> pending_transfer" where
  "close_tunnel t = t\<lparr>tunnel_tx := False\<rparr>"

definition notify_waiters :: "pending_transfer \<Rightarrow> pending_transfer" where
  "notify_waiters t = t\<lparr>wakeups := Suc (wakeups t)\<rparr>"

definition fail :: "ustr \<Rightarrow> pending_transfer \<Rightarrow> pending_transfer \<times> bool" where
  "fail e t =
     (if lifecycle_terminal (lifecycle (mutable t)) then (t, False)
      else (notify_waiters (close_tunnel (set_lifecycle (Failed e) t)), True))"

definition expire_now :: "pending_transfer \<Rightarrow> pending_transfer \<times> bool" where
  "expire_now t =
     (let m = mutable t; expired = notify_waiters (close_tunnel (set_lifecycle Expired t))
      in case lifecycle m of
           Expired \<Rightarrow> (t, True)
         | Pending \<Rightarrow> (expired, True)
         | Ready \<Rightarrow> (expired, True)
         | Consumed \<Rightarrow>
             if tunnel_claimed m \<and> \<not> ready_seen m then (expired, True) else (t, False)
         | Completed \<Rightarrow> (t, False)
         | Failed _ \<Rightarrow> (t, False))"

definition expire_if_needed :: "clock \<Rightarrow> pending_transfer \<Rightarrow> pending_transfer \<times> bool" where
  "expire_if_needed now t =
     (if is_expired_at (wall now) (grant t) then expire_now t else (t, False))"

definition is_idle :: "clock \<Rightarrow> pending_transfer \<Rightarrow> bool" where
  "is_idle now t \<longleftrightarrow>
     is_accepted_tunnel (mutable t) \<and> tunnel_rx t
     \<and> max 0 (mono now - last_activity (mutable t)) \<ge> SOURCE_TRANSFER_IDLE_TIMEOUT"

definition status_of :: "pending_transfer \<Rightarrow> source_read_status" where
  "status_of t =
     (case lifecycle (mutable t) of
        Pending \<Rightarrow> StatusPending
      | Ready \<Rightarrow> StatusReady
      | Consumed \<Rightarrow> StatusConsumed
      | Completed \<Rightarrow> StatusCompleted
      | Failed e \<Rightarrow> StatusFailed e
      | Expired \<Rightarrow> StatusExpired)"

section \<open>The registry of transfers\<close>

definition source_hub_new :: source_hub where
  "source_hub_new = \<lparr>source_connections = [], registry = [], transfers = [], sending = [], source_epochs = 0\<rparr>"

definition put :: "nat \<Rightarrow> pending_transfer \<Rightarrow> source_hub \<Rightarrow> source_hub" where
  "put a t h = h\<lparr>transfers := (transfers h)[a := t]\<rparr>"

definition registry_remove :: "ustr \<Rightarrow> source_hub \<Rightarrow> source_hub" where
  "registry_remove gid h = h\<lparr>registry := AList.delete gid (registry h)\<rparr>"

definition stalled :: ustr where
  "stalled = lit ''source transfer stalled past the idle timeout''"

text \<open>What the sweep makes of one transfer, and whether it stays registered.\<close>

definition reap_one :: "clock \<Rightarrow> pending_transfer \<Rightarrow> pending_transfer \<times> bool" where
  "reap_one now t =
     (let (t1, expired) = expire_if_needed now t
      in if expired then (t1, False)
         else if is_idle now t1 then (fst (fail stalled t1), False)
         else (t1, \<not> lifecycle_terminal (lifecycle (mutable t1))))"

definition reap :: "clock \<Rightarrow> source_hub \<Rightarrow> source_hub" where
  "reap now h =
     h\<lparr>transfers := fold (\<lambda>(_, a) ts. ts[a := fst (reap_one now (ts ! a))]) (registry h) (transfers h),
       registry := filter (\<lambda>(_, a). snd (reap_one now (transfers h ! a))) (registry h)\<rparr>"

definition fail_at :: "ustr \<Rightarrow> nat \<Rightarrow> source_hub \<Rightarrow> source_hub" where
  "fail_at e a h = put a (fst (fail e (transfers h ! a))) h"

definition fail_device_grants :: "ustr \<Rightarrow> ustr \<Rightarrow> source_hub \<Rightarrow> source_hub" where
  "fail_device_grants dev e h =
     fold (fail_at e) (filter (\<lambda>a. owner (transfers h ! a) = dev) (map snd (registry h))) h"

definition fail_pending :: "ustr \<Rightarrow> ustr \<Rightarrow> source_hub \<Rightarrow> source_hub" where
  "fail_pending gid e h =
     (case map_of (registry h) gid of
        None \<Rightarrow> h
      | Some a \<Rightarrow> registry_remove gid (fail_at e a h))"

section \<open>Sockets\<close>

text \<open>
  \<open>attach\<close> first draws an epoch and fails the device's outstanding reads, and then installs
  the connection under the lock of the connection map; another task may run in between. The
  counter is an \<open>AtomicU64\<close>: \<open>fetch_add\<close> wraps.
\<close>

definition attach_begin :: "ustr \<Rightarrow> source_hub \<Rightarrow> source_hub \<times> nat" where
  "attach_begin dev h =
     (let n = (source_epochs h + 1) mod 2 ^ 64
      in (fail_device_grants dev (lit ''source worker connection replaced'') (h\<lparr>source_epochs := n\<rparr>), n))"

definition attach_install ::
  "clock \<Rightarrow> ustr \<Rightarrow> ustr \<Rightarrow> source_worker_hello \<Rightarrow> nat \<Rightarrow> source_hub \<Rightarrow> source_hub" where
  "attach_install now dev fallback_name hello n h =
     (let w = \<lparr>source_device_id = dev,
               source_name = (case hello_name hello of Some m \<Rightarrow> m | None \<Rightarrow> fallback_name),
               source_version = hello_version hello, source_roots = hello_roots hello,
               source_connected_at = wall now, source_last_frame_at = wall now\<rparr>;
          c = \<lparr>source_worker = w, source_outbound = [], outbound_open = True, source_epoch = n\<rparr>
      in h\<lparr>source_connections := AList.update dev c (source_connections h)\<rparr>)"

definition attach ::
  "clock \<Rightarrow> ustr \<Rightarrow> ustr \<Rightarrow> source_worker_hello \<Rightarrow> source_hub \<Rightarrow> source_hub \<times> nat" where
  "attach now dev fallback_name hello h =
     (let (h1, n) = attach_begin dev h in (attach_install now dev fallback_name hello n h1, n))"

definition attach_frame ::
  "clock \<Rightarrow> ustr \<Rightarrow> ustr \<Rightarrow> source_worker_frame \<Rightarrow> source_hub
   \<Rightarrow> source_hub \<times> (source_hub_error, nat) result" where
  "attach_frame now dev fallback_name frame h =
     (case into_hello frame of
        Inl e \<Rightarrow> (h, Inl (Protocol e))
      | Inr hello \<Rightarrow> (let (h1, n) = attach now dev fallback_name hello h in (h1, Inr n)))"

text \<open>\<open>detach\<close> removes the connection under the lock and fails the device's reads after it.\<close>

definition detach_begin :: "ustr \<Rightarrow> nat \<Rightarrow> source_hub \<Rightarrow> source_hub \<times> bool" where
  "detach_begin dev n h =
     (case map_of (source_connections h) dev of
        Some c \<Rightarrow>
          if source_epoch c = n
          then (h\<lparr>source_connections := AList.delete dev (source_connections h)\<rparr>, True)
          else (h, False)
      | None \<Rightarrow> (h, False))"

definition detach_fail :: "ustr \<Rightarrow> source_hub \<Rightarrow> source_hub" where
  "detach_fail dev h = fail_device_grants dev (lit ''source worker disconnected'') h"

definition detach :: "ustr \<Rightarrow> nat \<Rightarrow> source_hub \<Rightarrow> source_hub \<times> bool" where
  "detach dev n h =
     (let (h1, removed) = detach_begin dev n h
      in (if removed then detach_fail dev h1 else h1, removed))"

definition touch_source :: "clock \<Rightarrow> ustr \<Rightarrow> source_hub \<Rightarrow> source_hub" where
  "touch_source now dev h =
     h\<lparr>source_connections := AList.map_entry dev
         (\<lambda>c. c\<lparr>source_worker := (source_worker c)\<lparr>source_last_frame_at := wall now\<rparr>\<rparr>)
         (source_connections h)\<rparr>"

definition connected :: "source_hub \<Rightarrow> connected_source_worker list" where
  "connected h = sort_key source_device_id (map (source_worker \<circ> snd) (source_connections h))"

definition worker_of :: "ustr \<Rightarrow> source_hub \<Rightarrow> connected_source_worker option" where
  "worker_of dev h = map_option source_worker (map_of (source_connections h) dev)"

definition is_connected :: "ustr \<Rightarrow> source_hub \<Rightarrow> bool" where
  "is_connected dev h \<longleftrightarrow> map_of (source_connections h) dev \<noteq> None"

definition is_current :: "ustr \<Rightarrow> nat \<Rightarrow> source_hub \<Rightarrow> bool" where
  "is_current dev n h \<longleftrightarrow>
     (case map_of (source_connections h) dev of Some c \<Rightarrow> source_epoch c = n | None \<Rightarrow> False)"

definition root :: "ustr \<Rightarrow> ustr \<Rightarrow> source_hub \<Rightarrow> source_root_hello option" where
  "root dev rid h =
     (case worker_of dev h of
        Some w \<Rightarrow> find (\<lambda>r. hello_root_id r = rid) (source_roots w)
      | None \<Rightarrow> None)"

definition direct_base_url :: "ustr \<Rightarrow> ustr \<Rightarrow> source_hub \<Rightarrow> ustr option" where
  "direct_base_url dev rid h =
     (case root dev rid h of
        Some r \<Rightarrow> if hello_transport r = Direct then hello_direct_base_url r else None
      | None \<Rightarrow> None)"

text \<open>\<open>try_send\<close> on the bounded outbound channel: refused when it is full or its receiver is gone.\<close>

definition send :: "ustr \<Rightarrow> source_server_frame \<Rightarrow> source_hub \<Rightarrow> source_hub \<times> bool" where
  "send dev frame h =
     (case map_of (source_connections h) dev of
        Some c \<Rightarrow>
          if outbound_open c \<and> length (source_outbound c) < SOURCE_OUTBOUND_CAPACITY
          then (h\<lparr>source_connections := AList.map_entry dev
                   (\<lambda>c. c\<lparr>source_outbound := source_outbound c @ [frame]\<rparr>) (source_connections h)\<rparr>, True)
          else (h, False)
      | None \<Rightarrow> (h, False))"

text \<open>The waiting send: no value while the channel is full.\<close>

definition send_wait ::
  "ustr \<Rightarrow> source_server_frame \<Rightarrow> source_hub \<Rightarrow> source_hub \<times> (source_hub_error, unit) result option" where
  "send_wait dev frame h =
     (case map_of (source_connections h) dev of
        None \<Rightarrow> (h, Some (Inl Offline))
      | Some c \<Rightarrow>
          if \<not> outbound_open c then (h, Some (Inl OutboundClosed))
          else (let (h1, sent) = send dev frame h in (h1, if sent then Some (Inr ()) else None)))"

text \<open>The socket's task reading its outbound channel, and dropping it.\<close>

definition outbound_recv :: "ustr \<Rightarrow> source_hub \<Rightarrow> source_hub" where
  "outbound_recv dev h =
     h\<lparr>source_connections := AList.map_entry dev
         (\<lambda>c. c\<lparr>source_outbound := tl (source_outbound c)\<rparr>) (source_connections h)\<rparr>"

definition outbound_drop :: "ustr \<Rightarrow> source_hub \<Rightarrow> source_hub" where
  "outbound_drop dev h =
     h\<lparr>source_connections := AList.map_entry dev
         (\<lambda>c. c\<lparr>outbound_open := False, source_outbound := []\<rparr>) (source_connections h)\<rparr>"

section \<open>Issuing grants\<close>

definition validate_root_for_grant ::
  "ustr \<Rightarrow> source_read_grant \<Rightarrow> source_hub \<Rightarrow> (source_hub_error, unit) result" where
  "validate_root_for_grant dev g h =
     (case root dev (root_id g) h of
        None \<Rightarrow> if is_connected dev h then Inl RootNotFound else Inl Offline
      | Some r \<Rightarrow>
          if hello_transport r \<noteq> transport g then Inl TransportMismatch
          else if transport g = Direct \<and> hello_direct_base_url r = None then Inl DirectBaseUrlMissing
          else Inr ())"

text \<open>The checks before registration, and the registration under the registry's lock.\<close>

definition precheck ::
  "clock \<Rightarrow> ustr \<Rightarrow> source_read_grant \<Rightarrow> source_hub \<Rightarrow> (source_hub_error, unit) result" where
  "precheck now dev g h =
     (case grant_validate g of
        Inl e \<Rightarrow> Inl (Protocol e)
      | Inr _ \<Rightarrow>
          if is_expired_at (wall now) g then Inl GrantExpired
          else validate_root_for_grant dev g h)"

definition insert_pending ::
  "clock \<Rightarrow> ustr \<Rightarrow> source_read_grant \<Rightarrow> source_hub \<Rightarrow> source_hub \<times> (source_hub_error, unit) result" where
  "insert_pending now dev g h =
     (case map_of (registry h) (grant_id g) of
        Some a \<Rightarrow>
          if owner (transfers h ! a) = dev \<and> grant (transfers h ! a) = g
          then (h, Inr ()) else (h, Inl GrantConflict)
      | None \<Rightarrow>
          (h\<lparr>transfers := transfers h @ [new_transfer now dev g],
             registry := (grant_id g, length (transfers h)) # registry h\<rparr>, Inr ()))"

definition register_pending_read ::
  "clock \<Rightarrow> ustr \<Rightarrow> source_read_grant \<Rightarrow> source_hub \<Rightarrow> source_hub \<times> (source_hub_error, unit) result" where
  "register_pending_read now dev g h =
     (case precheck now dev g h of
        Inl e \<Rightarrow> (h, Inl e)
      | Inr _ \<Rightarrow> insert_pending now dev g (reap now h))"

definition grant_of_request :: "ustr \<Rightarrow> source_read_request \<Rightarrow> source_read_grant" where
  "grant_of_request gid r = source_read_request.extend r (source_read_grant.fields gid)"

text \<open>\<open>gid\<close> is the fresh \<open>Uuid::new_v4\<close>.\<close>

definition issue_grant ::
  "clock \<Rightarrow> ustr \<Rightarrow> ustr \<Rightarrow> source_read_request \<Rightarrow> source_hub
   \<Rightarrow> source_hub \<times> (source_hub_error, source_read_grant) result" where
  "issue_grant now gid dev request h =
     (case request_validate request of
        Inl e \<Rightarrow> (h, Inl (Protocol e))
      | Inr _ \<Rightarrow>
          (let g = grant_of_request gid request
           in case precheck now dev g h of
                Inl e \<Rightarrow> (h, Inl e)
              | Inr _ \<Rightarrow>
                  (case register_pending_read now dev g h of
                     (h1, Inl e) \<Rightarrow> (h1, Inl e)
                   | (h1, Inr _) \<Rightarrow>
                       (let (h2, sent) = send dev (Read g) h1
                        in if sent then (h2, Inr g)
                           else (fail_pending gid (lit ''source read command could not be queued'') h2,
                                 Inl OutboundFull)))))"

definition pending_grants :: "source_hub \<Rightarrow> nat" where
  "pending_grants h = length (registry h)"

section \<open>Reads\<close>

text \<open>
  The frame the worker's and the consumer's operations share: find the transfer, enforce its
  device and its acceptance window, and run the body on it.
\<close>

definition on_transfer ::
  "clock \<Rightarrow> ustr \<Rightarrow> ustr \<Rightarrow> (pending_transfer \<Rightarrow> pending_transfer \<times> (source_hub_error, 'a) result)
   \<Rightarrow> source_hub \<Rightarrow> source_hub \<times> (source_hub_error, 'a) result" where
  "on_transfer now dev gid body h =
     (case map_of (registry h) gid of
        None \<Rightarrow> (h, Inl GrantNotFound)
      | Some a \<Rightarrow>
          (let t = transfers h ! a
           in if owner t \<noteq> dev then (h, Inl WrongDevice)
              else (let (t1, expired) = expire_if_needed now t
                    in if expired then (put a t1 h, Inl GrantExpired)
                       else (let (t2, r) = body t1 in (put a t2 h, r)))))"

definition mark_ready :: "clock \<Rightarrow> pending_transfer \<Rightarrow> pending_transfer" where
  "mark_ready now t =
     notify_waiters (t\<lparr>mutable := (mutable t)\<lparr>ready_seen := True, last_activity := mono now\<rparr>\<rparr>)"

definition ready_body ::
  "clock \<Rightarrow> pending_transfer \<Rightarrow> pending_transfer \<times> (source_hub_error, unit) result" where
  "ready_body now t =
     (if ready_seen (mutable t) then (t, Inl Replay)
      else (case lifecycle (mutable t) of
          Pending \<Rightarrow> (mark_ready now (set_lifecycle Ready t), Inr ())
        | Ready \<Rightarrow> (mark_ready now t, Inr ())
        | Consumed \<Rightarrow>
            if tunnel_claimed (mutable t) then (mark_ready now t, Inr ()) else (t, Inl Replay)
        | Failed e \<Rightarrow> (t, Inl (WorkerFailed e))
        | Expired \<Rightarrow> (t, Inl GrantExpired)
        | Completed \<Rightarrow> (t, Inl Replay)))"

definition failed_body ::
  "ustr \<Rightarrow> pending_transfer \<Rightarrow> pending_transfer \<times> (source_hub_error, unit) result" where
  "failed_body e t =
     (case lifecycle (mutable t) of
        Pending \<Rightarrow> (fst (fail e t), Inr ())
      | Ready \<Rightarrow> (fst (fail e t), Inr ())
      | Consumed \<Rightarrow>
          if tunnel_claimed (mutable t) \<and> \<not> ready_seen (mutable t)
          then (fst (fail e t), Inr ()) else (t, Inl Replay)
      | Expired \<Rightarrow> (t, Inl GrantExpired)
      | Completed \<Rightarrow> (t, Inl Replay)
      | Failed _ \<Rightarrow> (t, Inl Replay))"

definition consume_body ::
  "pending_transfer \<Rightarrow> pending_transfer \<times> (source_hub_error, source_read_grant) result" where
  "consume_body t =
     (if transport (grant t) \<noteq> Direct then (t, Inl TransportMismatch)
      else (case lifecycle (mutable t) of
          Ready \<Rightarrow> (set_lifecycle Consumed t, Inr (grant t))
        | Pending \<Rightarrow> (t, Inl NotReady)
        | Failed e \<Rightarrow> (t, Inl (WorkerFailed e))
        | Expired \<Rightarrow> (t, Inl GrantExpired)
        | Consumed \<Rightarrow> (t, Inl Replay)
        | Completed \<Rightarrow> (t, Inl Replay)))"

definition claim :: "pending_transfer \<Rightarrow> pending_transfer" where
  "claim t = t\<lparr>mutable := (mutable t)\<lparr>lifecycle := Consumed, tunnel_claimed := True\<rparr>\<rparr>"

definition stamp :: "clock \<Rightarrow> pending_transfer \<Rightarrow> pending_transfer" where
  "stamp now t = t\<lparr>mutable := (mutable t)\<lparr>last_activity := mono now\<rparr>\<rparr>"

text \<open>The activity is stamped before the receiver is found to be taken already.\<close>

definition take_body ::
  "clock \<Rightarrow> pending_transfer \<Rightarrow> pending_transfer \<times> (source_hub_error, unit) result" where
  "take_body now t =
     (let take_rx = (\<lambda>t. if tunnel_rx t then (t\<lparr>tunnel_rx := False\<rparr>, Inr ()) else (t, Inl Replay))
      in if transport (grant t) \<noteq> Tunnel then (t, Inl TransportMismatch)
         else (case lifecycle (mutable t) of
             Pending \<Rightarrow> take_rx (stamp now (claim t))
           | Ready \<Rightarrow> take_rx (stamp now (claim t))
           | Consumed \<Rightarrow>
               if tunnel_claimed (mutable t) then take_rx (stamp now t) else (t, Inl Replay)
           | Failed e \<Rightarrow> (t, Inl (WorkerFailed e))
           | Expired \<Rightarrow> (t, Inl GrantExpired)
           | Completed \<Rightarrow> (t, Inl Replay)))"

text \<open>Accounting for one chunk; on success the sender is cloned and the chunk waits to be sent.\<close>

definition account ::
  "clock \<Rightarrow> nat \<Rightarrow> pending_transfer \<Rightarrow> pending_transfer \<times> (source_hub_error, unit) result" where
  "account now len t =
     (let attempted = saturating_add_u64 (bytes_sent (mutable t)) len;
          limit = min (max_bytes (grant t)) (read_length (grant t))
      in if attempted > limit
         then (fst (fail (lit ''tunnel exceeded '' @ show_nat limit @ lit '' bytes with ''
                          @ show_nat attempted @ lit '' bytes'') t), Inl (ExcessBytes attempted limit))
         else (let t1 = stamp now (t\<lparr>mutable := (mutable t)\<lparr>bytes_sent := attempted\<rparr>\<rparr>)
               in (t1, if tunnel_tx t1 then Inr () else Inl TunnelDisconnected)))"

definition push_body ::
  "clock \<Rightarrow> byte list \<Rightarrow> pending_transfer \<Rightarrow> pending_transfer \<times> (source_hub_error, unit) result" where
  "push_body now chunk t =
     (if length chunk > MAX_SOURCE_TUNNEL_CHUNK_BYTES
      then (fst (fail (lit ''source tunnel chunk is '' @ show_nat (length chunk)
                       @ lit '' bytes; maximum is '' @ show_nat MAX_SOURCE_TUNNEL_CHUNK_BYTES) t),
            Inl (ChunkTooLarge (length chunk) MAX_SOURCE_TUNNEL_CHUNK_BYTES))
      else (case lifecycle (mutable t) of
          Pending \<Rightarrow> account now (length chunk) (claim t)
        | Ready \<Rightarrow> account now (length chunk) (claim t)
        | Consumed \<Rightarrow>
            if tunnel_claimed (mutable t) then account now (length chunk) t
            else (t, Inl TunnelNotAccepted)
        | Completed \<Rightarrow> (t, Inl TunnelNotAccepted)
        | Failed _ \<Rightarrow> (t, Inl TunnelNotAccepted)
        | Expired \<Rightarrow> (t, Inl TunnelNotAccepted)))"

text \<open>The body of \<open>finish_tunnel\<close>; the flag says whether the grant leaves the registry.\<close>

definition finish_body ::
  "pending_transfer \<Rightarrow> pending_transfer \<times> (source_hub_error, (source_hub_error, unit) result) result" where
  "finish_body t =
     (let m = mutable t; actual = bytes_sent m; expected = read_length (grant t)
      in if \<not> tunnel_claimed m \<or> lifecycle m \<noteq> Consumed then (t, Inl TunnelNotAccepted)
         else if actual = expected
         then (notify_waiters (close_tunnel (set_lifecycle Completed t)), Inr (Inr ()))
         else (notify_waiters (close_tunnel (set_lifecycle
                 (Failed (lit ''tunnel ended at '' @ show_nat actual @ lit '' bytes; expected ''
                          @ show_nat expected)) t)),
               Inr (Inl (LengthMismatch actual expected))))"

definition read_ready ::
  "clock \<Rightarrow> ustr \<Rightarrow> ustr \<Rightarrow> source_hub \<Rightarrow> source_hub \<times> (source_hub_error, unit) result" where
  "read_ready now dev gid h = on_transfer now dev gid (ready_body now) h"

definition read_failed ::
  "clock \<Rightarrow> ustr \<Rightarrow> ustr \<Rightarrow> ustr \<Rightarrow> source_hub \<Rightarrow> source_hub \<times> (source_hub_error, unit) result" where
  "read_failed now dev gid e h = on_transfer now dev gid (failed_body e) h"

definition consume_direct ::
  "clock \<Rightarrow> ustr \<Rightarrow> ustr \<Rightarrow> source_hub \<Rightarrow> source_hub \<times> (source_hub_error, source_read_grant) result" where
  "consume_direct now dev gid h =
     (case on_transfer now dev gid consume_body h of
        (h1, Inr g) \<Rightarrow> (registry_remove gid h1, Inr g)
      | (h1, Inl e) \<Rightarrow> (h1, Inl e))"

text \<open>The receiver that is handed out is named by the address of its transfer.\<close>

definition take_pending_tunnel ::
  "clock \<Rightarrow> ustr \<Rightarrow> ustr \<Rightarrow> source_hub \<Rightarrow> source_hub \<times> (source_hub_error, nat) result" where
  "take_pending_tunnel now dev gid h =
     (case on_transfer now dev gid (take_body now) h of
        (h1, Inr _) \<Rightarrow> (h1, Inr (the (map_of (registry h) gid)))
      | (h1, Inl e) \<Rightarrow> (h1, Inl e))"

definition has_pending_tunnel :: "clock \<Rightarrow> ustr \<Rightarrow> ustr \<Rightarrow> source_hub \<Rightarrow> bool" where
  "has_pending_tunnel now dev gid h \<longleftrightarrow>
     (case map_of (registry h) gid of
        None \<Rightarrow> False
      | Some a \<Rightarrow>
          (let t = transfers h ! a
           in \<not> (owner t \<noteq> dev \<or> transport (grant t) \<noteq> Tunnel \<or> is_expired_at (wall now) (grant t))
              \<and> (lifecycle (mutable t) = Pending \<or> lifecycle (mutable t) = Ready)))"

text \<open>
  A push accounts for its chunk under the transfer's lock and then waits for room in the
  channel. \<open>push_deliver\<close> is one poll of that wait: no value while the channel is full.
\<close>

definition push_begin ::
  "clock \<Rightarrow> ustr \<Rightarrow> ustr \<Rightarrow> byte list \<Rightarrow> source_hub \<Rightarrow> source_hub \<times> (source_hub_error, nat) result" where
  "push_begin now dev gid chunk h =
     (case on_transfer now dev gid (push_body now chunk) h of
        (h1, Inr _) \<Rightarrow>
          (let a = the (map_of (registry h) gid)
           in (h1\<lparr>sending := (a, chunk) # sending h1\<rparr>, Inr a))
      | (h1, Inl e) \<Rightarrow> (h1, Inl e))"

definition push_deliver ::
  "nat \<Rightarrow> byte list \<Rightarrow> source_hub \<Rightarrow> source_hub \<times> (source_hub_error, unit) result option" where
  "push_deliver a chunk h =
     (let t = transfers h ! a; ch = channel t
      in if \<not> receiver_alive ch
         then (fail_at (lit ''source tunnel receiver disconnected'') a
                 (h\<lparr>sending := remove1 (a, chunk) (sending h)\<rparr>), Some (Inl TunnelDisconnected))
         else if length (buffered ch) < SOURCE_TUNNEL_CAPACITY
         then (put a (t\<lparr>channel := ch\<lparr>buffered := buffered ch @ [chunk]\<rparr>\<rparr>)
                 (h\<lparr>sending := remove1 (a, chunk) (sending h)\<rparr>), Some (Inr ()))
         else (h, None))"

definition push_tunnel_chunk ::
  "clock \<Rightarrow> ustr \<Rightarrow> ustr \<Rightarrow> byte list \<Rightarrow> source_hub
   \<Rightarrow> source_hub \<times> (source_hub_error, unit) result option" where
  "push_tunnel_chunk now dev gid chunk h =
     (case push_begin now dev gid chunk h of
        (h1, Inl e) \<Rightarrow> (h1, Some (Inl e))
      | (h1, Inr a) \<Rightarrow> push_deliver a chunk h1)"

definition finish_tunnel ::
  "clock \<Rightarrow> ustr \<Rightarrow> ustr \<Rightarrow> source_hub \<Rightarrow> source_hub \<times> (source_hub_error, unit) result" where
  "finish_tunnel now dev gid h =
     (case on_transfer now dev gid finish_body h of
        (h1, Inl e) \<Rightarrow> (h1, Inl e)
      | (h1, Inr outcome) \<Rightarrow> (registry_remove gid h1, outcome))"

definition read_status ::
  "clock \<Rightarrow> ustr \<Rightarrow> source_hub \<Rightarrow> source_hub \<times> (source_hub_error, source_read_status) result" where
  "read_status now gid h =
     (case map_of (registry h) gid of
        None \<Rightarrow> (h, Inl GrantNotFound)
      | Some a \<Rightarrow>
          (let (t1, expired) = expire_if_needed now (transfers h ! a)
           in (put a t1 h, Inr (if expired then StatusExpired else status_of t1))))"

definition handle_source_frame ::
  "(source_manifest_chunk \<Rightarrow> nat) \<Rightarrow> clock \<Rightarrow> ustr \<Rightarrow> source_worker_frame \<Rightarrow> source_hub
   \<Rightarrow> source_hub \<times> (source_hub_error, source_manifest_chunk option) result" where
  "handle_source_frame enc now dev frame h =
     (let h1 = touch_source now dev h
      in case frame of
           HelloFrame _ _ _ \<Rightarrow> (h1, Inl UnexpectedFrame)
         | ManifestChunk c \<Rightarrow>
             (case chunk_validate enc c of
                Inl e \<Rightarrow> (h1, Inl (Protocol e))
              | Inr _ \<Rightarrow> (h1, Inr (Some c)))
         | ReadReady gid \<Rightarrow>
             (let (h2, r) = read_ready now dev gid h1
              in (h2, case r of Inl e \<Rightarrow> Inl e | Inr _ \<Rightarrow> Inr None))
         | ReadFailed gid e \<Rightarrow>
             (let (h2, r) = read_failed now dev gid e h1
              in (h2, case r of Inl e \<Rightarrow> Inl e | Inr _ \<Rightarrow> Inr None)))"

section \<open>Waiting for readiness\<close>

text \<open>
  One pass of the loop of \<open>wait_ready\<close>: a result, or none when the pass goes to sleep. The
  sleep ends when \<open>notify_waiters\<close> is called, or at the deadline, which closes the window.
\<close>

definition wait_pass ::
  "clock \<Rightarrow> ustr \<Rightarrow> nat \<Rightarrow> source_hub \<Rightarrow> source_hub \<times> (source_hub_error, unit) result option" where
  "wait_pass now gid a h =
     (let (t, expired) = expire_if_needed now (transfers h ! a); h1 = put a t h
      in if expired then (registry_remove gid h1, Some (Inl GrantExpired))
         else if ready_seen (mutable t) then (h1, Some (Inr ()))
         else (case lifecycle (mutable t) of
             Pending \<Rightarrow> (h1, None)
           | Ready \<Rightarrow> (h1, None)
           | Consumed \<Rightarrow> (h1, None)
           | Failed e \<Rightarrow> (registry_remove gid h1, Some (Inl (WorkerFailed e)))
           | Expired \<Rightarrow> (registry_remove gid h1, Some (Inl GrantExpired))
           | Completed \<Rightarrow> (registry_remove gid h1, Some (Inl NotReady))))"

definition wait_deadline :: "nat \<Rightarrow> source_hub \<Rightarrow> source_hub" where
  "wait_deadline a h = put a (fst (expire_now (transfers h ! a))) h"

text \<open>
  The loop against a schedule: for each pass its clock reading, what the other tasks do to the
  hub while it sleeps, and whether the deadline ended the sleep. No value when the schedule
  ends first.
\<close>

primrec wait_loop ::
  "ustr \<Rightarrow> nat \<Rightarrow> (clock \<times> (source_hub \<Rightarrow> source_hub) \<times> bool) list \<Rightarrow> source_hub
   \<Rightarrow> (source_hub \<times> (source_hub_error, unit) result) option" where
  "wait_loop gid a [] h = None"
| "wait_loop gid a (s # ss) h =
     (case s of (now, others, timed_out) \<Rightarrow>
        (case wait_pass now gid a h of
           (h1, Some r) \<Rightarrow> Some (h1, r)
         | (h1, None) \<Rightarrow>
             (let h2 = others h1
              in wait_loop gid a ss (if timed_out then wait_deadline a h2 else h2))))"

definition wait_ready ::
  "ustr \<Rightarrow> (clock \<times> (source_hub \<Rightarrow> source_hub) \<times> bool) list \<Rightarrow> source_hub
   \<Rightarrow> (source_hub \<times> (source_hub_error, unit) result) option" where
  "wait_ready gid ss h =
     (case map_of (registry h) gid of
        None \<Rightarrow> Some (h, Inl GrantNotFound)
      | Some a \<Rightarrow> wait_loop gid a ss h)"

section \<open>The consumer of a tunnel\<close>

text \<open>
  The channel ends when every sender is gone: the hub's and the clones of pending pushes. One
  poll of \<open>next_chunk\<close> has no value while it waits; \<open>timed_out\<close> says the deadline has passed.
\<close>

definition stream_ended :: "nat \<Rightarrow> source_hub \<Rightarrow> bool" where
  "stream_ended a h \<longleftrightarrow> \<not> tunnel_tx (transfers h ! a) \<and> (\<forall>s\<in>set (sending h). fst s \<noteq> a)"

definition next_chunk ::
  "bool \<Rightarrow> nat \<Rightarrow> source_hub \<Rightarrow> source_hub \<times> (source_hub_error, byte list option) result option" where
  "next_chunk timed_out a h =
     (let t = transfers h ! a; ch = channel t
      in case buffered ch of
           chunk # rest \<Rightarrow>
             (put a (t\<lparr>channel := ch\<lparr>buffered := rest, delivered := delivered ch @ [chunk]\<rparr>\<rparr>) h,
              Some (Inr (Some chunk)))
         | [] \<Rightarrow>
             if stream_ended a h then (h, Some (Inr None))
             else if timed_out
             then (registry_remove (grant_id (grant t)) (fail_at stalled a h), Some (Inl IdleTimeout))
             else (h, None))"

text \<open>\<open>Drop\<close>: the grant is failed and released, and then the receiving half goes.\<close>

definition drop_receiver :: "nat \<Rightarrow> source_hub \<Rightarrow> source_hub" where
  "drop_receiver a h =
     (let h1 = registry_remove (grant_id (grant (transfers h ! a)))
                 (fail_at (lit ''source tunnel receiver was dropped'') a h);
          t = transfers h1 ! a
      in put a (t\<lparr>channel := (channel t)\<lparr>buffered := [], receiver_alive := False\<rparr>\<rparr>) h1)"

end
