(* ===== verification/Source_Hub_Steps.thy ===== *)
theory Source_Hub_Steps
  imports Source_Hub "HOL-Library.Sublist"
begin

text \<open>
  The source hub as a transition system. A step is what one task does under one lock: an
  operation of \<^verbatim>\<open>source_hub.rs\<close> is a run of such steps, so that a reachable state is one that
  some interleaving of socket tasks, routes and consumers can produce. The file states the
  hub's invariant, how a transfer may change, and that every step keeps both.
\<close>

section \<open>Steps\<close>

text \<open>What is done to one transfer under its own lock.\<close>

datatype transfer_action =
    ActFail ustr
  | ActExpire
  | ActReady clock
  | ActReadFailed ustr
  | ActConsume
  | ActTake clock
  | ActFinish

fun act :: "transfer_action \<Rightarrow> pending_transfer \<Rightarrow> pending_transfer" where
  "act (ActFail e) t = fst (fail e t)"
| "act ActExpire t = fst (expire_now t)"
| "act (ActReady now) t = fst (ready_body now t)"
| "act (ActReadFailed e) t = fst (failed_body e t)"
| "act ActConsume t = fst (consume_body t)"
| "act (ActTake now) t = fst (take_body now t)"
| "act ActFinish t = fst (finish_body t)"

definition at_transfer :: "nat \<Rightarrow> (pending_transfer \<Rightarrow> pending_transfer) \<Rightarrow> source_hub \<Rightarrow> source_hub" where
  "at_transfer a f h = put a (f (transfers h ! a)) h"

inductive source_step :: "source_hub \<Rightarrow> source_hub \<Rightarrow> bool" where
  attach_begin: "source_step h (h\<lparr>source_epochs := (source_epochs h + 1) mod 2 ^ 64\<rparr>)"
| attach_install:
    "n \<le> source_epochs h \<Longrightarrow> source_step h (attach_install now dev name hello n h)"
| detach_begin: "source_step h (fst (detach_begin dev n h))"
| touch_source: "source_step h (touch_source now dev h)"
| send: "source_step h (fst (send dev frame h))"
| outbound_recv: "source_step h (outbound_recv dev h)"
| outbound_drop: "source_step h (outbound_drop dev h)"
| insert: "grant_validate g = Inr () \<Longrightarrow> read_length g < U64_MAX \<Longrightarrow> source_step h (fst (insert_pending now dev g h))"
| retain: "source_step h (h\<lparr>registry := filter P (registry h)\<rparr>)"
| act: "a < length (transfers h) \<Longrightarrow> source_step h (at_transfer a (act x) h)"
| push: "a < length (transfers h) \<Longrightarrow> push_body now chunk (transfers h ! a) = (t, Inr ())
    \<Longrightarrow> source_step h ((put a t h)\<lparr>sending := (a, chunk) # sending h\<rparr>)"
| push_refused: "a < length (transfers h) \<Longrightarrow> push_body now chunk (transfers h ! a) = (t, Inl e)
    \<Longrightarrow> source_step h (put a t h)"
| deliver: "(a, chunk) \<in> set (sending h) \<Longrightarrow> source_step h (fst (push_deliver a chunk h))"
| receive: "a < length (transfers h) \<Longrightarrow> \<not> tunnel_rx (transfers h ! a)
    \<Longrightarrow> source_step h (fst (next_chunk timed_out a h))"
| drop: "a < length (transfers h) \<Longrightarrow> \<not> tunnel_rx (transfers h ! a)
    \<Longrightarrow> source_step h (drop_receiver a h)"

section \<open>The invariant\<close>

definition volume :: "byte list list \<Rightarrow> nat" where
  "volume cs = sum_list (map length cs)"

definition in_flight :: "nat \<Rightarrow> source_hub \<Rightarrow> byte list list" where
  "in_flight a h = map snd (filter (\<lambda>s. fst s = a) (sending h))"

text \<open>The budget of a tunnel.\<close>

definition budget :: "source_read_grant \<Rightarrow> nat" where
  "budget g = min (max_bytes g) (read_length g)"

text \<open>
  The states a transfer can be in: which flags each lifecycle admits, whether the hub still
  holds the sender and the receiver, and how the bytes accounted for are distributed between
  the consumer, the channel and the pushes in flight.
\<close>

definition lifecycle_ok :: "source_read_grant \<Rightarrow> bool \<Rightarrow> grant_mutable \<Rightarrow> bool" where
  "lifecycle_ok g rx m \<longleftrightarrow>
     (case lifecycle m of
        Pending \<Rightarrow> \<not> ready_seen m \<and> \<not> tunnel_claimed m
      | Ready \<Rightarrow> ready_seen m \<and> \<not> tunnel_claimed m
      | Consumed \<Rightarrow> tunnel_claimed m \<or> (ready_seen m \<and> transport g = Direct)
      | Completed \<Rightarrow> tunnel_claimed m \<and> bytes_sent m = read_length g
      | Failed _ \<Rightarrow> True
      | Expired \<Rightarrow> True)
     \<and> (\<not> tunnel_claimed m \<longrightarrow> bytes_sent m = 0 \<and> rx)
     \<and> (\<not> rx \<longrightarrow> transport g = Tunnel)
     \<and> bytes_sent m \<le> budget g"

definition channel_ok :: "bool \<Rightarrow> grant_mutable \<Rightarrow> nat \<Rightarrow> tunnel_channel \<Rightarrow> bool" where
  "channel_ok rx m flight ch \<longleftrightarrow>
     length (buffered ch) \<le> SOURCE_TUNNEL_CAPACITY
     \<and> (\<forall>chunk\<in>set (buffered ch @ delivered ch). length chunk \<le> MAX_SOURCE_TUNNEL_CHUNK_BYTES)
     \<and> (if receiver_alive ch
        then volume (delivered ch) + volume (buffered ch) + flight = bytes_sent m
        else buffered ch = [] \<and> volume (delivered ch) + flight \<le> bytes_sent m
             \<and> lifecycle_terminal (lifecycle m))
     \<and> (rx \<longrightarrow> receiver_alive ch \<and> delivered ch = [])"

definition transfer_ok :: "nat \<Rightarrow> pending_transfer \<Rightarrow> bool" where
  "transfer_ok flight t \<longleftrightarrow>
     grant_validate (grant t) = Inr () \<and> read_length (grant t) < U64_MAX
     \<and> (tunnel_tx t \<longleftrightarrow> \<not> lifecycle_terminal (lifecycle (mutable t)))
     \<and> lifecycle_ok (grant t) (tunnel_rx t) (mutable t)
     \<and> channel_ok (tunnel_rx t) (mutable t) flight (channel t)"

definition transfers_ok :: "source_hub \<Rightarrow> bool" where
  "transfers_ok h \<longleftrightarrow>
     (\<forall>a<length (transfers h). transfer_ok (volume (in_flight a h)) (transfers h ! a))
     \<and> (\<forall>(a, chunk)\<in>set (sending h).
          a < length (transfers h) \<and> length chunk \<le> MAX_SOURCE_TUNNEL_CHUNK_BYTES)"

definition registry_ok :: "source_hub \<Rightarrow> bool" where
  "registry_ok h \<longleftrightarrow>
     distinct (map fst (registry h))
     \<and> (\<forall>(gid, a)\<in>set (registry h).
          a < length (transfers h) \<and> grant_id (grant (transfers h ! a)) = gid)"

definition connections_ok :: "source_hub \<Rightarrow> bool" where
  "connections_ok h \<longleftrightarrow>
     distinct (map fst (source_connections h))
     \<and> (\<forall>(dev, c)\<in>set (source_connections h).
          source_device_id (source_worker c) = dev
          \<and> length (source_outbound c) \<le> SOURCE_OUTBOUND_CAPACITY)"

definition source_hub_ok :: "source_hub \<Rightarrow> bool" where
  "source_hub_ok h \<longleftrightarrow> transfers_ok h \<and> registry_ok h \<and> connections_ok h"

section \<open>How a transfer may change\<close>

fun rank :: "grant_lifecycle \<Rightarrow> nat" where
  "rank Pending = 0"
| "rank Ready = 1"
| "rank Consumed = 2"
| "rank _ = 3"

text \<open>A pass of \<open>wait_ready\<close> over such a transfer goes to sleep.\<close>

definition sleeps :: "pending_transfer \<Rightarrow> bool" where
  "sleeps t \<longleftrightarrow> \<not> ready_seen (mutable t) \<and> \<not> lifecycle_terminal (lifecycle (mutable t))"

definition mutable_le :: "grant_mutable \<Rightarrow> grant_mutable \<Rightarrow> bool" where
  "mutable_le m m' \<longleftrightarrow>
     rank (lifecycle m) \<le> rank (lifecycle m')
     \<and> (lifecycle_terminal (lifecycle m) \<longrightarrow> lifecycle m' = lifecycle m)
     \<and> (ready_seen m \<longrightarrow> ready_seen m')
     \<and> (tunnel_claimed m \<longrightarrow> tunnel_claimed m')
     \<and> bytes_sent m \<le> bytes_sent m'"

definition tunnel_le :: "pending_transfer \<Rightarrow> pending_transfer \<Rightarrow> bool" where
  "tunnel_le t t' \<longleftrightarrow>
     (tunnel_rx t' \<longrightarrow> tunnel_rx t) \<and> (tunnel_tx t' \<longrightarrow> tunnel_tx t)
     \<and> (receiver_alive (channel t') \<longrightarrow> receiver_alive (channel t))
     \<and> prefix (delivered (channel t)) (delivered (channel t'))"

text \<open>A waiter that would no longer sleep has been woken.\<close>

definition wake_le :: "pending_transfer \<Rightarrow> pending_transfer \<Rightarrow> bool" where
  "wake_le t t' \<longleftrightarrow>
     wakeups t \<le> wakeups t' \<and> (sleeps t \<longrightarrow> \<not> sleeps t' \<longrightarrow> wakeups t < wakeups t')"

definition transfer_le :: "pending_transfer \<Rightarrow> pending_transfer \<Rightarrow> bool" where
  "transfer_le t t' \<longleftrightarrow>
     grant t' = grant t \<and> owner t' = owner t
     \<and> mutable_le (mutable t) (mutable t') \<and> tunnel_le t t' \<and> wake_le t t'"

lemmas transfer_le_defs = transfer_le_def mutable_le_def tunnel_le_def wake_le_def

definition keeps :: "source_hub \<Rightarrow> source_hub \<Rightarrow> bool" where
  "keeps h h' \<longleftrightarrow>
     source_hub_ok h'
     \<and> length (transfers h) \<le> length (transfers h')
     \<and> (\<forall>a<length (transfers h). transfer_le (transfers h ! a) (transfers h' ! a))"

lemma transfer_le_refl [simp]: "transfer_le t t"
  by (simp add: transfer_le_defs)

lemma mutable_le_trans: "mutable_le m n \<Longrightarrow> mutable_le n p \<Longrightarrow> mutable_le m p"
  unfolding mutable_le_def by (metis le_trans)

lemma tunnel_le_trans: "tunnel_le t u \<Longrightarrow> tunnel_le u v \<Longrightarrow> tunnel_le t v"
  unfolding tunnel_le_def by (meson prefix_order.trans)

lemma wake_le_trans: "wake_le t u \<Longrightarrow> wake_le u v \<Longrightarrow> wake_le t v"
  unfolding wake_le_def by (meson le_trans le_less_trans less_le_trans)

lemma transfer_le_trans [trans]: "transfer_le t u \<Longrightarrow> transfer_le u v \<Longrightarrow> transfer_le t v"
  unfolding transfer_le_def by (metis mutable_le_trans tunnel_le_trans wake_le_trans)

lemma source_keeps_refl: "source_hub_ok h \<Longrightarrow> keeps h h"
  by (simp add: keeps_def)

lemma source_keeps_trans [trans]: "keeps h h' \<Longrightarrow> keeps h' h'' \<Longrightarrow> keeps h h''"
  unfolding keeps_def by (meson dual_order.trans less_le_trans transfer_le_trans)

lemma keeps_ok: "keeps h h' \<Longrightarrow> source_hub_ok h'"
  by (simp add: keeps_def)

text \<open>A step that leaves the transfers and the pushes alone keeps the hub when its registry and
  connections stay well formed.\<close>

lemma keeps_frame:
  assumes "source_hub_ok h" "transfers h' = transfers h" "sending h' = sending h"
    and "registry_ok h'" "connections_ok h'"
  shows "keeps h h'"
  using assms by (simp add: keeps_def source_hub_ok_def transfers_ok_def in_flight_def)

section \<open>Steps on one transfer\<close>

lemmas transfer_defs =
  fail_def expire_now_def ready_body_def failed_body_def consume_body_def take_body_def
  finish_body_def push_body_def account_def claim_def stamp_def mark_ready_def notify_waiters_def
  close_tunnel_def set_lifecycle_def Let_def

lemmas transfer_ok_defs =
  transfer_ok_def lifecycle_ok_def channel_ok_def lifecycle_terminal_def

lemma terminal_simps [simp]:
  "\<not> lifecycle_terminal Pending" "\<not> lifecycle_terminal Ready" "\<not> lifecycle_terminal Consumed"
  "lifecycle_terminal Completed" "lifecycle_terminal (Failed e)" "lifecycle_terminal Expired"
  by (simp_all add: lifecycle_terminal_def)

lemma rank_terminal: "lifecycle_terminal l \<Longrightarrow> rank l = 3" "rank l \<le> 3"
  by (cases l; simp)+

text \<open>Ending a transfer that has not ended.\<close>

lemma end_ok:
  assumes "transfer_ok f t" "\<not> lifecycle_terminal (lifecycle (mutable t))" "lifecycle_terminal l"
    and "l = Completed \<longrightarrow> tunnel_claimed (mutable t) \<and> bytes_sent (mutable t) = read_length (grant t)"
  shows "transfer_ok f (notify_waiters (close_tunnel (set_lifecycle l t)))"
  using assms
  by (cases l) (auto simp: notify_waiters_def close_tunnel_def set_lifecycle_def
      transfer_ok_def lifecycle_ok_def channel_ok_def)

lemma end_le:
  assumes "\<not> lifecycle_terminal (lifecycle (mutable t))" "lifecycle_terminal l"
  shows "transfer_le t (notify_waiters (close_tunnel (set_lifecycle l t)))"
  using assms
  by (simp add: notify_waiters_def close_tunnel_def set_lifecycle_def transfer_le_defs rank_terminal)

lemma fail_ok: "transfer_ok f t \<Longrightarrow> transfer_ok f (fst (fail e t))"
  by (simp add: fail_def end_ok)

lemma fail_le: "transfer_le t (fst (fail e t))"
  by (simp add: fail_def end_le)

lemma expire_ok: "transfer_ok f t \<Longrightarrow> transfer_ok f (fst (expire_now t))"
  by (simp add: expire_now_def end_ok Let_def split: grant_lifecycle.split)

lemma expire_le: "transfer_le t (fst (expire_now t))"
  by (simp add: expire_now_def end_le Let_def split: grant_lifecycle.split)

lemma finish_ok: "transfer_ok f t \<Longrightarrow> transfer_ok f (fst (finish_body t))"
  by (simp add: finish_body_def end_ok Let_def)

lemma finish_le: "transfer_le t (fst (finish_body t))"
  by (simp add: finish_body_def end_le Let_def)

lemma failed_ok: "transfer_ok f t \<Longrightarrow> transfer_ok f (fst (failed_body e t))"
  by (simp add: failed_body_def fail_ok split: grant_lifecycle.split)

lemma failed_le: "transfer_le t (fst (failed_body e t))"
  by (simp add: failed_body_def fail_le split: grant_lifecycle.split)

lemma mark_ready_ok:
  assumes "transfer_ok f t" "lifecycle (mutable t) = Ready \<or> lifecycle (mutable t) = Consumed"
  shows "transfer_ok f (mark_ready now t)"
  using assms
  by (auto simp: mark_ready_def notify_waiters_def transfer_ok_def lifecycle_ok_def channel_ok_def)

lemma ready_ok: "transfer_ok f t \<Longrightarrow> transfer_ok f (fst (ready_body now t))"
proof -
  assume t: "transfer_ok f t"
  then have "lifecycle (mutable t) = Pending \<Longrightarrow> transfer_ok f (mark_ready now (set_lifecycle Ready t))"
    by (auto simp: mark_ready_def set_lifecycle_def notify_waiters_def transfer_ok_def lifecycle_ok_def
        channel_ok_def)
  with t show ?thesis by (simp add: ready_body_def mark_ready_ok split: grant_lifecycle.split)
qed

lemma ready_le: "transfer_le t (fst (ready_body now t))"
  by (simp add: ready_body_def mark_ready_def set_lifecycle_def notify_waiters_def transfer_le_defs
      sleeps_def split: grant_lifecycle.split)

lemma consume_ok: "transfer_ok f t \<Longrightarrow> transfer_ok f (fst (consume_body t))"
  by (auto simp: consume_body_def set_lifecycle_def transfer_ok_def lifecycle_ok_def channel_ok_def
      split: grant_lifecycle.split)

lemma consume_le: "transfer_ok f t \<Longrightarrow> transfer_le t (fst (consume_body t))"
  by (auto simp: consume_body_def set_lifecycle_def transfer_le_defs transfer_ok_def lifecycle_ok_def
      sleeps_def split: grant_lifecycle.split)

text \<open>Claiming the tunnel of a grant that waits.\<close>

lemma claim_ok:
  assumes "transfer_ok f t" "lifecycle (mutable t) = Pending \<or> lifecycle (mutable t) = Ready"
  shows "transfer_ok f (claim t)" "transfer_le t (claim t)"
  using assms
  by (auto simp: claim_def transfer_ok_def lifecycle_ok_def channel_ok_def transfer_le_defs sleeps_def)

lemma stamp_ok [simp]: "transfer_ok f (stamp now t) = transfer_ok f t"
  by (simp add: stamp_def transfer_ok_def lifecycle_ok_def channel_ok_def split: grant_lifecycle.split)

lemma stamp_le [simp]: "transfer_le t (stamp now u) = transfer_le t u"
  by (simp add: stamp_def transfer_le_defs sleeps_def)

lemma claim_stamp_simps [simp]:
  "lifecycle (mutable (claim t)) = Consumed" "tunnel_claimed (mutable (claim t))"
  "tunnel_rx (claim t) = tunnel_rx t" "tunnel_tx (claim t) = tunnel_tx t" "grant (claim t) = grant t"
  "bytes_sent (mutable (claim t)) = bytes_sent (mutable t)" "owner (claim t) = owner t"
  "lifecycle (mutable (stamp now t)) = lifecycle (mutable t)" "channel (claim t) = channel t"
  "tunnel_claimed (mutable (stamp now t)) = tunnel_claimed (mutable t)"
  "tunnel_rx (stamp now t) = tunnel_rx t" "tunnel_tx (stamp now t) = tunnel_tx t"
  "grant (stamp now t) = grant t" "owner (stamp now t) = owner t" "channel (stamp now t) = channel t"
  "bytes_sent (mutable (stamp now t)) = bytes_sent (mutable t)"
  by (simp_all add: claim_def stamp_def)

lemma take_rx_ok:
  assumes "transfer_ok f t" "transport (grant t) = Tunnel" "tunnel_claimed (mutable t)"
  shows "transfer_ok f (t\<lparr>tunnel_rx := False\<rparr>)"
  using assms by (auto simp: transfer_ok_def lifecycle_ok_def channel_ok_def split: grant_lifecycle.split)

lemma take_rx_le: "transfer_le t u \<Longrightarrow> transfer_le t (u\<lparr>tunnel_rx := False\<rparr>)"
  by (simp add: transfer_le_defs sleeps_def)

lemma take_ok: "transfer_ok f t \<Longrightarrow> transfer_ok f (fst (take_body now t))"
  by (simp add: take_body_def Let_def take_rx_ok claim_ok split: grant_lifecycle.split)

lemma take_le: "transfer_ok f t \<Longrightarrow> transfer_le t (fst (take_body now t))"
  by (simp add: take_body_def Let_def take_rx_le claim_ok split: grant_lifecycle.split)

lemma act_ok: "transfer_ok f t \<Longrightarrow> transfer_ok f (act x t)"
  by (cases x) (simp_all add: fail_ok expire_ok ready_ok failed_ok consume_ok take_ok finish_ok)

lemma act_le: "transfer_ok f t \<Longrightarrow> transfer_le t (act x t)"
  by (cases x) (simp_all add: fail_le expire_le ready_le failed_le consume_le take_le finish_le)

section \<open>Pushing a chunk\<close>

lemma saturating_exact:
  "saturating_add_u64 a b \<le> m \<Longrightarrow> m < U64_MAX \<Longrightarrow> saturating_add_u64 a b = a + b"
  by (simp add: saturating_add_u64_def min_def split: if_splits)

lemma account_ok:
  assumes t: "transfer_ok f t" "lifecycle (mutable t) = Consumed" "tunnel_claimed (mutable t)"
    and a: "account now n t = (t', r)"
  shows "r = Inr () \<Longrightarrow> transfer_ok (f + n) t'" "r \<noteq> Inr () \<Longrightarrow> transfer_ok f t'" "transfer_le t t'"
proof -
  let ?n = "saturating_add_u64 (bytes_sent (mutable t)) n"
  have tx: "tunnel_tx t" and m: "budget (grant t) < U64_MAX" and alive: "receiver_alive (channel t)"
    using t by (auto simp: transfer_ok_def channel_ok_def budget_def split: if_splits)
  have *: "?n \<le> budget (grant t) \<Longrightarrow> ?n = bytes_sent (mutable t) + n"
    using saturating_exact m by blast
  note a' = a [unfolded account_def Let_def, folded budget_def]
  show "r = Inr () \<Longrightarrow> transfer_ok (f + n) t'"
    using a' * t tx alive by (auto simp: transfer_ok_def lifecycle_ok_def channel_ok_def split: if_splits)
  show "r \<noteq> Inr () \<Longrightarrow> transfer_ok f t'"
    using a' tx fail_ok [OF t(1)] by (auto split: if_splits)
  have "transfer_le t (t\<lparr>mutable := (mutable t)\<lparr>bytes_sent := bytes_sent (mutable t) + n\<rparr>\<rparr>)"
    by (simp add: transfer_le_defs sleeps_def)
  then show "transfer_le t t'"
    using a' * fail_le [of t] by (auto split: if_splits)
qed

lemma push_ok:
  assumes t: "transfer_ok f t" and p: "push_body now chunk t = (t', r)"
  shows "r = Inr () \<Longrightarrow> transfer_ok (f + length chunk) t' \<and> length chunk \<le> MAX_SOURCE_TUNNEL_CHUNK_BYTES"
    "r \<noteq> Inr () \<Longrightarrow> transfer_ok f t'" "transfer_le t t'"
proof -
  note acc = account_ok [of f "claim t" now "length chunk" t' r] account_ok [of f t now "length chunk" t' r]
  show "r = Inr () \<Longrightarrow> transfer_ok (f + length chunk) t' \<and> length chunk \<le> MAX_SOURCE_TUNNEL_CHUNK_BYTES"
    using p t acc claim_ok [OF t]
    by (auto simp: push_body_def split: if_splits grant_lifecycle.splits)
  show "r \<noteq> Inr () \<Longrightarrow> transfer_ok f t'"
    using p t acc claim_ok [OF t] fail_ok [OF t]
    by (auto simp: push_body_def split: if_splits grant_lifecycle.splits)
  show "transfer_le t t'"
    using p t acc claim_ok [OF t] fail_le transfer_le_trans [of t "claim t" t']
    by (auto simp: push_body_def split: if_splits grant_lifecycle.splits)
qed

section \<open>Every step keeps the hub\<close>

lemma put_simps [simp]:
  "registry (put a t h) = registry h" "sending (put a t h) = sending h"
  "source_connections (put a t h) = source_connections h"
  "transfers (put a t h) = (transfers h)[a := t]" "source_epochs (put a t h) = source_epochs h"
  "in_flight b (put a t h) = in_flight b h"
  by (simp_all add: put_def in_flight_def)

lemma registry_remove_simps [simp]:
  "transfers (registry_remove gid h) = transfers h" "sending (registry_remove gid h) = sending h"
  "source_connections (registry_remove gid h) = source_connections h"
  "source_epochs (registry_remove gid h) = source_epochs h"
  "registry (registry_remove gid h) = AList.delete gid (registry h)"
  by (simp_all add: registry_remove_def)

lemma keeps_at:
  assumes ok: "source_hub_ok h" and a: "a < length (transfers h)"
    and h': "transfers h' = (transfers h)[a := t']" "registry h' = registry h"
      "source_connections h' = source_connections h"
    and t': "transfer_ok (volume (in_flight a h')) t'" "transfer_le (transfers h ! a) t'"
    and others: "\<And>b. b \<noteq> a \<Longrightarrow> volume (in_flight b h') = volume (in_flight b h)"
    and s: "\<And>b c. (b, c) \<in> set (sending h')
      \<Longrightarrow> b < length (transfers h) \<and> length c \<le> MAX_SOURCE_TUNNEL_CHUNK_BYTES"
  shows "keeps h h'"
proof -
  have "transfer_ok (volume (in_flight b h')) (transfers h' ! b)" if "b < length (transfers h)" for b
    using ok t'(1) others [of b] that
    by (cases "b = a") (auto simp: source_hub_ok_def transfers_ok_def h')
  then have "transfers_ok h'"
    using s by (auto simp: transfers_ok_def h')
  moreover have "grant (transfers h' ! b) = grant (transfers h ! b)" for b
    using a t'(2) by (cases "b = a") (auto simp: h' transfer_le_def)
  then have "registry_ok h'"
    using ok by (simp add: source_hub_ok_def registry_ok_def h')
  moreover have "connections_ok h'"
    using ok by (simp add: source_hub_ok_def connections_ok_def h')
  ultimately show ?thesis
    using a t'(2) by (auto simp: keeps_def source_hub_ok_def h' nth_list_update)
qed

lemma sending_wf:
  "source_hub_ok h \<Longrightarrow> (b, c) \<in> set (sending h)
     \<Longrightarrow> b < length (transfers h) \<and> length c \<le> MAX_SOURCE_TUNNEL_CHUNK_BYTES"
  by (auto simp: source_hub_ok_def transfers_ok_def)

lemma transfer_ok_at:
  "source_hub_ok h \<Longrightarrow> a < length (transfers h) \<Longrightarrow> transfer_ok (volume (in_flight a h)) (transfers h ! a)"
  by (simp add: source_hub_ok_def transfers_ok_def)

lemma keeps_put:
  assumes "source_hub_ok h" "a < length (transfers h)"
    and "transfer_ok (volume (in_flight a h)) t'" "transfer_le (transfers h ! a) t'"
  shows "keeps h (put a t' h)"
  by (rule keeps_at [where a = a and t' = t']) (use assms sending_wf in auto)

lemma keeps_act:
  "source_hub_ok h \<Longrightarrow> a < length (transfers h) \<Longrightarrow> keeps h (at_transfer a (act x) h)"
  unfolding at_transfer_def by (intro keeps_put act_ok act_le) (auto intro: transfer_ok_at)

lemma keeps_push:
  assumes ok: "source_hub_ok h" and a: "a < length (transfers h)"
    and p: "push_body now chunk (transfers h ! a) = (t, Inr ())"
  shows "keeps h ((put a t h)\<lparr>sending := (a, chunk) # sending h\<rparr>)"
proof (rule keeps_at [where a = a and t' = t])
  note push = push_ok [OF transfer_ok_at [OF ok a] p]
  show "transfer_ok (volume (in_flight a ((put a t h)\<lparr>sending := (a, chunk) # sending h\<rparr>))) t"
    using push(1) by (simp add: in_flight_def volume_def add.commute)
  show "transfer_le (transfers h ! a) t" by (rule push(3))
  show "b < length (transfers h) \<and> length c \<le> MAX_SOURCE_TUNNEL_CHUNK_BYTES"
    if "(b, c) \<in> set (sending ((put a t h)\<lparr>sending := (a, chunk) # sending h\<rparr>))" for b c
    using that a push(1) sending_wf [OF ok] by auto
qed (simp_all add: ok a in_flight_def)

lemma keeps_push_refused:
  assumes ok: "source_hub_ok h" and a: "a < length (transfers h)"
    and p: "push_body now chunk (transfers h ! a) = (t, Inl e)"
  shows "keeps h (put a t h)"
  using push_ok [OF transfer_ok_at [OF ok a] p] by (intro keeps_put ok a) auto

text \<open>A push that ends takes its chunk out of the pushes in flight.\<close>

lemma in_flight_remove:
  assumes "(a, chunk) \<in> set ss"
  shows "volume (map snd (filter (\<lambda>s. fst s = a) (remove1 (a, chunk) ss))) + length chunk
           = volume (map snd (filter (\<lambda>s. fst s = a) ss))"
    and "b \<noteq> a \<Longrightarrow> filter (\<lambda>s. fst s = b) (remove1 (a, chunk) ss) = filter (\<lambda>s. fst s = b) ss"
  using assms by (induction ss) (auto simp: volume_def)

lemma deliver_ok:
  assumes t: "transfer_ok (f + length chunk) t" and c: "length chunk \<le> MAX_SOURCE_TUNNEL_CHUNK_BYTES"
  shows "\<not> receiver_alive (channel t) \<Longrightarrow> transfer_ok f (fst (fail e t))"
    and "receiver_alive (channel t) \<Longrightarrow> length (buffered (channel t)) < SOURCE_TUNNEL_CAPACITY
      \<Longrightarrow> transfer_ok f (t\<lparr>channel := (channel t)\<lparr>buffered := buffered (channel t) @ [chunk]\<rparr>\<rparr>)"
  using assms by (auto simp: transfer_ok_def channel_ok_def fail_def volume_def)

lemma keeps_deliver:
  assumes ok: "source_hub_ok h" and c: "(a, chunk) \<in> set (sending h)"
  shows "keeps h (fst (push_deliver a chunk h))"
proof -
  let ?h = "h\<lparr>sending := remove1 (a, chunk) (sending h)\<rparr>"
  have a: "a < length (transfers h)" and len: "length chunk \<le> MAX_SOURCE_TUNNEL_CHUNK_BYTES"
    using sending_wf [OF ok c] by auto
  have fl: "volume (in_flight a ?h) + length chunk = volume (in_flight a h)"
    using in_flight_remove(1) [OF c] by (simp add: in_flight_def)
  have t: "transfer_ok (volume (in_flight a ?h) + length chunk) (transfers h ! a)"
    unfolding fl by (rule transfer_ok_at [OF ok a])
  have move: "keeps h (put a t' ?h)"
    if "transfer_ok (volume (in_flight a ?h)) t'" "transfer_le (transfers h ! a) t'" for t'
  proof (rule keeps_at [where a = a and t' = t'])
    show "volume (in_flight b (put a t' ?h)) = volume (in_flight b h)" if "b \<noteq> a" for b
      using in_flight_remove(2) [OF c that] by (simp add: in_flight_def)
    show "b < length (transfers h) \<and> length c \<le> MAX_SOURCE_TUNNEL_CHUNK_BYTES"
      if "(b, c) \<in> set (sending (put a t' ?h))" for b c
      using that set_remove1_subset [of "(a, chunk)" "sending h"] sending_wf [OF ok, of b c] by auto
  qed (use that ok a in simp_all)
  have "transfer_le (transfers h ! a)
      ((transfers h ! a)\<lparr>channel := (channel (transfers h ! a))\<lparr>buffered := bs\<rparr>\<rparr>)" for bs
    by (simp add: transfer_le_defs sleeps_def)
  then show ?thesis
    using move [OF deliver_ok(1) [OF t len] fail_le] move [OF deliver_ok(2) [OF t len]] source_keeps_refl [OF ok]
    by (auto simp: push_deliver_def fail_at_def Let_def)
qed

text \<open>The consumer's steps.\<close>

lemma keeps_retain: "source_hub_ok h \<Longrightarrow> keeps h (h\<lparr>registry := filter P (registry h)\<rparr>)"
  by (rule keeps_frame)
    (auto simp: source_hub_ok_def registry_ok_def connections_ok_def distinct_map_filter)

lemma registry_remove_retain:
  "registry_remove gid h = h\<lparr>registry := filter (\<lambda>(k, _). gid \<noteq> k) (registry h)\<rparr>"
  by (simp add: registry_remove_def AList.delete_eq)

lemma keeps_remove: "source_hub_ok h \<Longrightarrow> keeps h (registry_remove gid h)"
  unfolding registry_remove_retain by (rule keeps_retain)

lemma keeps_fail_at:
  "source_hub_ok h \<Longrightarrow> a < length (transfers h) \<Longrightarrow> keeps h (fail_at e a h)"
  using keeps_act [of h a "ActFail e"] by (simp add: fail_at_def at_transfer_def)

lemma keeps_fail_remove:
  assumes "source_hub_ok h" "a < length (transfers h)"
  shows "keeps h (registry_remove gid (fail_at e a h))"
  using keeps_fail_at [OF assms] keeps_remove source_keeps_trans keeps_ok by blast

lemma keeps_receive:
  assumes ok: "source_hub_ok h" and a: "a < length (transfers h)" and rx: "\<not> tunnel_rx (transfers h ! a)"
  shows "keeps h (fst (next_chunk timed_out a h))"
proof (cases "buffered (channel (transfers h ! a))")
  case Nil
  then show ?thesis
    using source_keeps_refl [OF ok] keeps_fail_remove [OF ok a] by (simp add: next_chunk_def Let_def)
next
  case (Cons chunk rest)
  let ?t = "(transfers h ! a)\<lparr>channel := (channel (transfers h ! a))
      \<lparr>buffered := rest, delivered := delivered (channel (transfers h ! a)) @ [chunk]\<rparr>\<rparr>"
  have "transfer_ok (volume (in_flight a h)) ?t"
    using transfer_ok_at [OF ok a] rx Cons
    by (auto simp: transfer_ok_def channel_ok_def volume_def split: if_splits)
  moreover have "transfer_le (transfers h ! a) ?t"
    by (simp add: transfer_le_defs sleeps_def)
  ultimately have "keeps h (put a ?t h)" by (rule keeps_put [OF ok a])
  then show ?thesis by (simp add: next_chunk_def Let_def Cons)
qed

lemma fail_terminal: "lifecycle_terminal (lifecycle (mutable (fst (fail e t))))"
  by (simp add: fail_def notify_waiters_def close_tunnel_def set_lifecycle_def)

lemma fail_frame [simp]:
  "channel (fst (fail e t)) = channel t" "tunnel_rx (fst (fail e t)) = tunnel_rx t"
  "grant (fst (fail e t)) = grant t" "owner (fst (fail e t)) = owner t"
  by (simp_all add: fail_def notify_waiters_def close_tunnel_def set_lifecycle_def)

lemma fail_at_simps [simp]:
  "registry (fail_at e a h) = registry h" "sending (fail_at e a h) = sending h"
  "length (transfers (fail_at e a h)) = length (transfers h)"
  "source_connections (fail_at e a h) = source_connections h"
  "in_flight b (fail_at e a h) = in_flight b h"
  by (simp_all add: fail_at_def)

lemma transfers_fail_at [simp]:
  "a < length (transfers h) \<Longrightarrow> transfers (fail_at e a h) ! a = fst (fail e (transfers h ! a))"
  by (simp add: fail_at_def)

lemma dropped_ok:
  assumes "transfer_ok f t" "lifecycle_terminal (lifecycle (mutable t))" "\<not> tunnel_rx t"
  shows "transfer_ok f (t\<lparr>channel := (channel t)\<lparr>buffered := [], receiver_alive := False\<rparr>\<rparr>)"
    and "transfer_le t (t\<lparr>channel := (channel t)\<lparr>buffered := [], receiver_alive := False\<rparr>\<rparr>)"
  using assms
  by (auto simp: transfer_ok_def channel_ok_def transfer_le_defs sleeps_def volume_def split: if_splits)

lemma keeps_drop:
  assumes ok: "source_hub_ok h" and a: "a < length (transfers h)" and rx: "\<not> tunnel_rx (transfers h ! a)"
  shows "keeps h (drop_receiver a h)"
proof -
  let ?e = "lit ''source tunnel receiver was dropped''"
  let ?h = "registry_remove (grant_id (grant (transfers h ! a))) (fail_at ?e a h)"
  let ?t = "fst (fail ?e (transfers h ! a))"
  let ?t' = "?t\<lparr>channel := (channel ?t)\<lparr>buffered := [], receiver_alive := False\<rparr>\<rparr>"
  have h: "keeps h ?h" by (rule keeps_fail_remove [OF ok a])
  have at: "transfers ?h ! a = ?t" using a by (simp add: fail_at_def)
  have ok': "source_hub_ok ?h" and a': "a < length (transfers ?h)" using keeps_ok [OF h] a by auto
  have rx': "\<not> tunnel_rx ?t" using rx by simp
  have "transfer_ok (volume (in_flight a ?h)) ?t" using transfer_ok_at [OF ok' a'] by (simp only: at)
  note dropped = dropped_ok [OF this fail_terminal rx']
  have "keeps ?h (put a ?t' ?h)"
    by (rule keeps_put [OF ok' a' dropped(1)]) (simp only: at dropped(2))
  then have "keeps h (put a ?t' ?h)" by (rule source_keeps_trans [OF h])
  then show ?thesis by (simp add: drop_receiver_def Let_def a)
qed

text \<open>Registration.\<close>

lemma new_transfer_ok:
  "grant_validate g = Inr () \<Longrightarrow> read_length g < U64_MAX \<Longrightarrow> transfer_ok 0 (new_transfer now dev g)"
  by (simp add: new_transfer_def transfer_ok_def lifecycle_ok_def channel_ok_def volume_def)

lemma keeps_insert:
  assumes ok: "source_hub_ok h" and g: "grant_validate g = Inr ()" "read_length g < U64_MAX"
  shows "keeps h (fst (insert_pending now dev g h))"
proof (cases "map_of (registry h) (grant_id g)")
  case (Some a)
  then show ?thesis using source_keeps_refl [OF ok] by (simp add: insert_pending_def)
next
  case None
  let ?n = "length (transfers h)"
  have fresh: "in_flight ?n h = []"
    using sending_wf [OF ok, of ?n] by (auto simp: in_flight_def filter_empty_conv)
  define h' where "h' = h\<lparr>transfers := transfers h @ [new_transfer now dev g],
    registry := (grant_id g, ?n) # registry h\<rparr>"
  have ins: "fst (insert_pending now dev g h) = h'"
    by (simp add: insert_pending_def None h'_def)
  have "transfer_ok (volume (in_flight b h')) (transfers h' ! b)" if "b < Suc ?n" for b
    using that transfer_ok_at [OF ok, of b] new_transfer_ok [OF g] fresh
    by (cases "b = ?n") (auto simp: h'_def nth_append in_flight_def volume_def)
  then have "transfers_ok h'"
    using sending_wf [OF ok] by (auto simp: transfers_ok_def h'_def less_SucI)
  moreover have "registry_ok h'"
    using ok None
    by (auto simp: h'_def source_hub_ok_def registry_ok_def nth_append new_transfer_def map_of_eq_None_iff)
  moreover have "connections_ok h'"
    using ok by (simp add: h'_def source_hub_ok_def connections_ok_def)
  ultimately show ?thesis
    unfolding ins by (simp add: keeps_def source_hub_ok_def h'_def nth_append)
qed

text \<open>Sockets.\<close>

lemma keeps_connections:
  assumes "source_hub_ok h" "connections_ok h'"
    and "transfers h' = transfers h" "sending h' = sending h" "registry h' = registry h"
  shows "keeps h h'"
  by (rule keeps_frame) (use assms in \<open>simp_all add: source_hub_ok_def registry_ok_def\<close>)

lemma connections_map_entry:
  assumes "connections_ok h"
    and "\<And>c. source_device_id (source_worker (f c)) = source_device_id (source_worker c)"
    and "\<And>c. (dev, c) \<in> set (source_connections h) \<Longrightarrow> length (source_outbound (f c)) \<le> SOURCE_OUTBOUND_CAPACITY"
  shows "connections_ok (h\<lparr>source_connections := AList.map_entry dev f (source_connections h)\<rparr>)"
  using assms
  by (auto simp: connections_ok_def distinct_map_entry dest!: set_alist_map_entry)

lemma keeps_sockets:
  assumes ok: "source_hub_ok h"
  shows "keeps h (attach_install now dev name hello n h)" "keeps h (fst (detach_begin dev n h))"
    "keeps h (touch_source now dev h)" "keeps h (fst (send dev frame h))" "keeps h (outbound_recv dev h)"
    "keeps h (outbound_drop dev h)"
proof -
  have c: "connections_ok h" using ok by (simp add: source_hub_ok_def)
  have out: "length (source_outbound c) \<le> SOURCE_OUTBOUND_CAPACITY"
    if "(dev, c) \<in> set (source_connections h)" for c
    using c that by (auto simp: connections_ok_def)
  note entry = keeps_connections [OF ok connections_map_entry [OF c]]
  show "keeps h (attach_install now dev name hello n h)"
    using c by (intro keeps_connections [OF ok])
      (auto simp: attach_install_def Let_def connections_ok_def distinct_update dest!: set_alist_update)
  show "keeps h (fst (detach_begin dev n h))"
    using c source_keeps_refl [OF ok]
    by (auto simp: detach_begin_def connections_ok_def AList.delete_eq distinct_map_filter split: option.split
        intro!: keeps_connections [OF ok])
  show "keeps h (touch_source now dev h)"
    unfolding touch_source_def by (intro entry) (simp_all add: out)
  show "keeps h (outbound_recv dev h)"
    unfolding outbound_recv_def using out by (intro entry) (fastforce intro: le_trans)+
  show "keeps h (outbound_drop dev h)"
    unfolding outbound_drop_def by (intro entry) simp_all
  show "keeps h (fst (send dev frame h))"
  proof (cases "map_of (source_connections h) dev")
    case None
    then show ?thesis using source_keeps_refl [OF ok] by (simp add: send_def)
  next
    case (Some k)
    have "c' = k" if "(dev, c') \<in> set (source_connections h)" for c'
      using that Some c by (simp add: connections_ok_def)
    then show ?thesis
      using source_keeps_refl [OF ok] Some by (auto simp: send_def intro!: entry)
  qed
qed

lemma keeps_step: "source_step h h' \<Longrightarrow> source_hub_ok h \<Longrightarrow> keeps h h'"
proof (induction rule: source_step.induct)
  case (attach_begin h)
  then show ?case
    by (intro keeps_connections) (simp_all add: source_hub_ok_def connections_ok_def)
qed (simp_all add: keeps_sockets keeps_insert keeps_retain keeps_act keeps_push keeps_push_refused
      keeps_deliver keeps_receive keeps_drop)

theorem keeps_run: "source_step\<^sup>*\<^sup>* h h' \<Longrightarrow> source_hub_ok h \<Longrightarrow> keeps h h'"
proof (induction rule: rtranclp_induct)
  case base
  then show ?case by (rule source_keeps_refl)
next
  case (step h' h'')
  then show ?case using keeps_step keeps_ok source_keeps_trans by blast
qed

lemma source_hub_new_ok: "source_hub_ok source_hub_new"
  by (simp add: source_hub_ok_def transfers_ok_def registry_ok_def connections_ok_def source_hub_new_def)

section \<open>The operations are runs of steps\<close>

lemma expire_unchanged: "snd (expire_if_needed now t) = False \<Longrightarrow> fst (expire_if_needed now t) = t"
  by (auto simp: expire_if_needed_def expire_now_def Let_def split: grant_lifecycle.splits if_splits)

lemma put_same: "a < length (transfers h) \<Longrightarrow> put a (transfers h ! a) h = h"
  by (simp add: put_def)

lemma expire_run:
  assumes "a < length (transfers h)"
  shows "source_step\<^sup>*\<^sup>* h (put a (fst (expire_if_needed now (transfers h ! a))) h)"
proof (cases "is_expired_at (wall now) (grant (transfers h ! a))")
  case True
  then show ?thesis
    using source_step.act [OF assms, of ActExpire]
    by (simp add: expire_if_needed_def at_transfer_def r_into_rtranclp)
next
  case False
  then show ?thesis by (simp add: expire_if_needed_def put_same [OF assms])
qed

lemma registered_lt: "source_hub_ok h \<Longrightarrow> map_of (registry h) gid = Some a \<Longrightarrow> a < length (transfers h)"
  by (auto simp: source_hub_ok_def registry_ok_def dest: map_of_SomeD)

lemma on_transfer_run:
  assumes ok: "source_hub_ok h"
    and body: "\<And>a. a < length (transfers h) \<Longrightarrow> source_step\<^sup>*\<^sup>* h (put a (fst (body (transfers h ! a))) h)"
  shows "source_step\<^sup>*\<^sup>* h (fst (on_transfer now dev gid body h))"
proof (cases "map_of (registry h) gid")
  case None
  then show ?thesis by (simp add: on_transfer_def)
next
  case (Some a)
  then have a: "a < length (transfers h)" by (rule registered_lt [OF ok])
  show ?thesis
    using expire_run [OF a, of now] body [OF a] expire_unchanged [of now "transfers h ! a"] Some
    by (auto simp: on_transfer_def Let_def split: prod.splits)
qed

lemma act_run:
  assumes "a < length (transfers h)" "f (transfers h ! a) = act x (transfers h ! a)"
  shows "source_step\<^sup>*\<^sup>* h (put a (f (transfers h ! a)) h)"
  using source_step.act [OF assms(1), of x] assms(2) by (simp add: at_transfer_def r_into_rtranclp)

lemma remove_run: "source_step\<^sup>*\<^sup>* h (registry_remove gid h)"
  unfolding registry_remove_retain by (rule r_into_rtranclp) (rule source_step.retain)

lemma on_transfer_act:
  assumes "source_hub_ok h" "\<And>t. fst (body t) = act x t"
  shows "source_step\<^sup>*\<^sup>* h (fst (on_transfer now dev gid body h))"
  by (rule on_transfer_run [OF assms(1)]) (rule act_run [where f = "fst \<circ> body" and x = x, simplified], auto simp: assms(2))

lemma read_runs:
  assumes ok: "source_hub_ok h"
  shows "source_step\<^sup>*\<^sup>* h (fst (read_ready now dev gid h))"
    and "source_step\<^sup>*\<^sup>* h (fst (read_failed now dev gid e h))"
    and "source_step\<^sup>*\<^sup>* h (fst (consume_direct now dev gid h))"
    and "source_step\<^sup>*\<^sup>* h (fst (take_pending_tunnel now dev gid h))"
    and "source_step\<^sup>*\<^sup>* h (fst (finish_tunnel now dev gid h))"
proof -
  note act = on_transfer_act [OF ok, where dev = dev and gid = gid and now = now]
  show "source_step\<^sup>*\<^sup>* h (fst (read_ready now dev gid h))"
    unfolding read_ready_def by (rule act [where x = "ActReady now"]) simp
  show "source_step\<^sup>*\<^sup>* h (fst (read_failed now dev gid e h))"
    unfolding read_failed_def by (rule act [where x = "ActReadFailed e"]) simp
  have "source_step\<^sup>*\<^sup>* h (fst (on_transfer now dev gid consume_body h))"
    by (rule act [where x = ActConsume]) simp
  then show "source_step\<^sup>*\<^sup>* h (fst (consume_direct now dev gid h))"
    using remove_run by (auto simp: consume_direct_def split: prod.split sum.split intro: rtranclp_trans)
  have "source_step\<^sup>*\<^sup>* h (fst (on_transfer now dev gid (take_body now) h))"
    by (rule act [where x = "ActTake now"]) simp
  then show "source_step\<^sup>*\<^sup>* h (fst (take_pending_tunnel now dev gid h))"
    by (auto simp: take_pending_tunnel_def split: prod.split sum.split)
  have "source_step\<^sup>*\<^sup>* h (fst (on_transfer now dev gid finish_body h))"
    by (rule act [where x = ActFinish]) simp
  then show "source_step\<^sup>*\<^sup>* h (fst (finish_tunnel now dev gid h))"
    using remove_run by (auto simp: finish_tunnel_def split: prod.split sum.split intro: rtranclp_trans)
qed

lemma run_ok: "source_step\<^sup>*\<^sup>* h h' \<Longrightarrow> source_hub_ok h \<Longrightarrow> source_hub_ok h'"
  using keeps_run keeps_ok by blast

lemma push_begin_run:
  assumes ok: "source_hub_ok h"
  shows "source_step\<^sup>*\<^sup>* h (fst (push_begin now dev gid chunk h))"
proof (cases "map_of (registry h) gid")
  case None
  then show ?thesis by (simp add: push_begin_def on_transfer_def)
next
  case (Some a)
  then have a: "a < length (transfers h)" by (rule registered_lt [OF ok])
  obtain t r where p: "push_body now chunk (transfers h ! a) = (t, r)" by fastforce
  show ?thesis
  proof (cases r)
    case (Inl e)
    then have "source_step\<^sup>*\<^sup>* h (put a t h)"
      using source_step.push_refused [OF a] p by blast
    then show ?thesis
      using expire_run [OF a, of now] expire_unchanged [of now "transfers h ! a"] Some p Inl
      by (auto simp: push_begin_def on_transfer_def Let_def split: prod.splits)
  next
    case (Inr u)
    then have "source_step\<^sup>*\<^sup>* h ((put a t h)\<lparr>sending := (a, chunk) # sending h\<rparr>)"
      using source_step.push [OF a] p by auto
    then show ?thesis
      using expire_run [OF a, of now] expire_unchanged [of now "transfers h ! a"] Some p Inr
      by (auto simp: push_begin_def on_transfer_def Let_def split: prod.splits)
  qed
qed

lemma push_begin_sending:
  "push_begin now dev gid chunk h = (h1, Inr a) \<Longrightarrow> (a, chunk) \<in> set (sending h1)"
  by (auto simp: push_begin_def Let_def split: prod.splits sum.splits)

lemma push_run:
  assumes ok: "source_hub_ok h"
  shows "source_step\<^sup>*\<^sup>* h (fst (push_tunnel_chunk now dev gid chunk h))"
proof -
  obtain h1 r where b: "push_begin now dev gid chunk h = (h1, r)" by fastforce
  then have run: "source_step\<^sup>*\<^sup>* h h1" using push_begin_run [OF ok, of now dev gid chunk] by simp
  show ?thesis
  proof (cases r)
    case (Inl e)
    then show ?thesis using b run by (simp add: push_tunnel_chunk_def)
  next
    case (Inr a)
    then have "source_step h1 (fst (push_deliver a chunk h1))"
      using b push_begin_sending by (intro source_step.deliver) blast
    then show ?thesis using b run Inr by (simp add: push_tunnel_chunk_def)
  qed
qed

lemma fail_at_run: "a < length (transfers h) \<Longrightarrow> source_step\<^sup>*\<^sup>* h (fail_at e a h)"
  using act_run [of a h "\<lambda>t. fst (fail e t)" "ActFail e"] by (simp add: fail_at_def)

lemma fold_fail_run:
  "\<forall>a\<in>set as. a < length (transfers h) \<Longrightarrow> source_step\<^sup>*\<^sup>* h (fold (fail_at e) as h)"
proof (induction as arbitrary: h)
  case (Cons a as)
  then have "source_step\<^sup>*\<^sup>* h (fail_at e a h)" by (simp add: fail_at_run)
  also have "source_step\<^sup>*\<^sup>* (fail_at e a h) (fold (fail_at e) as (fail_at e a h))"
    using Cons by simp
  finally show ?case by simp
qed simp

lemma fail_device_run:
  "source_hub_ok h \<Longrightarrow> source_step\<^sup>*\<^sup>* h (fail_device_grants dev e h)"
  unfolding fail_device_grants_def
  by (rule fold_fail_run) (auto simp: source_hub_ok_def registry_ok_def)

lemma fail_pending_run: "source_hub_ok h \<Longrightarrow> source_step\<^sup>*\<^sup>* h (fail_pending gid e h)"
  using rtranclp_trans [OF fail_at_run remove_run] registered_lt
  by (auto simp: fail_pending_def split: option.split)

lemma reap_one_run:
  assumes "a < length (transfers h)"
  shows "source_step\<^sup>*\<^sup>* h (put a (fst (reap_one now (transfers h ! a))) h)"
  using expire_run [OF assms, of now] expire_unchanged [of now "transfers h ! a"]
    fail_at_run [OF assms, of stalled] put_same [OF assms]
  by (auto simp: reap_one_def fail_at_def split: prod.splits)

lemma fold_reap_run:
  "\<forall>x\<in>set xs. snd x < length (transfers h) \<Longrightarrow> source_step\<^sup>*\<^sup>* h
     (h\<lparr>transfers := fold (\<lambda>(_, a) ts. ts[a := fst (reap_one now (ts ! a))]) xs (transfers h)\<rparr>)"
proof (induction xs arbitrary: h)
  case (Cons x xs)
  let ?h = "put (snd x) (fst (reap_one now (transfers h ! snd x))) h"
  have "source_step\<^sup>*\<^sup>* h ?h" using Cons.prems by (simp add: reap_one_run)
  also have "source_step\<^sup>*\<^sup>* ?h
      (?h\<lparr>transfers := fold (\<lambda>(_, a) ts. ts[a := fst (reap_one now (ts ! a))]) xs (transfers ?h)\<rparr>)"
    using Cons.prems by (intro Cons.IH) simp
  finally show ?case by (cases x) (simp add: put_def)
qed simp

lemma reap_run: "source_hub_ok h \<Longrightarrow> source_step\<^sup>*\<^sup>* h (reap now h)"
proof -
  assume ok: "source_hub_ok h"
  define h1 where "h1 = h\<lparr>transfers :=
    fold (\<lambda>(_, a) ts. ts[a := fst (reap_one now (ts ! a))]) (registry h) (transfers h)\<rparr>"
  have "source_step\<^sup>*\<^sup>* h h1"
    unfolding h1_def using ok by (intro fold_reap_run) (auto simp: source_hub_ok_def registry_ok_def)
  also have "reap now h = h1\<lparr>registry :=
      filter (\<lambda>(_, a). snd (reap_one now (transfers h ! a))) (registry h1)\<rparr>"
    by (simp add: reap_def h1_def)
  then have "source_step\<^sup>*\<^sup>* h1 (reap now h)"
    by (metis r_into_rtranclp source_step.retain)
  finally show ?thesis .
qed

lemma send_run: "source_step\<^sup>*\<^sup>* h (fst (send dev frame h))"
  by (rule r_into_rtranclp) (rule source_step.send)

lemma register_run:
  assumes ok: "source_hub_ok h" and g: "read_length g < U64_MAX"
  shows "source_step\<^sup>*\<^sup>* h (fst (register_pending_read now dev g h))"
proof (cases "precheck now dev g h")
  case (Inl e)
  then show ?thesis by (simp add: register_pending_read_def)
next
  case (Inr u)
  then have "grant_validate g = Inr ()"
    by (simp add: precheck_def split: sum.splits)
  then have "source_step\<^sup>*\<^sup>* (reap now h) (fst (insert_pending now dev g (reap now h)))"
    using g by (intro r_into_rtranclp source_step.insert)
  then show ?thesis
    using reap_run [OF ok, of now] Inr by (auto simp: register_pending_read_def intro: rtranclp_trans)
qed

lemma issue_run:
  assumes ok: "source_hub_ok h" and r: "read_length request < U64_MAX"
  shows "source_step\<^sup>*\<^sup>* h (fst (issue_grant now gid dev request h))"
proof -
  let ?g = "grant_of_request gid request"
  obtain h1 r1 where reg: "register_pending_read now dev ?g h = (h1, r1)" by fastforce
  have "read_length ?g < U64_MAX"
    using r by (simp add: grant_of_request_def source_read_request.defs source_read_grant.defs)
  from register_run [OF ok this, of now dev] have h1: "source_step\<^sup>*\<^sup>* h h1" by (simp add: reg)
  obtain h2 sent where s: "send dev (Read ?g) h1 = (h2, sent)" by fastforce
  have h2: "source_step\<^sup>*\<^sup>* h h2" using send_run [of h1 dev "Read ?g"] h1 s by simp
  then have "source_step\<^sup>*\<^sup>* h (fail_pending gid e h2)" for e
    using fail_pending_run [OF run_ok [OF h2 ok]] rtranclp_trans by fast
  then show ?thesis
    using h1 h2 by (simp add: issue_grant_def Let_def reg s split: sum.split)
qed

lemma fold_fail_epochs: "source_epochs (fold (fail_at e) as h) = source_epochs h"
  by (induction as arbitrary: h) (simp_all add: fail_at_def)

lemma attach_run:
  assumes ok: "source_hub_ok h"
  shows "source_step\<^sup>*\<^sup>* h (fst (attach now dev name hello h))"
proof -
  define n where "n = (source_epochs h + 1) mod 2 ^ 64"
  define h1 where "h1 = h\<lparr>source_epochs := n\<rparr>"
  define h2 where "h2 = fail_device_grants dev (lit ''source worker connection replaced'') h1"
  have h1: "source_step\<^sup>*\<^sup>* h h1"
    unfolding h1_def n_def by (rule r_into_rtranclp) (rule source_step.attach_begin)
  then have h2: "source_step\<^sup>*\<^sup>* h1 h2"
    unfolding h2_def using run_ok ok by (blast intro: fail_device_run)
  have "source_epochs h2 = n"
    unfolding h2_def fail_device_grants_def fold_fail_epochs by (simp add: h1_def)
  then have "source_step h2 (attach_install now dev name hello n h2)"
    by (intro source_step.attach_install) (rule eq_refl, rule sym)
  moreover have "fst (attach now dev name hello h) = attach_install now dev name hello n h2"
    unfolding attach_def attach_begin_def Let_def n_def [symmetric] h1_def [symmetric] h2_def [symmetric]
    by simp
  ultimately show ?thesis using h1 h2 by (simp add: rtranclp.rtrancl_into_rtrancl)
qed

lemma detach_run:
  assumes ok: "source_hub_ok h"
  shows "source_step\<^sup>*\<^sup>* h (fst (detach dev n h))"
proof -
  have s: "source_step\<^sup>*\<^sup>* h (fst (detach_begin dev n h))"
    by (rule r_into_rtranclp) (rule source_step.detach_begin)
  then have "source_step\<^sup>*\<^sup>* h (detach_fail dev (fst (detach_begin dev n h)))"
    unfolding detach_fail_def using fail_device_run [OF run_ok [OF s ok]] rtranclp_trans by fast
  with s show ?thesis by (auto simp: detach_def split: prod.split)
qed

end
