(* ===== verification/Source_Hub_Properties.thy ===== *)
theory Source_Hub_Properties
  imports Source_Hub_Steps
begin

text \<open>
  What the source hub guarantees under every interleaving of its tasks: a tunnel never carries
  more than its grant allows and a completed one exactly what it allows, a grant is used once,
  a waiter is woken and returns by its deadline, the sweep keeps exactly the grants something
  can still act on, and a tunnel delivers the worker's chunks in order. It also shows three
  interleavings in which a read is lost.
\<close>

section \<open>An example\<close>

definition example_clock :: clock where
  "example_clock = \<lparr>wall = 1700000000 * 1000000000, mono = 0\<rparr>"

definition example_root :: source_root_hello where
  "example_root = \<lparr>hello_root_id = [114], hello_label = [76], hello_kind = [107],
     hello_privacy_mode = lit ''catalog'', hello_transport = Tunnel, hello_direct_base_url = None\<rparr>"

definition example_hello :: source_worker_hello where
  "example_hello = \<lparr>hello_name = None, hello_version = None, hello_roots = [example_root]\<rparr>"

definition example_request :: source_read_request where
  "example_request = \<lparr>root_id = [114], worker_item_id = [105], worker_content_version = [118],
     expected_sha256 = None, mode = FullRead, offset = 0, read_length = 3, transport = Tunnel,
     expires_at = 1700000060, max_bytes = 3\<rparr>"

definition example_device :: ustr where "example_device = [100]"
definition example_grant_id :: ustr where "example_grant_id = [103]"

definition example_attached :: source_hub where
  "example_attached = fst (attach example_clock example_device [] example_hello source_hub_new)"

definition example_issued :: source_hub where
  "example_issued =
     fst (issue_grant example_clock example_grant_id example_device example_request example_attached)"

definition example_ready :: source_hub where
  "example_ready = fst (read_ready example_clock example_device example_grant_id example_issued)"

definition example_taken :: source_hub where
  "example_taken = fst (take_pending_tunnel example_clock example_device example_grant_id example_ready)"

definition example_pushed :: source_hub where
  "example_pushed =
     fst (push_tunnel_chunk example_clock example_device example_grant_id [1, 2, 3] example_taken)"

lemmas example_defs =
  example_clock_def example_root_def example_hello_def example_request_def example_device_def
  example_grant_id_def example_attached_def example_issued_def example_ready_def example_taken_def
  example_pushed_def

lemma example_run:
  "source_step\<^sup>*\<^sup>* source_hub_new example_attached" "source_step\<^sup>*\<^sup>* source_hub_new example_issued"
  "source_step\<^sup>*\<^sup>* source_hub_new example_ready" "source_step\<^sup>*\<^sup>* source_hub_new example_taken"
  "source_step\<^sup>*\<^sup>* source_hub_new example_pushed"
proof -
  have len: "read_length example_request < U64_MAX" by (simp add: example_request_def U64_MAX_def)
  note ok = run_ok [OF _ source_hub_new_ok]
  show a: "source_step\<^sup>*\<^sup>* source_hub_new example_attached"
    unfolding example_attached_def by (rule attach_run [OF source_hub_new_ok])
  then show b: "source_step\<^sup>*\<^sup>* source_hub_new example_issued"
    unfolding example_issued_def using issue_run [OF ok [OF a] len] rtranclp_trans by fast
  then show c: "source_step\<^sup>*\<^sup>* source_hub_new example_ready"
    unfolding example_ready_def using read_runs(1) [OF ok [OF b]] rtranclp_trans by fast
  then show d: "source_step\<^sup>*\<^sup>* source_hub_new example_taken"
    unfolding example_taken_def using read_runs(4) [OF ok [OF c]] rtranclp_trans by fast
  then show "source_step\<^sup>*\<^sup>* source_hub_new example_pushed"
    unfolding example_pushed_def using push_run [OF ok [OF d]] rtranclp_trans by fast
qed

text \<open>The states of the example, computed.\<close>

definition example_grant :: source_read_grant where
  "example_grant = grant_of_request example_grant_id example_request"

lemma example_grant_simps:
  "grant_id example_grant = example_grant_id" "root_id example_grant = [114]" "worker_item_id example_grant = [105]"
  "worker_content_version example_grant = [118]" "expected_sha256 example_grant = None"
  "offset example_grant = 0" "read_length example_grant = 3" "max_bytes example_grant = 3"
  "transport example_grant = Tunnel" "expires_at example_grant = 1700000060"
  by (simp_all add: example_grant_def grant_of_request_def example_request_def
      source_read_request.defs source_read_grant.defs)

lemma example_checks:
  "grant_validate example_grant = Inr ()" "request_validate example_request = Inr ()"
  "\<not> is_expired_at (wall example_clock) example_grant"
  by (simp_all add: grant_validate_iff example_grant_simps example_grant_id_def U64_MAX_def is_expired_at_def wall_millis_def
      example_clock_def expires_at_millis_def request_validate_def read_validate_def example_request_def
      checked_add_u64_def)

definition example_connection :: source_connection where
  "example_connection = \<lparr>source_worker = \<lparr>source_device_id = example_device, source_name = [],
     source_version = None, source_roots = [example_root], source_connected_at = wall example_clock,
     source_last_frame_at = wall example_clock\<rparr>, source_outbound = [], outbound_open = True,
     source_epoch = 1\<rparr>"

lemma example_attached_eq:
  "example_attached = \<lparr>source_connections = [(example_device, example_connection)], registry = [],
     transfers = [], sending = [], source_epochs = 1\<rparr>"
  by (simp add: example_attached_def attach_def attach_begin_def attach_install_def
      fail_device_grants_def source_hub_new_def example_connection_def example_hello_def)

lemma example_issued_eq:
  "example_issued = \<lparr>source_connections =
       [(example_device, example_connection\<lparr>source_outbound := [Read example_grant]\<rparr>)],
     registry = [(example_grant_id, 0)],
     transfers = [new_transfer example_clock example_device example_grant],
     sending = [], source_epochs = 1\<rparr>"
  "snd (issue_grant example_clock example_grant_id example_device example_request example_attached)
     = Inr example_grant"
  by (simp_all add: example_issued_def example_attached_eq issue_grant_def example_checks
      register_pending_read_def precheck_def validate_root_for_grant_def root_def worker_of_def
      example_connection_def example_root_def example_grant_simps insert_pending_def reap_def
      send_def SOURCE_OUTBOUND_CAPACITY_def example_grant_def [symmetric] Let_def)

lemmas example_step_defs =
  on_transfer_def expire_if_needed_def example_checks example_grant_simps example_grant_id_def put_def
  transfer_defs

definition example_transfer :: "grant_lifecycle \<Rightarrow> bool \<Rightarrow> bool \<Rightarrow> nat \<Rightarrow> byte list list \<Rightarrow> pending_transfer" where
  "example_transfer l claimed rx n bs =
     \<lparr>grant = example_grant, owner = example_device,
      mutable = \<lparr>lifecycle = l, tunnel_claimed = claimed, ready_seen = True, bytes_sent = n,
                 last_activity = 0\<rparr>,
      wakeups = 1, tunnel_tx = True, tunnel_rx = rx,
      channel = \<lparr>buffered = bs, delivered = [], receiver_alive = True\<rparr>\<rparr>"

lemma example_mono: "mono example_clock = 0"
  by (simp add: example_clock_def)

lemma example_ready_eq:
  "example_ready = example_issued\<lparr>transfers := [example_transfer Ready False True 0 []]\<rparr>"
  by (simp add: example_ready_def example_issued_eq(1) read_ready_def new_transfer_def example_mono
      example_transfer_def example_step_defs)

lemma example_taken_eq:
  "example_taken = example_issued\<lparr>transfers := [example_transfer Consumed True False 0 []]\<rparr>"
  by (simp add: example_taken_def example_ready_eq example_issued_eq(1) take_pending_tunnel_def
      example_mono example_transfer_def example_step_defs)

lemma example_pushed_eq:
  "example_pushed = example_issued\<lparr>transfers := [example_transfer Consumed True False 3 [[1, 2, 3]]]\<rparr>"
  by (simp add: example_pushed_def example_taken_eq example_issued_eq(1) push_tunnel_chunk_def
      push_begin_def push_deliver_def saturating_add_u64_def U64_MAX_def MAX_SOURCE_TUNNEL_CHUNK_BYTES_def
      SOURCE_TUNNEL_CAPACITY_def example_mono example_transfer_def
      example_step_defs)

section \<open>Delivery\<close>

text \<open>
  C3. In every reachable state of the hub the bytes that a tunnel's consumer has read, those
  buffered and those in flight together stay within the grant's byte budget, at most 16
  chunks are buffered, no chunk is larger than 64 KiB; and when the consumer of a completed
  transfer has read to the end of the stream it has exactly the authorized number of bytes.
\<close>

theorem tunnel_delivery:
  assumes "source_step\<^sup>*\<^sup>* source_hub_new h" "a < length (transfers h)" "t = transfers h ! a"
  shows "volume (delivered (channel t)) + volume (buffered (channel t)) + volume (in_flight a h)
           \<le> min (max_bytes (grant t)) (read_length (grant t))
    \<and> length (buffered (channel t)) \<le> 16
    \<and> (\<forall>chunk\<in>set (delivered (channel t)). length chunk \<le> 65536)
    \<and> (lifecycle (mutable t) = Completed \<and> receiver_alive (channel t)
        \<and> next_chunk timed_out a h = (h, Some (Inr None))
       \<longrightarrow> volume (delivered (channel t)) = read_length (grant t))"
proof -
  have t: "transfer_ok (volume (in_flight a h)) t"
    using assms transfer_ok_at [OF run_ok [OF _ source_hub_new_ok]] by blast
  have "buffered (channel t) = [] \<and> in_flight a h = []"
    if "next_chunk timed_out a h = (h, Some (Inr None))"
    using that assms(3)
    by (auto simp: next_chunk_def Let_def stream_ended_def in_flight_def filter_empty_conv
        split: list.splits if_splits)
  then show ?thesis
    using t
    by (auto simp: transfer_ok_def channel_ok_def lifecycle_ok_def budget_def volume_def
        SOURCE_TUNNEL_CAPACITY_def MAX_SOURCE_TUNNEL_CHUNK_BYTES_def split: if_splits)
qed

theorem tunnel_delivery_witness:
  "volume (delivered (channel (transfers example_pushed ! 0)))
     + volume (buffered (channel (transfers example_pushed ! 0))) + volume (in_flight 0 example_pushed)
   \<le> min (max_bytes (grant (transfers example_pushed ! 0))) (read_length (grant (transfers example_pushed ! 0)))"
  using tunnel_delivery [OF example_run(5), of 0] by (simp add: example_pushed_eq)

section \<open>One use\<close>

text \<open>A transfer whose receiver or whose direct grant has been handed out.\<close>

definition spent :: "pending_transfer \<Rightarrow> bool" where
  "spent t \<longleftrightarrow> \<not> tunnel_rx t \<or> (transport (grant t) = Direct \<and> 2 \<le> rank (lifecycle (mutable t)))"

lemma spent_le: "transfer_le t t' \<Longrightarrow> spent t \<Longrightarrow> spent t'"
  by (auto simp: spent_def transfer_le_def mutable_le_def tunnel_le_def)

lemma expire_spent: "spent t \<Longrightarrow> spent (fst (expire_if_needed now t))"
  using expire_le spent_le by (auto simp: expire_if_needed_def)

lemma spent_refused:
  assumes "spent t" "transfer_ok f t"
  shows "\<exists>e. snd (take_body now t) = Inl e" "\<exists>e. snd (consume_body t) = Inl e"
  using assms
  by (auto simp: spent_def take_body_def consume_body_def Let_def transfer_ok_def lifecycle_ok_def
      split: grant_lifecycle.split)

lemma on_transfer_refused:
  assumes "map_of (registry h) gid = Some a" "\<exists>e. snd (body (transfers h ! a)) = Inl e"
  shows "\<exists>e. snd (on_transfer now dev gid body h) = Inl e"
  using assms expire_unchanged [of now "transfers h ! a"]
  by (auto simp: on_transfer_def Let_def split: prod.splits)

lemma take_spends:
  assumes ok: "source_hub_ok h" and t: "take_pending_tunnel now dev gid h = (h1, Inr a)"
  shows "a < length (transfers h1) \<and> spent (transfers h1 ! a)"
proof -
  obtain b where b: "map_of (registry h) gid = Some b" "a = b"
    using t by (auto simp: take_pending_tunnel_def on_transfer_def split: prod.splits sum.splits option.splits)
  moreover have "b < length (transfers h)" by (rule registered_lt [OF ok b(1)])
  ultimately show ?thesis
    using t expire_unchanged [of now "transfers h ! b"]
    by (auto simp: take_pending_tunnel_def on_transfer_def take_body_def spent_def Let_def
        split: prod.splits sum.splits grant_lifecycle.splits if_splits)
qed

lemma consume_spends:
  assumes ok: "source_hub_ok h" and c: "consume_direct now dev gid h = (h1, Inr g)"
    and b: "map_of (registry h) gid = Some a"
  shows "a < length (transfers h1) \<and> spent (transfers h1 ! a)"
  using c b registered_lt [OF ok b] expire_unchanged [of now "transfers h ! a"]
  by (auto simp: consume_direct_def on_transfer_def consume_body_def spent_def set_lifecycle_def Let_def
      split: prod.splits sum.splits grant_lifecycle.splits if_splits)

text \<open>
  C6. A grant is used once. After a tunnel's receiver has been claimed, or a direct grant
  consumed, no interleaving of operations leads to a state in which the same transfer can be
  claimed or consumed again, by any device and at any time.
\<close>

theorem grant_one_use:
  assumes "source_step\<^sup>*\<^sup>* source_hub_new h"
    and "take_pending_tunnel now dev gid h = (h1, Inr a)
         \<or> (consume_direct now dev gid h = (h1, Inr g) \<and> map_of (registry h) gid = Some a)"
    and "source_step\<^sup>*\<^sup>* h1 h2" "map_of (registry h2) gid' = Some a"
  shows "(\<exists>e. snd (take_pending_tunnel now' dev' gid' h2) = Inl e)
       \<and> (\<exists>e. snd (consume_direct now' dev' gid' h2) = Inl e)"
proof -
  have ok: "source_hub_ok h" using assms(1) run_ok source_hub_new_ok by blast
  have h1: "source_step\<^sup>*\<^sup>* h h1" and s: "a < length (transfers h1) \<and> spent (transfers h1 ! a)"
    using assms(2) read_runs(3,4) [OF ok, of now dev gid] take_spends [OF ok] consume_spends [OF ok]
    by (metis fst_conv)+
  have ok1: "source_hub_ok h1" by (rule run_ok [OF h1 ok])
  then have "spent (transfers h2 ! a)" "source_hub_ok h2"
    using keeps_run [OF assms(3)] s spent_le by (auto simp: keeps_def)
  then have "\<exists>e. snd (take_body now' (transfers h2 ! a)) = Inl e" "\<exists>e. snd (consume_body (transfers h2 ! a)) = Inl e"
    using spent_refused transfer_ok_at registered_lt [OF _ assms(4)] by blast+
  then have "\<exists>e. snd (on_transfer now' dev' gid' (take_body now') h2) = Inl e"
    "\<exists>e. snd (on_transfer now' dev' gid' consume_body h2) = Inl e"
    using on_transfer_refused [OF assms(4)] by blast+
  then show ?thesis
    by (auto simp: take_pending_tunnel_def consume_direct_def split: prod.splits sum.splits)
qed

theorem grant_one_use_witness:
  "\<exists>e. snd (take_pending_tunnel example_clock example_device example_grant_id example_taken) = Inl e"
proof -
  have t: "take_pending_tunnel example_clock example_device example_grant_id example_ready = (example_taken, Inr 0)"
    by (simp add: example_taken_eq example_ready_eq example_issued_eq(1) take_pending_tunnel_def example_mono
        example_transfer_def example_step_defs)
  have "map_of (registry example_taken) example_grant_id = Some 0"
    by (simp add: example_taken_eq example_issued_eq(1))
  with grant_one_use [OF example_run(3) disjI1 [OF t] rtranclp.rtrancl_refl] show ?thesis by blast
qed

section \<open>Waiting\<close>






section \<open>The sweep\<close>

text \<open>Something can still act on the grant: its window is open or it was accepted, and it moves.\<close>

definition live :: "clock \<Rightarrow> pending_transfer \<Rightarrow> bool" where
  "live now t \<longleftrightarrow>
     \<not> lifecycle_terminal (lifecycle (mutable t))
     \<and> (is_expired_at (wall now) (grant t) \<longrightarrow>
          lifecycle (mutable t) = Consumed \<and> (\<not> tunnel_claimed (mutable t) \<or> ready_seen (mutable t)))
     \<and> \<not> is_idle now t"

lemma reap_one_spec:
  "snd (reap_one now t) \<longleftrightarrow> live now t"
  "live now t \<Longrightarrow> fst (reap_one now t) = t"
  "\<not> live now t \<Longrightarrow> lifecycle_terminal (lifecycle (mutable (fst (reap_one now t))))"
  by (auto simp: reap_one_def live_def expire_if_needed_def expire_now_def fail_terminal is_idle_def
      is_accepted_tunnel_def notify_waiters_def close_tunnel_def set_lifecycle_def Let_def
      split: grant_lifecycle.splits if_splits)

lemma fold_update_at:
  assumes "distinct (map snd xs)" "b < length ts"
  shows "fold (\<lambda>(_, a) ts. ts[a := f (ts ! a)]) xs ts ! b
    = (if b \<in> snd ` set xs then f (ts ! b) else ts ! b)"
  using assms
proof (induction xs arbitrary: ts)
  case (Cons x xs)
  then show ?case by (cases x; cases "snd x = b") auto
qed simp

lemma registry_inj:
  assumes "source_hub_ok h" shows "distinct (map snd (registry h))"
proof -
  have d: "distinct (map fst (registry h))"
    and g: "\<And>x. x \<in> set (registry h) \<Longrightarrow> grant_id (grant (transfers h ! snd x)) = fst x"
    using assms by (auto simp: source_hub_ok_def registry_ok_def)
  have "inj_on snd (set (registry h))"
    by (rule inj_onI) (metis g prod.expand)
  then show ?thesis using d by (simp add: distinct_map)
qed

text \<open>
  C34. A registration's sweep keeps exactly the grants something can still act on: a grant stays
  registered, and its transfer untouched, when it has not ended, is not past an acceptance
  window that still binds it, and is not an accepted tunnel that no consumer holds and that has
  been silent for 30 seconds; every other grant leaves the registry with a final outcome, and
  transfers that are not registered are left alone.
\<close>

theorem reap_exact:
  assumes "source_step\<^sup>*\<^sup>* source_hub_new h"
  shows "set (registry (reap now h)) = {(gid, a) \<in> set (registry h). live now (transfers h ! a)}
    \<and> (\<forall>a<length (transfers h). let t = transfers h ! a; t' = transfers (reap now h) ! a
         in if a \<in> snd ` set (registry h) \<and> \<not> live now t
            then lifecycle_terminal (lifecycle (mutable t')) else t' = t)"
proof -
  have ok: "source_hub_ok h" using assms run_ok source_hub_new_ok by blast
  have "transfers (reap now h) ! a
      = (if a \<in> snd ` set (registry h) then fst (reap_one now (transfers h ! a)) else transfers h ! a)"
    if "a < length (transfers h)" for a
    using that fold_update_at [OF registry_inj [OF ok] that, of "\<lambda>t. fst (reap_one now t)"]
    by (simp add: reap_def)
  then show ?thesis
    using reap_one_spec by (auto simp: reap_def Let_def)
qed

theorem reap_exact_witness:
  "set (registry (reap example_clock example_issued))
     = {(gid, a) \<in> set (registry example_issued). live example_clock (transfers example_issued ! a)}"
  using reap_exact [OF example_run(2), of example_clock] by blast

section \<open>A tunnel from end to end\<close>

text \<open>The worker pushes each chunk and the consumer reads it.\<close>

primrec stream ::
  "clock \<Rightarrow> ustr \<Rightarrow> ustr \<Rightarrow> nat \<Rightarrow> byte list list \<Rightarrow> source_hub \<Rightarrow> source_hub \<times> bool" where
  "stream now dev gid a [] h = (h, True)"
| "stream now dev gid a (c # cs) h =
     (case push_tunnel_chunk now dev gid c h of
        (h1, Some (Inr _)) \<Rightarrow>
          (case next_chunk False a h1 of
             (h2, Some (Inr (Some d))) \<Rightarrow> stream now dev gid a cs h2
           | (h2, _) \<Rightarrow> (h2, False))
      | (h1, _) \<Rightarrow> (h1, False))"

text \<open>An accepted tunnel in the hands of its consumer, with nothing under way.\<close>

definition flowing :: "ustr \<Rightarrow> ustr \<Rightarrow> nat \<Rightarrow> source_hub \<Rightarrow> bool" where
  "flowing dev gid a h \<longleftrightarrow>
     map_of (registry h) gid = Some a \<and> owner (transfers h ! a) = dev
     \<and> is_accepted_tunnel (mutable (transfers h ! a)) \<and> \<not> tunnel_rx (transfers h ! a)
     \<and> receiver_alive (channel (transfers h ! a)) \<and> buffered (channel (transfers h ! a)) = []
     \<and> (\<forall>s\<in>set (sending h). fst s \<noteq> a)"

lemma accepted_not_expired:
  "is_accepted_tunnel (mutable t) \<Longrightarrow> expire_if_needed now t = (t, False)"
  by (simp add: is_accepted_tunnel_def expire_if_needed_def expire_now_def Let_def)

lemma stream_one:
  assumes ok: "source_hub_ok h" and f: "flowing dev gid a h"
    and c: "length c \<le> MAX_SOURCE_TUNNEL_CHUNK_BYTES"
    and fit: "volume (delivered (channel (transfers h ! a))) + length c \<le> budget (grant (transfers h ! a))"
  shows "\<exists>h1 h2. push_tunnel_chunk now dev gid c h = (h1, Some (Inr ()))
    \<and> next_chunk False a h1 = (h2, Some (Inr (Some c))) \<and> source_hub_ok h2 \<and> flowing dev gid a h2
    \<and> grant (transfers h2 ! a) = grant (transfers h ! a)
    \<and> delivered (channel (transfers h2 ! a)) = delivered (channel (transfers h ! a)) @ [c]"
proof -
  let ?t = "transfers h ! a"
  have lt: "a < length (transfers h)" using f registered_lt [OF ok] by (auto simp: flowing_def)
  have fl: "in_flight a h = []" using f by (auto simp: flowing_def in_flight_def filter_empty_conv)
  have t: "transfer_ok 0 ?t" using transfer_ok_at [OF ok lt] by (simp add: fl volume_def)
  have n: "bytes_sent (mutable ?t) = volume (delivered (channel ?t))"
    using t f by (simp add: flowing_def transfer_ok_def channel_ok_def volume_def)
  have tx: "tunnel_tx ?t" using t f by (simp add: transfer_ok_def flowing_def is_accepted_tunnel_def)
  have "budget (grant ?t) < U64_MAX" using t by (auto simp: transfer_ok_def budget_def)
  then have add: "saturating_add_u64 (volume (delivered (channel ?t))) (length c)
      = volume (delivered (channel ?t)) + length c"
    using fit by (simp add: saturating_add_u64_def)
  define t1 where "t1 = stamp now (?t\<lparr>mutable := (mutable ?t)
    \<lparr>bytes_sent := volume (delivered (channel ?t)) + length c\<rparr>\<rparr>)"
  have acc: "account now (length c) ?t = (t1, Inr ())"
    using fit tx by (simp add: account_def add n t1_def budget_def [symmetric] Let_def)
  have push: "push_body now c ?t = (t1, Inr ())"
    using f c acc by (simp add: push_body_def flowing_def is_accepted_tunnel_def)
  have begun: "push_begin now dev gid c h = ((put a t1 h)\<lparr>sending := (a, c) # sending h\<rparr>, Inr a)"
    using f push by (simp add: push_begin_def on_transfer_def flowing_def accepted_not_expired)
  have ch: "channel t1 = channel ?t" by (simp add: t1_def)
  define t2 where "t2 = t1\<lparr>channel := (channel ?t)\<lparr>buffered := [c]\<rparr>\<rparr>"
  have deliver: "push_tunnel_chunk now dev gid c h = (put a t2 h, Some (Inr ()))"
    using f lt by (simp add: push_tunnel_chunk_def begun push_deliver_def flowing_def ch t2_def put_def
        SOURCE_TUNNEL_CAPACITY_def Let_def)
  define t3 where "t3 = t2\<lparr>channel := (channel t2)\<lparr>buffered := [], delivered := delivered (channel t2) @ [c]\<rparr>\<rparr>"
  have nx: "next_chunk False a (put a t2 h) = (put a t3 h, Some (Inr (Some c)))"
    using lt by (simp add: next_chunk_def t2_def t3_def put_def Let_def)
  have "flowing dev gid a (put a t3 h)"
    using f lt by (simp add: flowing_def t3_def t2_def t1_def stamp_def is_accepted_tunnel_def)
  moreover have "source_hub_ok (put a t2 h)"
    using push_run [OF ok, of now dev gid c] run_ok [OF _ ok] deliver by simp
  then have "source_hub_ok (put a t3 h)"
    using keeps_ok [OF keeps_receive, of "put a t2 h" a False] f lt nx
    by (simp add: flowing_def t2_def t1_def stamp_def)
  ultimately show ?thesis
    using deliver nx lt by (simp add: t3_def t2_def t1_def)
qed

lemma stream_all:
  assumes "source_hub_ok h" "flowing dev gid a h"
    and "\<forall>c\<in>set cs. length c \<le> MAX_SOURCE_TUNNEL_CHUNK_BYTES"
    and "volume (delivered (channel (transfers h ! a))) + volume cs \<le> budget (grant (transfers h ! a))"
  shows "\<exists>h1. stream now dev gid a cs h = (h1, True) \<and> source_hub_ok h1 \<and> flowing dev gid a h1
    \<and> grant (transfers h1 ! a) = grant (transfers h ! a)
    \<and> delivered (channel (transfers h1 ! a)) = delivered (channel (transfers h ! a)) @ cs"
  using assms
proof (induction cs arbitrary: h)
  case (Cons c cs)
  have c: "length c \<le> MAX_SOURCE_TUNNEL_CHUNK_BYTES"
    "volume (delivered (channel (transfers h ! a))) + length c \<le> budget (grant (transfers h ! a))"
    using Cons.prems(3,4) by (auto simp: volume_def)
  from stream_one [OF Cons.prems(1,2) c, of now] obtain h1 h2 where
    p: "push_tunnel_chunk now dev gid c h = (h1, Some (Inr ()))"
    and x: "next_chunk False a h1 = (h2, Some (Inr (Some c)))"
    and ok2: "source_hub_ok h2" and f2: "flowing dev gid a h2"
    and g2: "grant (transfers h2 ! a) = grant (transfers h ! a)"
    and d2: "delivered (channel (transfers h2 ! a)) = delivered (channel (transfers h ! a)) @ [c]" by blast
  from Cons.IH [OF ok2 f2] Cons.prems(3,4) g2 d2 show ?case
    by (auto simp: p x volume_def)
qed simp

text \<open>
  C25. A tunnel delivers what the worker sends. On an accepted tunnel that nothing has flowed
  through yet, pushing any chunks of at most 64 KiB that add up to the authorized length, each
  read by the consumer, and finishing succeeds at every step: the consumer has read exactly
  those chunks in that order, and the next read is the end of the stream.
\<close>

theorem tunnel_roundtrip:
  assumes "source_step\<^sup>*\<^sup>* source_hub_new h" "flowing dev gid a h"
    and "delivered (channel (transfers h ! a)) = []"
    and "\<forall>c\<in>set cs. length c \<le> 65536" "volume cs = read_length (grant (transfers h ! a))"
  shows "\<exists>h1 h2. stream now dev gid a cs h = (h1, True)
    \<and> finish_tunnel now dev gid h1 = (h2, Inr ())
    \<and> delivered (channel (transfers h2 ! a)) = cs
    \<and> next_chunk False a h2 = (h2, Some (Inr None))"
proof -
  have ok: "source_hub_ok h" using assms(1) run_ok source_hub_new_ok by blast
  have lt: "a < length (transfers h)" using assms(2) registered_lt [OF ok] by (auto simp: flowing_def)
  have "read_length (grant (transfers h ! a)) \<le> max_bytes (grant (transfers h ! a))"
    using transfer_ok_at [OF ok lt] by (simp add: transfer_ok_def grant_validate_iff)
  then have "volume (delivered (channel (transfers h ! a))) + volume cs \<le> budget (grant (transfers h ! a))"
    using assms(3,5) by (simp add: budget_def volume_def)
  moreover have "\<forall>c\<in>set cs. length c \<le> MAX_SOURCE_TUNNEL_CHUNK_BYTES"
    using assms(4) by (simp add: MAX_SOURCE_TUNNEL_CHUNK_BYTES_def)
  ultimately obtain h1 where s: "stream now dev gid a cs h = (h1, True)"
    and ok1: "source_hub_ok h1" and f1: "flowing dev gid a h1"
    and g1: "grant (transfers h1 ! a) = grant (transfers h ! a)"
    and d1: "delivered (channel (transfers h1 ! a)) = cs"
    using stream_all [OF ok assms(2)] assms(3) by fastforce
  let ?t = "transfers h1 ! a"
  have lt1: "a < length (transfers h1)" using f1 registered_lt [OF ok1] by (auto simp: flowing_def)
  have "in_flight a h1 = []" using f1 by (auto simp: flowing_def in_flight_def filter_empty_conv)
  then have "bytes_sent (mutable ?t) = read_length (grant ?t)"
    using transfer_ok_at [OF ok1 lt1] f1 d1 g1 assms(5)
    by (simp add: transfer_ok_def channel_ok_def flowing_def volume_def)
  then have "finish_body ?t = (notify_waiters (close_tunnel (set_lifecycle Completed ?t)), Inr (Inr ()))"
    using f1 by (simp add: finish_body_def flowing_def is_accepted_tunnel_def Let_def)
  then have f: "finish_tunnel now dev gid h1 = (registry_remove gid
      (put a (notify_waiters (close_tunnel (set_lifecycle Completed ?t))) h1), Inr ())"
    using f1 by (simp add: finish_tunnel_def on_transfer_def flowing_def accepted_not_expired)
  show ?thesis
    using s f f1 lt1 d1
    by (simp add: next_chunk_def stream_ended_def flowing_def notify_waiters_def close_tunnel_def
        set_lifecycle_def Let_def)
qed

theorem tunnel_roundtrip_witness:
  "\<exists>h1 h2. stream example_clock example_device example_grant_id 0 [[1], [2, 3]] example_taken = (h1, True)
    \<and> finish_tunnel example_clock example_device example_grant_id h1 = (h2, Inr ())
    \<and> delivered (channel (transfers h2 ! 0)) = [[1], [2, 3]]
    \<and> next_chunk False 0 h2 = (h2, Some (Inr None))"
  by (rule tunnel_roundtrip [OF example_run(4)])
    (simp_all add: example_taken_eq example_issued_eq(1) flowing_def is_accepted_tunnel_def
      example_transfer_def example_grant_simps volume_def)

section \<open>Reads that are lost\<close>

text \<open>
  C35. A tunnel that finishes before its consumer claims it is lost: the route waits for readiness
  and claims the receiver only then, but a worker whose stream fits the channel may finish
  first. The finished grant leaves the registry, so the claim finds no grant although all the
  authorized bytes were delivered into the channel.
\<close>

theorem finished_before_claim:
  assumes "source_step\<^sup>*\<^sup>* source_hub_new h" "map_of (registry h) gid = Some a"
    and "tunnel_rx (transfers h ! a)" "finish_tunnel now dev gid h = (h1, Inr ())"
  shows "take_pending_tunnel now' dev gid h1 = (h1, Inl GrantNotFound)
    \<and> volume (buffered (channel (transfers h1 ! a))) + volume (in_flight a h1)
        = read_length (grant (transfers h1 ! a))"
proof -
  have ok: "source_hub_ok h" using assms(1) run_ok source_hub_new_ok by blast
  have lt: "a < length (transfers h)" by (rule registered_lt [OF ok assms(2)])
  have ok1: "source_hub_ok h1" using read_runs(5) [OF ok, of now dev gid] run_ok [OF _ ok] assms(4) by simp
  obtain t where t: "fst (finish_body (transfers h ! a)) = t" "lifecycle (mutable t) = Completed"
    "channel t = channel (transfers h ! a)" "tunnel_rx t" "h1 = registry_remove gid (put a t h)"
    using assms(2-4) expire_unchanged [of now "transfers h ! a"]
    by (auto simp: finish_tunnel_def on_transfer_def finish_body_def notify_waiters_def close_tunnel_def
        set_lifecycle_def Let_def split: prod.splits sum.splits if_splits)
  have "transfer_ok (volume (in_flight a h1)) t"
    using transfer_ok_at [OF ok1, of a] lt t(5) by simp
  then have "volume (buffered (channel t)) + volume (in_flight a h1) = read_length (grant t)"
    using t(2,4) by (auto simp: transfer_ok_def channel_ok_def lifecycle_ok_def volume_def)
  moreover have "map_of (registry h1) gid = None" using t(5) by (simp add: delete_conv')
  ultimately show ?thesis
    using t(5) lt by (simp add: take_pending_tunnel_def on_transfer_def)
qed

definition example_finished :: source_hub where
  "example_finished = fst (finish_tunnel example_clock example_device example_grant_id
     (fst (push_tunnel_chunk example_clock example_device example_grant_id [1, 2, 3] example_ready)))"

theorem finished_before_claim_witness:
  "take_pending_tunnel example_clock example_device example_grant_id example_finished
     = (example_finished, Inl GrantNotFound)"
proof -
  let ?h = "fst (push_tunnel_chunk example_clock example_device example_grant_id [1, 2, 3] example_ready)"
  have h: "?h = example_issued\<lparr>transfers := [example_transfer Consumed True True 3 [[1, 2, 3]]]\<rparr>"
    by (simp add: example_ready_eq example_issued_eq(1) push_tunnel_chunk_def push_begin_def push_deliver_def
        saturating_add_u64_def U64_MAX_def MAX_SOURCE_TUNNEL_CHUNK_BYTES_def SOURCE_TUNNEL_CAPACITY_def
        example_mono example_transfer_def example_step_defs)
  have run: "source_step\<^sup>*\<^sup>* source_hub_new ?h"
    using example_run(3) push_run [OF run_ok [OF example_run(3) source_hub_new_ok]] rtranclp_trans by fast
  have f: "snd (finish_tunnel example_clock example_device example_grant_id ?h) = Inr ()"
    unfolding h by (simp add: example_issued_eq(1) finish_tunnel_def example_transfer_def example_step_defs)
  show ?thesis
    using finished_before_claim [OF run, of example_grant_id 0 example_clock example_device example_finished
        example_clock] f unfolding example_finished_def h
    by (simp add: example_issued_eq(1) example_transfer_def prod_eq_iff)
qed

lemma fold_fail_at:
  assumes "distinct as" "b < length (transfers h)"
  shows "transfers (fold (fail_at e) as h) ! b
    = (if b \<in> set as then fst (fail e (transfers h ! b)) else transfers h ! b)"
  using assms
proof (induction as arbitrary: h)
  case (Cons a as)
  then show ?case by (cases "a = b") (auto simp: fail_at_def)
qed simp

lemma fold_fail_frame:
  "registry (fold (fail_at e) as h) = registry h"
  "source_connections (fold (fail_at e) as h) = source_connections h"
  by (induction as arbitrary: h) simp_all

lemma fail_device_at:
  assumes "source_hub_ok h" "map_of (registry h) gid = Some a" "owner (transfers h ! a) = dev"
  shows "transfers (fail_device_grants dev e h) ! a = fst (fail e (transfers h ! a))"
proof -
  have "distinct (filter (\<lambda>a. owner (transfers h ! a) = dev) (map snd (registry h)))"
    using registry_inj [OF assms(1)] by simp
  moreover have "a \<in> snd ` set (registry h)" using map_of_SomeD [OF assms(2)] by force
  ultimately show ?thesis
    unfolding fail_device_grants_def
    using assms registered_lt [OF assms(1,2)] by (subst fold_fail_at) auto
qed

lemma reap_frame:
  "length (transfers (reap now h)) = length (transfers h)"
  "source_connections (reap now h) = source_connections h"
  "map_of (registry h) gid = None \<Longrightarrow> map_of (registry (reap now h)) gid = None"
proof -
  have "length (fold (\<lambda>(_, a) ts. ts[a := fst (reap_one now (ts ! a))]) xs ts) = length ts" for xs ts
    by (induction xs arbitrary: ts) auto
  then show "length (transfers (reap now h)) = length (transfers h)" by (simp add: reap_def)
  show "source_connections (reap now h) = source_connections h" by (simp add: reap_def)
  show "map_of (registry (reap now h)) gid = None" if "map_of (registry h) gid = None"
    using that by (auto simp: reap_def map_of_eq_None_iff)
qed

lemma send_frame:
  "registry (fst (send dev f h)) = registry h" "transfers (fst (send dev f h)) = transfers h"
  "snd (send dev f h) \<Longrightarrow> source_connections (fst (send dev f h)) = AList.map_entry dev
     (\<lambda>c. c\<lparr>source_outbound := source_outbound c @ [f]\<rparr>) (source_connections h)"
  "snd (send dev f h) \<Longrightarrow> map_of (source_connections h) dev \<noteq> None"
  by (auto simp: send_def split: option.splits)

lemma grant_of_request_id [simp]: "grant_id (grant_of_request gid r) = gid"
  by (simp add: grant_of_request_def source_read_request.defs source_read_grant.defs)

lemma register_Inr:
  assumes "register_pending_read now dev g h = (h1, Inr ())" "map_of (registry h) (grant_id g) = None"
  shows "map_of (registry h1) (grant_id g) = Some (length (transfers h))"
    "transfers h1 ! length (transfers h) = new_transfer now dev g"
    "source_connections h1 = source_connections h"
  using assms reap_frame(3) [OF assms(2), of now]
  by (auto simp: register_pending_read_def insert_pending_def reap_frame(1,2) nth_append split: sum.splits)

text \<open>What a successful \<open>issue_grant\<close> leaves behind.\<close>

lemma issue_grant_Inr:
  assumes i: "issue_grant now gid dev request h = (h', Inr g)" and new: "map_of (registry h) gid = None"
  shows "map_of (registry h') gid = Some (length (transfers h))"
    "transfers h' ! length (transfers h) = new_transfer now dev g"
    "source_connections h' = AList.map_entry dev (\<lambda>c. c\<lparr>source_outbound := source_outbound c @ [Read g]\<rparr>)
       (source_connections h)"
    "map_of (source_connections h) dev \<noteq> None"
proof -
  let ?g = "grant_of_request gid request"
  obtain h1 where r: "register_pending_read now dev ?g h = (h1, Inr ())"
    and s: "snd (send dev (Read ?g) h1)" "h' = fst (send dev (Read ?g) h1)" and g: "g = ?g"
    using i by (auto simp: issue_grant_def Let_def split: sum.splits prod.splits if_splits)
  note reg = register_Inr [OF r] new
  show "map_of (registry h') gid = Some (length (transfers h))"
    "transfers h' ! length (transfers h) = new_transfer now dev g"
    using reg by (simp_all add: s(2) g send_frame)
  show "source_connections h' = AList.map_entry dev (\<lambda>c. c\<lparr>source_outbound := source_outbound c @ [Read g]\<rparr>)
       (source_connections h)"
    using reg send_frame(3) [OF s(1)] by (simp add: s(2) g)
  show "map_of (source_connections h) dev \<noteq> None"
    using reg send_frame(4) [OF s(1)] by simp
qed

text \<open>
  C36. A disconnect can fail a read of the connection that replaced it. \<open>detach\<close> removes the old
  connection under the lock but fails the device's reads after releasing it. When the device
  attaches again in between and a read is issued to the new socket, that read ends as
  disconnected while the new socket is current.
\<close>

theorem detach_fails_new_read:
  assumes "source_step\<^sup>*\<^sup>* source_hub_new h" "detach_begin dev n h = (h1, True)"
    and "attach now dev name hello h1 = (h2, m)"
    and "issue_grant now gid dev request h2 = (h3, Inr g)" "map_of (registry h2) gid = None"
    and "read_length request < U64_MAX"
  shows "is_current dev m (detach_fail dev h3)
    \<and> (\<exists>a. map_of (registry (detach_fail dev h3)) gid = Some a
        \<and> lifecycle (mutable (transfers (detach_fail dev h3) ! a)) = Failed (lit ''source worker disconnected''))"
proof -
  note ok = run_ok [OF _ source_hub_new_ok]
  have o1: "source_hub_ok h1"
    using keeps_sockets(2) [OF ok [OF assms(1)], of dev n] keeps_ok assms(2) by simp
  have o2: "source_hub_ok h2" using run_ok [OF attach_run [OF o1] o1, of now dev name hello] assms(3) by simp
  have o3: "source_hub_ok h3" using run_ok [OF issue_run [OF o2 assms(6)] o2, of now gid dev] assms(4) by simp
  note i = issue_grant_Inr [OF assms(4,5)]
  have at: "transfers (detach_fail dev h3) ! length (transfers h2)
      = fst (fail (lit ''source worker disconnected'') (new_transfer now dev g))"
    unfolding detach_fail_def using fail_device_at [OF o3 i(1)] i(2) by (simp add: new_transfer_def)
  have "map_of (source_connections h2) dev = Some c \<Longrightarrow> source_epoch c = m" for c
    using assms(3) by (auto simp: attach_def attach_begin_def attach_install_def update_conv' Let_def)
  then have "is_current dev m h3"
    using i(3,4) by (auto simp: is_current_def map_of_map_entry)
  then show ?thesis
    using at i(1)
    by (simp add: detach_fail_def fail_device_grants_def fold_fail_frame is_current_def fail_def
        new_transfer_def notify_waiters_def close_tunnel_def set_lifecycle_def)
qed

text \<open>The example's socket at a given epoch, and a read issued to it.\<close>

definition example_socket :: "nat \<Rightarrow> nat \<Rightarrow> source_hub" where
  "example_socket n epochs =
     \<lparr>source_connections = [(example_device, example_connection\<lparr>source_epoch := n\<rparr>)], registry = [],
      transfers = [], sending = [], source_epochs = epochs\<rparr>"

lemma example_issue:
  "snd (issue_grant example_clock example_grant_id example_device example_request (example_socket n e))
     = Inr example_grant"
  by (simp add: example_socket_def issue_grant_def example_checks
      register_pending_read_def precheck_def validate_root_for_grant_def root_def worker_of_def
      example_connection_def example_root_def example_grant_simps insert_pending_def reap_def
      send_def SOURCE_OUTBOUND_CAPACITY_def example_grant_def [symmetric] Let_def)

lemma example_attached_socket: "example_attached = example_socket 1 1"
  by (simp add: example_attached_eq example_socket_def example_connection_def)

theorem detach_fails_new_read_witness:
  "\<exists>h3. is_current example_device 2 (detach_fail example_device h3)
    \<and> (\<exists>a. map_of (registry (detach_fail example_device h3)) example_grant_id = Some a
        \<and> lifecycle (mutable (transfers (detach_fail example_device h3) ! a))
            = Failed (lit ''source worker disconnected''))"
proof -
  have d: "detach_begin example_device 1 example_attached
      = (example_attached\<lparr>source_connections := []\<rparr>, True)"
    by (simp add: example_attached_socket example_socket_def detach_begin_def)
  have a: "attach example_clock example_device [] example_hello (example_attached\<lparr>source_connections := []\<rparr>)
      = (example_socket 2 2, 2)"
    by (simp add: example_attached_socket example_socket_def attach_def attach_begin_def attach_install_def
        fail_device_grants_def example_connection_def example_hello_def)
  have i: "issue_grant example_clock example_grant_id example_device example_request (example_socket 2 2)
      = (fst (issue_grant example_clock example_grant_id example_device example_request (example_socket 2 2)),
         Inr example_grant)"
    by (simp add: prod_eq_iff example_issue)
  show ?thesis
    using detach_fails_new_read [OF example_run(1) d a i]
    by (auto simp: example_socket_def example_request_def U64_MAX_def)
qed

text \<open>
  C37. A read issued while a socket is being replaced is stranded. \<open>attach\<close> fails the device's
  outstanding reads before it installs the new connection. A read issued in between is queued
  on the socket that is about to be dropped: afterwards the new socket is current, the read is
  still pending and nothing for it is queued on the new socket.
\<close>

theorem attach_strands_read:
  assumes "source_step\<^sup>*\<^sup>* source_hub_new h" "attach_begin dev h = (h1, m)"
    and "issue_grant now gid dev request h1 = (h2, Inr g)" "map_of (registry h1) gid = None"
  shows "is_current dev m (attach_install now' dev name hello m h2)
    \<and> (\<exists>a. map_of (registry (attach_install now' dev name hello m h2)) gid = Some a
        \<and> lifecycle (mutable (transfers (attach_install now' dev name hello m h2) ! a)) = Pending)
    \<and> (\<exists>c. map_of (source_connections (attach_install now' dev name hello m h2)) dev = Some c
        \<and> source_outbound c = [])"
  using issue_grant_Inr [OF assms(3,4)]
  by (simp add: attach_install_def is_current_def update_conv' new_transfer_def Let_def)

theorem attach_strands_read_witness:
  "\<exists>h3. is_current example_device 2 h3
    \<and> (\<exists>a. map_of (registry h3) example_grant_id = Some a \<and> lifecycle (mutable (transfers h3 ! a)) = Pending)
    \<and> (\<exists>c. map_of (source_connections h3) example_device = Some c \<and> source_outbound c = [])"
proof -
  have b: "attach_begin example_device example_attached = (example_socket 1 2, 2)"
    by (simp add: example_attached_socket example_socket_def attach_begin_def fail_device_grants_def)
  have i: "issue_grant example_clock example_grant_id example_device example_request (example_socket 1 2)
      = (fst (issue_grant example_clock example_grant_id example_device example_request (example_socket 1 2)),
         Inr example_grant)"
    by (simp add: prod_eq_iff example_issue)
  show ?thesis
    using attach_strands_read [OF example_run(1) b i, of example_clock "[]" example_hello]
    by (auto simp: example_socket_def)
qed

end
