(* ===== verification/Source_Catalog.thy ===== *)
theory Source_Catalog
  imports Source_Protocol
begin

text \<open>
  \<^verbatim>\<open>crates/worker/src/source_catalog.rs\<close>: the worker's catalog of its roots. Paths are those
  of a Unix system: \<open>components\<close> is what \<^verbatim>\<open>std::path::Path::components\<close> yields, and two paths
  are equal when their components are. SHA-256 and the URL parser are arguments; so are the
  fresh item ids, the answers of the file system and whether the catalog file could be written.
\<close>

section \<open>Paths\<close>

datatype path_component = RootDir | CurDir | ParentDir | Normal ustr

definition is_absolute :: "ustr \<Rightarrow> bool" where
  "is_absolute p \<longleftrightarrow> starts_with p [47]"

definition component_of :: "ustr \<Rightarrow> path_component" where
  "component_of s = (if s = [46, 46] then ParentDir else Normal s)"

definition components :: "ustr \<Rightarrow> path_component list" where
  "components p =
     (let pieces = split_on 47 p;
          front = (if is_absolute p then [RootDir] else if hd pieces = [46] then [CurDir] else [])
      in front @ map component_of (filter (\<lambda>s. s \<noteq> [] \<and> s \<noteq> [46]) pieces))"

definition path_eq :: "ustr \<Rightarrow> ustr \<Rightarrow> bool" where
  "path_eq p q \<longleftrightarrow> components p = components q"

definition path_join :: "ustr \<Rightarrow> ustr \<Rightarrow> ustr" where
  "path_join p q =
     (if is_absolute q then q
      else if p = [] \<or> ends_with p [47] then p @ q
      else p @ [47] @ q)"

definition join_pieces :: "ustr list \<Rightarrow> ustr" where
  "join_pieces ps = (case ps of [] \<Rightarrow> [] | q # qs \<Rightarrow> q @ concat (map ((#) 47) qs))"

text \<open>\<open>char::is_control\<close>: the general category \<open>Cc\<close>.\<close>

definition is_control :: "uchar \<Rightarrow> bool" where
  "is_control c \<longleftrightarrow> c < 32 \<or> (127 \<le> c \<and> c < 160)"

fun normal_pieces :: "path_component list \<Rightarrow> ustr list option" where
  "normal_pieces [] = Some []"
| "normal_pieces (Normal v # cs) =
     (if v = [] \<or> v = [46] \<or> v = [46, 46] \<or> list_ex is_control v then None
      else map_option ((#) v) (normal_pieces cs))"
| "normal_pieces (_ # cs) = None"

definition sanitize_relative_path :: "ustr \<Rightarrow> ustr option" where
  "sanitize_relative_path path =
     (if path = [] \<or> 0 \<in> set path \<or> 92 \<in> set path then None
      else case normal_pieces (components path) of
             None \<Rightarrow> None
           | Some ps \<Rightarrow> if ps \<noteq> [] then Some (join_pieces ps) else None)"

section \<open>Roots\<close>

record source_root_config =
  cfg_root_id :: ustr
  cfg_label :: ustr
  cfg_kind :: ustr
  cfg_privacy_mode :: ustr
  cfg_path :: ustr
  cfg_transport :: source_transport
  cfg_direct_base_url :: "ustr option"

text \<open>The parts of a parsed URL the code looks at.\<close>

record url =
  url_scheme :: ustr
  url_has_host :: bool
  url_username :: ustr
  url_has_password :: bool
  url_has_query :: bool
  url_has_fragment :: bool
  url_path :: ustr
  url_text :: ustr

datatype catalog_error =
    CatalogIo
  | CatalogJson
  | InvalidRoot ustr
  | CandidateOnlyUnsupported
  | CatalogRootNotFound ustr
  | ItemNotFound ustr ustr
  | VersionMismatch
  | DigestMismatch
  | CatalogExpired
  | InvalidRange
  | UnsafePath
  | AmbiguousIdentity
  | StaleRevision

definition PRIVACY_CATALOG :: ustr where "PRIVACY_CATALOG = lit ''catalog''"

definition simple_id :: "ustr \<Rightarrow> bool" where
  "simple_id i \<longleftrightarrow>
     \<not> (i = [] \<or> byte_len i > 128 \<or> 47 \<in> set i \<or> 92 \<in> set i \<or> i = [46] \<or> i = [46, 46])"

definition validate_root_id :: "ustr \<Rightarrow> (catalog_error, unit) result" where
  "validate_root_id i =
     (if simple_id i then Inr ()
      else Inl (InvalidRoot (lit ''root_id must be a simple opaque identifier'')))"

definition origin_only :: "url \<Rightarrow> bool" where
  "origin_only u \<longleftrightarrow>
     (url_scheme u = lit ''http'' \<or> url_scheme u = lit ''https'') \<and> url_has_host u
     \<and> url_username u = [] \<and> \<not> url_has_password u \<and> \<not> url_has_query u \<and> \<not> url_has_fragment u
     \<and> url_path u = lit ''/''"

definition config_validate ::
  "(ustr \<Rightarrow> url option) \<Rightarrow> source_root_config \<Rightarrow> (catalog_error, unit) result" where
  "config_validate parse_url r =
     (if \<not> simple_id (cfg_root_id r)
      then Inl (InvalidRoot (lit ''root_id must be a simple opaque identifier''))
      else if trim (cfg_label r) = [] \<or> trim (cfg_kind r) = []
      then Inl (InvalidRoot (lit ''root label and kind are required''))
      else if cfg_privacy_mode r \<noteq> PRIVACY_CATALOG then Inl CandidateOnlyUnsupported
      else if \<not> is_absolute (cfg_path r)
      then Inl (InvalidRoot (lit ''source root must be absolute''))
      else if cfg_transport r = Direct
      then (case cfg_direct_base_url r of
          None \<Rightarrow> Inl (InvalidRoot (lit ''direct roots require direct_base_url''))
        | Some base \<Rightarrow>
            (case parse_url base of
               None \<Rightarrow> Inl (InvalidRoot (lit ''direct_base_url must be an absolute HTTP URL''))
             | Some u \<Rightarrow>
                 if origin_only u then Inr ()
                 else Inl (InvalidRoot (lit ''direct_base_url must contain only an HTTP(S) origin''))))
      else if cfg_direct_base_url r \<noteq> None
      then Inl (InvalidRoot (lit ''tunnel roots cannot set direct_base_url''))
      else Inr ())"

definition config_hello ::
  "(ustr \<Rightarrow> url option) \<Rightarrow> source_root_config \<Rightarrow> (catalog_error, source_root_hello) result" where
  "config_hello parse_url r =
     bind_result (config_validate parse_url r) (\<lambda>_.
       Inr \<lparr>hello_root_id = cfg_root_id r, hello_label = cfg_label r, hello_kind = cfg_kind r,
            hello_privacy_mode = cfg_privacy_mode r, hello_transport = cfg_transport r,
            hello_direct_base_url = cfg_direct_base_url r\<rparr>)"

text \<open>\<open>Display\<close> of the two errors that reach the command line.\<close>

definition error_text :: "catalog_error \<Rightarrow> ustr" where
  "error_text e =
     (case e of
        InvalidRoot m \<Rightarrow> lit ''invalid source root: '' @ m
      | CandidateOnlyUnsupported \<Rightarrow>
          lit ''candidate_only roots are unavailable until an interest-set protocol exists''
      | _ \<Rightarrow> [])"

definition map_error :: "('e \<Rightarrow> 'f) \<Rightarrow> ('e, 'a) result \<Rightarrow> ('f, 'a) result" where
  "map_error f r = (case r of Inl e \<Rightarrow> Inl (f e) | Inr a \<Rightarrow> Inr a)"

primrec check_spec_fields :: "ustr list \<Rightarrow> (ustr, unit) result" where
  "check_spec_fields [] = Inr ()"
| "check_spec_fields (field # rest) =
     (case split_once 61 field of
        None \<Rightarrow> Inl (lit ''source root field `'' @ field @ lit ''` must use key=value'')
      | Some (key, value) \<Rightarrow>
          (let k = trim key
           in if k = lit ''label'' \<or> k = lit ''kind'' \<or> k = lit ''privacy'' \<or> k = lit ''privacy_mode''
              then (if trim value = []
                    then Inl (lit ''source root field `'' @ key @ lit ''` is empty'')
                    else if (k = lit ''privacy'' \<or> k = lit ''privacy_mode'') \<and> trim value \<noteq> PRIVACY_CATALOG
                    then Inl (lit ''candidate_only source roots are not supported'')
                    else check_spec_fields rest)
              else Inl (lit ''unknown source root field `'' @ k @ lit ''`'')))"

definition parse_source_root_spec :: "ustr \<Rightarrow> (ustr, ustr \<times> ustr) result" where
  "parse_source_root_spec spec =
     (let parts = split_on 59 spec
      in case split_once 61 (hd parts) of
           None \<Rightarrow> Inl (lit ''source root must use root_id=/absolute/path'')
         | Some (i, p) \<Rightarrow>
             if trim i = [] \<or> trim p = []
             then Inl (lit ''source root requires a non-empty root_id and path'')
             else if \<not> is_absolute (trim p) then Inl (lit ''source root path must be absolute'')
             else bind_result (map_error error_text (validate_root_id (trim i))) (\<lambda>_.
                  bind_result (check_spec_fields (tl parts)) (\<lambda>_. Inr (trim i, trim p))))"

primrec apply_spec_fields ::
  "ustr list \<Rightarrow> ustr \<times> ustr \<times> ustr \<Rightarrow> (ustr, ustr \<times> ustr \<times> ustr) result" where
  "apply_spec_fields [] acc = Inr acc"
| "apply_spec_fields (field # rest) acc =
     (case split_once 61 field of
        None \<Rightarrow> Inl (lit ''source root field `'' @ field @ lit ''` must use key=value'')
      | Some (key, value) \<Rightarrow>
          (let k = trim key; v = trim value; (lb, kd, pv) = acc
           in if v = [] then Inl (lit ''source root field `'' @ key @ lit ''` is empty'')
              else if k = lit ''label'' then apply_spec_fields rest (v, kd, pv)
              else if k = lit ''kind'' then apply_spec_fields rest (lb, v, pv)
              else if k = lit ''privacy'' \<or> k = lit ''privacy_mode'' then apply_spec_fields rest (lb, kd, v)
              else Inl (lit ''unknown source root field `'' @ k @ lit ''`'')))"

definition parse_source_root_config ::
  "(ustr \<Rightarrow> url option) \<Rightarrow> ustr \<Rightarrow> source_transport \<Rightarrow> ustr option
   \<Rightarrow> (ustr, source_root_config) result" where
  "parse_source_root_config parse_url spec tr base =
     (let parts = split_on 59 spec
      in case split_once 61 (hd parts) of
           None \<Rightarrow> Inl (lit ''source root must use root_id=/absolute/path'')
         | Some (i, p) \<Rightarrow>
             bind_result (map_error error_text (validate_root_id (trim i))) (\<lambda>_.
               if \<not> is_absolute (trim p) then Inl (lit ''source root path must be absolute'')
               else bind_result (apply_spec_fields (tl parts) (trim i, lit ''library'', PRIVACY_CATALOG))
                 (\<lambda>(lb, kd, pv).
                    let config = \<lparr>cfg_root_id = trim i, cfg_label = lb, cfg_kind = kd,
                                  cfg_privacy_mode = pv, cfg_path = trim p, cfg_transport = tr,
                                  cfg_direct_base_url = base\<rparr>
                    in bind_result (map_error error_text (config_validate parse_url config))
                         (\<lambda>_. Inr config))))"

section \<open>Catalog state\<close>

record catalog_entry =
  ce_worker_item_id :: ustr
  ce_content_version :: ustr
  ce_root_id :: ustr
  ce_absolute_path :: ustr
  ce_relative_path :: ustr
  ce_size :: nat
  ce_modified_at_ms :: "int option"
  ce_quick_fingerprint :: ustr
  ce_media_type :: "ustr option"
  ce_metadata :: "json option"

record catalog_observation =
  ob_absolute_path :: ustr
  ob_relative_path :: ustr
  ob_size :: nat
  ob_modified_at_ms :: "int option"
  ob_quick_fingerprint :: ustr
  ob_media_type :: "ustr option"
  ob_metadata :: "json option"

record persisted_root =
  pr_config :: source_root_config
  pr_revision :: nat
  pr_entries :: "catalog_entry list"

record catalog_snapshot =
  sn_root :: source_root_config
  sn_revision :: nat
  sn_items :: "catalog_entry list"

record resolved_item =
  ri_root :: source_root_config
  ri_item :: catalog_entry
  ri_path :: ustr

text \<open>The map of the roots, by id.\<close>

type_synonym catalog = "(ustr \<times> persisted_root) list"

definition CATALOG_SCHEMA_VERSION :: nat where "CATALOG_SCHEMA_VERSION = 1"

primrec configured ::
  "(ustr \<Rightarrow> url option) \<Rightarrow> source_root_config list \<Rightarrow> (ustr \<times> source_root_config) list
   \<Rightarrow> (catalog_error, (ustr \<times> source_root_config) list) result" where
  "configured parse_url [] acc = Inr acc"
| "configured parse_url (r # rs) acc =
     bind_result (config_validate parse_url r) (\<lambda>_.
       if map_of acc (cfg_root_id r) \<noteq> None then Inl (InvalidRoot (lit ''duplicate root_id''))
       else configured parse_url rs ((cfg_root_id r, r) # acc))"

text \<open>
  Opening the catalog: \<open>stored\<close> is what reading and decoding the catalog file gave, if there is
  one. Configured roots keep the revision and the entries stored for them.
\<close>

definition catalog_open ::
  "(ustr \<Rightarrow> url option) \<Rightarrow> (catalog_error, nat \<times> catalog) result option \<Rightarrow> bool
   \<Rightarrow> source_root_config list \<Rightarrow> (catalog_error, catalog) result" where
  "catalog_open parse_url stored persisted roots =
     bind_result (configured parse_url roots []) (\<lambda>cs.
     bind_result (case stored of Some s \<Rightarrow> s | None \<Rightarrow> Inr (CATALOG_SCHEMA_VERSION, [])) (\<lambda>(schema, old).
       if schema \<noteq> CATALOG_SCHEMA_VERSION
       then Inl (InvalidRoot (lit ''unsupported catalog schema '' @ show_nat schema))
       else if \<not> persisted then Inl CatalogIo
       else Inr (map (\<lambda>(i, config). (i,
              case map_of old i of
                Some r \<Rightarrow> r\<lparr>pr_config := config\<rparr>
              | None \<Rightarrow> \<lparr>pr_config = config, pr_revision = 0, pr_entries = []\<rparr>)) cs)))"

definition catalog_roots :: "catalog \<Rightarrow> source_root_config list" where
  "catalog_roots c = map (pr_config \<circ> snd) (sort_key fst c)"

definition catalog_root :: "ustr \<Rightarrow> catalog \<Rightarrow> (catalog_error, source_root_config) result" where
  "catalog_root i c =
     (case map_of c i of Some r \<Rightarrow> Inr (pr_config r) | None \<Rightarrow> Inl (CatalogRootNotFound i))"

definition snapshot_of :: "persisted_root \<Rightarrow> catalog_snapshot" where
  "snapshot_of r = \<lparr>sn_root = pr_config r, sn_revision = pr_revision r, sn_items = pr_entries r\<rparr>"

definition snapshot :: "ustr \<Rightarrow> catalog \<Rightarrow> (catalog_error, catalog_snapshot) result" where
  "snapshot i c =
     (case map_of c i of Some r \<Rightarrow> Inr (snapshot_of r) | None \<Rightarrow> Inl (CatalogRootNotFound i))"

section \<open>Committing a scan\<close>

fun le_bytes :: "nat \<Rightarrow> nat \<Rightarrow> byte list" where
  "le_bytes 0 n = []"
| "le_bytes (Suc k) n = n mod 256 # le_bytes k (n div 256)"

definition i64_le_bytes :: "int \<Rightarrow> byte list" where
  "i64_le_bytes i = le_bytes 8 (nat (i mod 2 ^ 64))"

definition content_version :: "(byte list \<Rightarrow> ustr) \<Rightarrow> nat \<Rightarrow> int option \<Rightarrow> ustr \<Rightarrow> ustr" where
  "content_version sha256_hex n modified quick =
     lit ''v1-'' @ sha256_hex (le_bytes 8 n
       @ i64_le_bytes (case modified of Some t \<Rightarrow> t | None \<Rightarrow> 0) @ utf8 quick)"

definition new_item_id :: "ustr \<Rightarrow> ustr" where
  "new_item_id uuid = lit ''item_'' @ uuid"

type_synonym signature = "nat \<times> int option \<times> ustr"

definition entry_signature :: "catalog_entry \<Rightarrow> signature" where
  "entry_signature e = (ce_size e, ce_modified_at_ms e, ce_quick_fingerprint e)"

definition observed_signature :: "catalog_observation \<Rightarrow> signature" where
  "observed_signature ob = (ob_size ob, ob_modified_at_ms ob, ob_quick_fingerprint ob)"

text \<open>\<open>by_path\<close> holds the last entry of a path, \<open>by_signature\<close> all entries of a signature.\<close>

definition by_path :: "catalog_entry list \<Rightarrow> ustr \<Rightarrow> nat option" where
  "by_path prev p =
     (case filter (\<lambda>i. ce_relative_path (prev ! i) = p) [0..<length prev] of
        [] \<Rightarrow> None
      | is \<Rightarrow> Some (last is))"

definition by_signature :: "catalog_entry list \<Rightarrow> signature \<Rightarrow> nat list" where
  "by_signature prev s = filter (\<lambda>i. entry_signature (prev ! i) = s) [0..<length prev]"

definition old_index :: "catalog_entry list \<Rightarrow> nat list \<Rightarrow> catalog_observation \<Rightarrow> nat option" where
  "old_index prev used ob =
     (case by_path prev (ob_relative_path ob) of
        Some i \<Rightarrow> if i \<notin> set used then Some i else
          (case by_signature prev (observed_signature ob) of
             [j] \<Rightarrow> if j \<notin> set used then Some j else None
           | _ \<Rightarrow> None)
      | None \<Rightarrow>
          (case by_signature prev (observed_signature ob) of
             [j] \<Rightarrow> if j \<notin> set used then Some j else None
           | _ \<Rightarrow> None))"

definition entry_of ::
  "(byte list \<Rightarrow> ustr) \<Rightarrow> ustr \<Rightarrow> ustr \<Rightarrow> catalog_observation \<Rightarrow> catalog_entry" where
  "entry_of sha256_hex rid item_id ob =
     \<lparr>ce_worker_item_id = item_id,
      ce_content_version =
        content_version sha256_hex (ob_size ob) (ob_modified_at_ms ob) (ob_quick_fingerprint ob),
      ce_root_id = rid, ce_absolute_path = ob_absolute_path ob,
      ce_relative_path = ob_relative_path ob, ce_size = ob_size ob,
      ce_modified_at_ms = ob_modified_at_ms ob, ce_quick_fingerprint = ob_quick_fingerprint ob,
      ce_media_type = ob_media_type ob, ce_metadata = ob_metadata ob\<rparr>"

text \<open>The loop over the sorted observations; each comes with the fresh id it would get.\<close>

fun assign_ids ::
  "catalog_entry list \<Rightarrow> (ustr \<times> catalog_observation) list \<Rightarrow> nat list \<Rightarrow> ustr list
   \<Rightarrow> (ustr \<times> catalog_observation) list" where
  "assign_ids prev [] used_old used_ids = []"
| "assign_ids prev ((uuid, ob) # obs) used_old used_ids =
     (let old = old_index prev used_old ob;
          used = (case old of Some i \<Rightarrow> i # used_old | None \<Rightarrow> used_old);
          item_id = (case old of
              Some i \<Rightarrow>
                (let k = ce_worker_item_id (prev ! i)
                 in if k \<notin> set used_ids then k else new_item_id uuid)
            | None \<Rightarrow> new_item_id uuid)
      in (item_id, ob) # assign_ids prev obs used (item_id # used_ids))"

definition sorted_observations :: "catalog_observation list \<Rightarrow> catalog_observation list" where
  "sorted_observations obs = sort_key ob_relative_path obs"

definition scanned_root ::
  "(byte list \<Rightarrow> ustr) \<Rightarrow> (nat \<Rightarrow> ustr) \<Rightarrow> ustr \<Rightarrow> catalog_observation list \<Rightarrow> persisted_root \<Rightarrow> persisted_root" where
  "scanned_root sha256_hex uuids rid obs r =
     r\<lparr>pr_entries := map (\<lambda>(k, ob). entry_of sha256_hex rid k ob)
         (assign_ids (pr_entries r) (zip (map uuids [0..<length obs]) (sorted_observations obs)) [] []),
       pr_revision := saturating_add_u64 (pr_revision r) 1\<rparr>"

text \<open>The catalog in memory has the new scan also when writing the file fails.\<close>

definition commit_scan ::
  "(byte list \<Rightarrow> ustr) \<Rightarrow> (nat \<Rightarrow> ustr) \<Rightarrow> bool \<Rightarrow> ustr \<Rightarrow> catalog_observation list \<Rightarrow> catalog
   \<Rightarrow> catalog \<times> (catalog_error, catalog_snapshot) result" where
  "commit_scan sha256_hex uuids persisted rid obs c =
     (case map_of c rid of
        None \<Rightarrow> (c, Inl (CatalogRootNotFound rid))
      | Some r \<Rightarrow>
          (let r' = scanned_root sha256_hex uuids rid obs r
           in (AList.update rid r' c,
               if persisted then Inr (snapshot_of r') else Inl CatalogIo)))"

section \<open>Resolving a grant\<close>

definition checked_entry_path :: "source_root_config \<Rightarrow> catalog_entry \<Rightarrow> (catalog_error, ustr) result" where
  "checked_entry_path r e =
     (if ce_root_id e \<noteq> cfg_root_id r \<or> \<not> is_absolute (ce_absolute_path e) then Inl UnsafePath
      else case sanitize_relative_path (ce_relative_path e) of
             None \<Rightarrow> Inl UnsafePath
           | Some relative \<Rightarrow>
               (let expected = path_join (cfg_path r) relative
                in if \<not> path_eq (ce_absolute_path e) expected then Inl UnsafePath else Inr expected))"

definition resolve :: "ustr \<Rightarrow> ustr \<Rightarrow> catalog \<Rightarrow> (catalog_error, resolved_item) result" where
  "resolve rid item_id c =
     (case map_of c rid of
        None \<Rightarrow> Inl (CatalogRootNotFound rid)
      | Some r \<Rightarrow>
          (case find (\<lambda>e. ce_worker_item_id e = item_id) (pr_entries r) of
             None \<Rightarrow> Inl (ItemNotFound rid item_id)
           | Some e \<Rightarrow>
               bind_result (checked_entry_path (pr_config r) e) (\<lambda>p.
                 Inr \<lparr>ri_root = pr_config r, ri_item = e, ri_path = p\<rparr>)))"

definition validate_range ::
  "catalog_entry \<Rightarrow> source_read_mode \<Rightarrow> nat \<Rightarrow> nat \<Rightarrow> nat \<Rightarrow> (catalog_error, unit) result" where
  "validate_range e md off len limit =
     (if len > limit then Inl InvalidRange
      else if md = FullRead \<and> (off \<noteq> 0 \<or> len \<noteq> ce_size e) then Inl InvalidRange
      else if off > ce_size e \<or> len > ce_size e - off then Inl InvalidRange
      else Inr ())"

definition resolve_grant ::
  "int \<Rightarrow> source_read_grant \<Rightarrow> catalog \<Rightarrow> (catalog_error, resolved_item) result" where
  "resolve_grant now g c =
     (case grant_validate g of
        Inl _ \<Rightarrow> Inl InvalidRange
      | Inr _ \<Rightarrow>
          if is_expired_at now g then Inl CatalogExpired
          else bind_result (resolve (root_id g) (worker_item_id g) c) (\<lambda>ri.
            if ce_content_version (ri_item ri) \<noteq> worker_content_version g then Inl VersionMismatch
            else bind_result (validate_range (ri_item ri) (mode g) (offset g) (read_length g) (max_bytes g))
              (\<lambda>_. Inr ri)))"

definition manifest_items :: "catalog_snapshot \<Rightarrow> source_manifest_item list" where
  "manifest_items s =
     map (\<lambda>e. \<lparr>mi_worker_item_id = ce_worker_item_id e, mi_content_version = ce_content_version e,
               mi_relative_path = Some (ce_relative_path e), mi_size = ce_size e,
               mi_modified_at = map_option (\<lambda>t. JNumber (if 0 \<le> t then PosInt (nat t) else NegInt t))
                 (ce_modified_at_ms e),
               mi_media_type = ce_media_type e, mi_quick_fingerprint = Some (ce_quick_fingerprint e),
               mi_sha256 = None, mi_metadata = ce_metadata e, mi_retention = None\<rparr>) (sn_items s)"

section \<open>Opening a file\<close>

record file_stat =
  st_symlink :: bool
  st_dir :: bool
  st_file :: bool
  st_len :: nat

text \<open>\<open>PathBuf::push\<close> of each component in turn, looking at every prefix but the empty one and the root.\<close>

definition push_component :: "ustr \<Rightarrow> path_component \<Rightarrow> ustr" where
  "push_component cursor c =
     (case c of
        RootDir \<Rightarrow> [47]
      | CurDir \<Rightarrow> cursor
      | ParentDir \<Rightarrow> path_join cursor [46, 46]
      | Normal name \<Rightarrow> path_join cursor name)"

fun no_symlinks :: "(ustr \<Rightarrow> file_stat option) \<Rightarrow> ustr \<Rightarrow> path_component list \<Rightarrow> bool" where
  "no_symlinks lstat cursor [] = True"
| "no_symlinks lstat cursor (c # cs) =
     (let next = push_component cursor c
      in if next = [] \<or> path_eq next [47] then no_symlinks lstat next cs
         else (case lstat next of
             None \<Rightarrow> False
           | Some st \<Rightarrow> \<not> st_symlink st \<and> no_symlinks lstat next cs))"

definition reject_symlink_ancestors :: "(ustr \<Rightarrow> file_stat option) \<Rightarrow> ustr \<Rightarrow> bool" where
  "reject_symlink_ancestors lstat p \<longleftrightarrow> \<not> no_symlinks lstat [] (components p)"

definition strip_path :: "ustr \<Rightarrow> ustr \<Rightarrow> path_component list option" where
  "strip_path p base = strip_prefix (components p) (components base)"

fun check_below ::
  "(ustr \<Rightarrow> file_stat option) \<Rightarrow> ustr \<Rightarrow> ustr \<Rightarrow> path_component list \<Rightarrow> (catalog_error, unit) result" where
  "check_below lstat p cursor [] = Inr ()"
| "check_below lstat p cursor (Normal name # cs) =
     (let next = path_join cursor name
      in case lstat next of
           None \<Rightarrow> Inl CatalogIo
         | Some st \<Rightarrow>
             if st_symlink st then Inl UnsafePath
             else if \<not> path_eq next p \<and> \<not> st_dir st then Inl UnsafePath
             else check_below lstat p next cs)"
| "check_below lstat p cursor (_ # cs) = Inl UnsafePath"

definition open_safe_file ::
  "(ustr \<Rightarrow> file_stat option) \<Rightarrow> source_root_config \<Rightarrow> catalog_entry \<Rightarrow> ustr \<Rightarrow> (catalog_error, unit) result" where
  "open_safe_file lstat r e p =
     (if reject_symlink_ancestors lstat (cfg_path r) then Inl UnsafePath
      else case lstat (cfg_path r) of
             None \<Rightarrow> Inl CatalogIo
           | Some st \<Rightarrow>
               if st_symlink st \<or> \<not> st_dir st then Inl UnsafePath
               else (case strip_path p (cfg_path r) of
                   None \<Rightarrow> Inl UnsafePath
                 | Some below \<Rightarrow>
                     bind_result (check_below lstat p (cfg_path r) below) (\<lambda>_.
                       case lstat p of
                         None \<Rightarrow> Inl CatalogIo
                       | Some st \<Rightarrow>
                           if st_symlink st \<or> \<not> st_file st \<or> st_len st \<noteq> ce_size e
                           then Inl VersionMismatch else Inr ())))"

section \<open>The cache of verified files\<close>

record file_identity =
  fi_path :: "path_component list"
  fi_len :: nat
  fi_modified :: "(nat \<times> nat) option"
  fi_device :: nat
  fi_inode :: nat
  fi_changed :: "int \<times> int"

type_synonym verification_key = "file_identity \<times> ustr"

record verification_cache =
  vc_entries :: "verification_key list"
  vc_order :: "verification_key list"

definition VERIFIED_DIGEST_CACHE_CAPACITY :: nat where "VERIFIED_DIGEST_CACHE_CAPACITY = 128"

definition still_valid :: "file_identity \<Rightarrow> verification_key \<Rightarrow> bool" where
  "still_valid i k \<longleftrightarrow> fi_path (fst k) \<noteq> fi_path i \<or> fst k = i"

definition invalidate_for_identity :: "file_identity \<Rightarrow> verification_cache \<Rightarrow> verification_cache" where
  "invalidate_for_identity i vc =
     \<lparr>vc_entries = filter (still_valid i) (vc_entries vc), vc_order = filter (still_valid i) (vc_order vc)\<rparr>"

definition to_back :: "'a \<Rightarrow> 'a list \<Rightarrow> 'a list" where
  "to_back k ks = filter (\<lambda>x. x \<noteq> k) ks @ [k]"

definition cache_contains :: "file_identity \<Rightarrow> ustr \<Rightarrow> verification_cache \<Rightarrow> verification_cache \<times> bool" where
  "cache_contains i d vc =
     (let vc1 = invalidate_for_identity i vc
      in if (i, d) \<notin> set (vc_entries vc1) then (vc1, False)
         else (vc1\<lparr>vc_order := to_back (i, d) (vc_order vc1)\<rparr>, True))"

function evict :: "verification_cache \<Rightarrow> verification_cache" where
  "evict vc =
     (if length (vc_order vc) > VERIFIED_DIGEST_CACHE_CAPACITY
      then evict \<lparr>vc_entries = filter (\<lambda>k. k \<noteq> hd (vc_order vc)) (vc_entries vc), vc_order = tl (vc_order vc)\<rparr>
      else vc)"
  by pat_completeness auto
termination
  by (relation "measure (\<lambda>vc. length (vc_order vc))") auto

declare evict.simps [simp del]

definition cache_insert :: "file_identity \<Rightarrow> ustr \<Rightarrow> verification_cache \<Rightarrow> verification_cache" where
  "cache_insert i d vc =
     (let vc1 = invalidate_for_identity i vc
      in evict \<lparr>vc_entries = (if (i, d) \<in> set (vc_entries vc1) then vc_entries vc1 else (i, d) # vc_entries vc1),
                vc_order = to_back (i, d) (vc_order vc1)\<rparr>)"

text \<open>
  The file that was opened: its identity before and after it was read to its end, and what was
  read. There is none when opening or reading fails.
\<close>

record opened_file =
  of_identity :: file_identity
  of_content :: "byte list"
  of_final_identity :: file_identity

definition open_grant ::
  "(byte list \<Rightarrow> ustr) \<Rightarrow> (ustr \<Rightarrow> file_stat option) \<Rightarrow> opened_file option \<Rightarrow> int \<Rightarrow> source_read_grant
   \<Rightarrow> catalog \<Rightarrow> verification_cache
   \<Rightarrow> verification_cache \<times> (catalog_error, resolved_item \<times> nat) result" where
  "open_grant sha256_hex lstat opened now g c vc =
     (case resolve_grant now g c of
        Inl e \<Rightarrow> (vc, Inl e)
      | Inr ri \<Rightarrow>
          (case open_safe_file lstat (ri_root ri) (ri_item ri) (ri_path ri) of
             Inl e \<Rightarrow> (vc, Inl e)
           | Inr _ \<Rightarrow>
               (case opened of
                  None \<Rightarrow> (vc, Inl CatalogIo)
                | Some f \<Rightarrow>
                    (case expected_sha256 g of
                       None \<Rightarrow> (vc, Inr (ri, offset g))
                     | Some expected \<Rightarrow>
                         (let i = of_identity f; (vc1, cached) = cache_contains i expected vc
                          in if cached then (vc1, Inr (ri, offset g))
                             else if fi_len (of_final_identity f) \<noteq> ce_size (ri_item ri)
                                     \<or> of_final_identity f \<noteq> i
                             then (invalidate_for_identity i vc1, Inl VersionMismatch)
                             else if sha256_hex (of_content f) \<noteq> expected
                             then (invalidate_for_identity i vc1, Inl DigestMismatch)
                             else (cache_insert i expected vc1, Inr (ri, offset g)))))))"

text \<open>A bounded read of the whole granted range; \<open>content\<close> is what the file holds when it is read.\<close>

definition MAX_HELPER_BYTES :: nat where "MAX_HELPER_BYTES = 256 * 1024 * 1024"

definition read_exact_slice ::
  "(byte list \<Rightarrow> ustr) \<Rightarrow> (ustr \<Rightarrow> file_stat option) \<Rightarrow> opened_file option \<Rightarrow> byte list \<Rightarrow> int
   \<Rightarrow> source_read_grant \<Rightarrow> catalog \<Rightarrow> verification_cache
   \<Rightarrow> verification_cache \<times> (catalog_error, byte list) result" where
  "read_exact_slice sha256_hex lstat opened content now g c vc =
     (if read_length g > MAX_HELPER_BYTES then (vc, Inl InvalidRange)
      else (case open_grant sha256_hex lstat opened now g c vc of
          (vc', Inl e) \<Rightarrow> (vc', Inl e)
        | (vc', Inr (_, position)) \<Rightarrow>
            (let bytes = take (read_length g) (drop position content)
             in (vc', if length bytes \<noteq> read_length g then Inl VersionMismatch else Inr bytes))))"

definition full_sha256 ::
  "(byte list \<Rightarrow> ustr) \<Rightarrow> (ustr \<Rightarrow> file_stat option) \<Rightarrow> byte list option \<Rightarrow> file_stat option
   \<Rightarrow> ustr \<Rightarrow> ustr \<Rightarrow> ustr \<Rightarrow> catalog \<Rightarrow> (catalog_error, ustr) result" where
  "full_sha256 sha256_hex lstat content after rid item_id version c =
     bind_result (resolve rid item_id c) (\<lambda>ri.
       if ce_content_version (ri_item ri) \<noteq> version then Inl VersionMismatch
       else bind_result (open_safe_file lstat (ri_root ri) (ri_item ri) (ri_path ri)) (\<lambda>_.
         case (content, after) of
           (Some bytes, Some st) \<Rightarrow>
             if \<not> st_file st \<or> st_len st \<noteq> ce_size (ri_item ri) then Inl VersionMismatch
             else Inr (sha256_hex bytes)
         | _ \<Rightarrow> Inl CatalogIo))"

definition QUICK_FINGERPRINT_BYTES :: nat where "QUICK_FINGERPRINT_BYTES = 64 * 1024"

text \<open>The first and the last 64 KiB; a file shorter than its stated length cannot be read.\<close>

definition quick_fingerprint ::
  "(byte list \<Rightarrow> ustr) \<Rightarrow> byte list \<Rightarrow> nat \<Rightarrow> int option \<Rightarrow> ustr option" where
  "quick_fingerprint sha256_hex content len modified =
     (let prefix = le_bytes 8 len @ i64_le_bytes (case modified of Some t \<Rightarrow> t | None \<Rightarrow> 0);
          n = min QUICK_FINGERPRINT_BYTES len;
          lead = take n content
      in if length lead \<noteq> n then None
         else if len \<le> QUICK_FINGERPRINT_BYTES then Some (lit ''q1-'' @ sha256_hex (prefix @ lead))
         else let tail = take QUICK_FINGERPRINT_BYTES (drop (len - QUICK_FINGERPRINT_BYTES) content)
              in if length tail \<noteq> QUICK_FINGERPRINT_BYTES then None
                 else Some (lit ''q1-'' @ sha256_hex (prefix @ lead @ tail)))"

end
