(* ===== verification/Source_Catalog_Properties.thy ===== *)
theory Source_Catalog_Properties
  imports Source_Catalog
begin

text \<open>
  What the worker's catalog guarantees: a resolved grant names a file below its root and a
  range inside it; a scan keeps item ids unique and reuses an id only for the same path or the
  same signature, although it may take the id of a file that is still there; and bytes served
  under an expected digest have that digest.
\<close>

section \<open>Paths below a root\<close>

text \<open>A piece a sanitized path may have.\<close>

definition piece_ok :: "ustr \<Rightarrow> bool" where
  "piece_ok v \<longleftrightarrow> v \<noteq> [] \<and> v \<noteq> [46] \<and> v \<noteq> [46, 46] \<and> 47 \<notin> set v \<and> \<not> list_ex is_control v"

lemma split_join_pieces:
  assumes "ps \<noteq> []" "\<forall>p\<in>set ps. 47 \<notin> set p"
  shows "split_on 47 (join_pieces ps) = ps"
  using assms
proof (induction ps)
  case (Cons q qs)
  show ?case
  proof (cases qs)
    case Nil
    then show ?thesis using Cons by (simp add: join_pieces_def split_on_none)
  next
    case (Cons r rs)
    then have "join_pieces (q # qs) = q @ 47 # join_pieces qs" by (simp add: join_pieces_def)
    then show ?thesis using Cons Cons.IH \<open>\<forall>p\<in>set (q # qs). 47 \<notin> set p\<close>
      by (simp add: split_on_append split_on_none)
  qed
qed simp

lemma split_on_pieces: "p \<in> set (split_on c xs) \<Longrightarrow> c \<notin> set p"
  by (induction xs arbitrary: p) (auto split: if_splits list.splits)

lemma normal_pieces_Some:
  "normal_pieces cs = Some ps \<Longrightarrow> cs = map Normal ps
     \<and> (\<forall>p\<in>set ps. p \<noteq> [] \<and> p \<noteq> [46] \<and> p \<noteq> [46, 46] \<and> \<not> list_ex is_control p)"
proof (induction cs arbitrary: ps rule: normal_pieces.induct)
  case (2 v cs)
  have v: "\<not> (v = [] \<or> v = [46] \<or> v = [46, 46] \<or> list_ex is_control v)"
    using 2(2) by (metis normal_pieces.simps(2) option.distinct(1))
  then obtain qs where qs: "normal_pieces cs = Some qs" "ps = v # qs"
    using 2(2) unfolding normal_pieces.simps(2) if_not_P [OF v] by blast
  from 2(1) [OF v qs(1)] v show ?case unfolding qs(2) by simp
qed simp_all

lemma components_pieces: "Normal p \<in> set (components s) \<Longrightarrow> 47 \<notin> set p"
  by (auto simp: components_def component_of_def Let_def split: if_splits dest: split_on_pieces)

lemma sanitized_pieces:
  assumes "sanitize_relative_path s = Some q"
  obtains ps where "ps \<noteq> []" "\<forall>p\<in>set ps. piece_ok p" "q = join_pieces ps" "components s = map Normal ps"
proof -
  obtain ps where ps: "normal_pieces (components s) = Some ps" "ps \<noteq> []" "q = join_pieces ps"
    using assms by (auto simp: sanitize_relative_path_def split: if_splits option.splits)
  note n = normal_pieces_Some [OF ps(1)]
  moreover have "47 \<notin> set p" if "p \<in> set ps" for p
    by (rule components_pieces [of _ s]) (use n that in simp)
  ultimately have "\<forall>p\<in>set ps. piece_ok p" by (auto simp: piece_ok_def)
  then show ?thesis using that ps n by blast
qed

lemma is_absolute_iff [simp]: "is_absolute (x # xs) \<longleftrightarrow> x = 47" "\<not> is_absolute []"
  by (simp_all add: is_absolute_def starts_with_def)

lemma is_absolute_append: "is_absolute p \<Longrightarrow> is_absolute (p @ q)"
  by (cases p) simp_all

lemma joined_relative:
  assumes "ps \<noteq> []" "\<forall>p\<in>set ps. piece_ok p"
  shows "\<not> is_absolute (join_pieces ps)"
proof -
  obtain q qs where q: "ps = q # qs" using assms(1) by (cases ps) auto
  obtain x xs where x: "q = x # xs" using assms(2) q by (cases q) (auto simp: piece_ok_def)
  then have "x \<noteq> 47" using assms(2) q by (simp add: piece_ok_def)
  then show ?thesis by (simp add: q x join_pieces_def is_absolute_iff)
qed

lemma components_absolute:
  "is_absolute p \<Longrightarrow> components p = RootDir # map component_of (filter (\<lambda>s. s \<noteq> [] \<and> s \<noteq> [46]) (split_on 47 p))"
  by (simp add: components_def)

lemma ends_with_slash: "ends_with p [47] \<Longrightarrow> p = butlast p @ [47]"
  by (cases p rule: rev_cases) (auto simp: ends_with_def)

text \<open>Joining a sanitized path adds exactly its pieces to the components.\<close>

lemma components_join:
  assumes p: "is_absolute p" and ps: "ps \<noteq> []" "\<forall>q\<in>set ps. piece_ok q"
  shows "components (path_join p (join_pieces ps)) = components p @ map Normal ps"
proof -
  have sp: "split_on 47 (join_pieces ps) = ps"
    using ps by (intro split_join_pieces) (auto simp: piece_ok_def)
  have fl: "map component_of (filter (\<lambda>s. s \<noteq> [] \<and> s \<noteq> [46]) ps) = map Normal ps"
    using ps(2) by (induction ps) (auto simp: piece_ok_def component_of_def)
  have rel: "\<not> is_absolute (join_pieces ps)" by (rule joined_relative [OF ps])
  have ne: "p \<noteq> []" using p by auto
  show ?thesis
  proof (cases "ends_with p [47]")
    case True
    then have b: "p = butlast p @ [47]" by (rule ends_with_slash)
    have j: "path_join p (join_pieces ps) = butlast p @ 47 # join_pieces ps"
      using rel True arg_cong [OF b, of "\<lambda>p. p @ join_pieces ps"] by (simp add: path_join_def)
    have abs: "is_absolute (butlast p @ 47 # join_pieces ps)"
      using is_absolute_append [OF p, of "join_pieces ps"] arg_cong [OF b, of "\<lambda>p. p @ join_pieces ps"] by simp
    have "split_on 47 p = split_on 47 (butlast p) @ [[]]"
      by (subst b) (simp add: split_on_append)
    then show ?thesis
      unfolding j components_absolute [OF abs] components_absolute [OF p]
      by (simp add: split_on_append sp fl)
  next
    case False
    then have j: "path_join p (join_pieces ps) = p @ 47 # join_pieces ps"
      using rel ne by (simp add: path_join_def)
    have abs: "is_absolute (p @ 47 # join_pieces ps)"
      by (rule is_absolute_append [OF p])
    show ?thesis
      unfolding j components_absolute [OF abs] components_absolute [OF p]
      by (simp add: split_on_append sp fl)
  qed
qed

text \<open>
  C7. A grant the catalog resolves names an entry of its root with the granted content version, a
  range inside that entry and within its byte budget, and a path that is the root's path
  followed by one or more ordinary names: no name is empty, \<open>.\<close>, \<open>..\<close> or contains a separator
  or a control character.
\<close>

theorem resolve_grant_sound:
  assumes "map_of c (root_id g) = Some r" "config_validate parse_url (pr_config r) = Inr ()"
    and "resolve_grant now g c = Inr ri"
  shows "ri_root ri = pr_config r \<and> ri_item ri \<in> set (pr_entries r)
    \<and> ce_worker_item_id (ri_item ri) = worker_item_id g
    \<and> ce_content_version (ri_item ri) = worker_content_version g
    \<and> offset g + read_length g \<le> ce_size (ri_item ri) \<and> read_length g \<le> max_bytes g
    \<and> \<not> is_expired_at now g
    \<and> (\<exists>ps. ps \<noteq> [] \<and> (\<forall>p\<in>set ps. piece_ok p)
        \<and> components (ri_path ri) = components (cfg_path (pr_config r)) @ map Normal ps)"
proof -
  obtain e p where e: "find (\<lambda>e. ce_worker_item_id e = worker_item_id g) (pr_entries r) = Some e"
    and p: "checked_entry_path (pr_config r) e = Inr p"
    and ri: "ri = \<lparr>ri_root = pr_config r, ri_item = e, ri_path = p\<rparr>"
    and v: "ce_content_version e = worker_content_version g"
    and range: "validate_range e (mode g) (offset g) (read_length g) (max_bytes g) = Inr ()"
    and now: "\<not> is_expired_at now g"
    using assms(1,3)
    by (auto simp: resolve_grant_def resolve_def split: sum.splits if_splits option.splits)
  have mem: "e \<in> set (pr_entries r)" "ce_worker_item_id e = worker_item_id g"
    using e by (auto simp: find_Some_iff)
  obtain q where q: "sanitize_relative_path (ce_relative_path e) = Some q"
    and pq: "p = path_join (cfg_path (pr_config r)) q"
    using p by (auto simp: checked_entry_path_def Let_def split: if_splits option.splits)
  obtain ps where ps: "ps \<noteq> []" "\<forall>p\<in>set ps. piece_ok p" "q = join_pieces ps"
    by (rule sanitized_pieces [OF q])
  have "is_absolute (cfg_path (pr_config r))"
    using assms(2) by (simp add: config_validate_def split: if_splits)
  then have "components p = components (cfg_path (pr_config r)) @ map Normal ps"
    using components_join ps pq by blast
  moreover have "offset g + read_length g \<le> ce_size e" "read_length g \<le> max_bytes g"
    using range by (auto simp: validate_range_def split: if_splits)
  ultimately show ?thesis using mem ri v now ps by auto
qed

definition example_config :: source_root_config where
  "example_config = \<lparr>cfg_root_id = [114], cfg_label = [76], cfg_kind = [107],
     cfg_privacy_mode = PRIVACY_CATALOG, cfg_path = [47, 114], cfg_transport = Tunnel,
     cfg_direct_base_url = None\<rparr>"

definition example_entry :: catalog_entry where
  "example_entry = \<lparr>ce_worker_item_id = [105], ce_content_version = [118], ce_root_id = [114],
     ce_absolute_path = [47, 114, 47, 98], ce_relative_path = [98], ce_size = 5,
     ce_modified_at_ms = None, ce_quick_fingerprint = [113], ce_media_type = None, ce_metadata = None\<rparr>"

definition example_persisted :: persisted_root where
  "example_persisted = \<lparr>pr_config = example_config, pr_revision = 1, pr_entries = [example_entry]\<rparr>"

definition example_catalog :: catalog where
  "example_catalog = [([114], example_persisted)]"

definition example_read :: source_read_grant where
  "example_read = \<lparr>root_id = [114], worker_item_id = [105], worker_content_version = [118],
     expected_sha256 = None, mode = RangeRead, offset = 2, read_length = 3, transport = Tunnel,
     expires_at = 1700000060, max_bytes = 3, grant_id = [103]\<rparr>"

lemma example_path: "checked_entry_path example_config example_entry = Inr [47, 114, 47, 98]"
  by (simp add: checked_entry_path_def example_config_def example_entry_def sanitize_relative_path_def
      components_def component_of_def is_control_def join_pieces_def path_join_def ends_with_def path_eq_def)

lemmas example_resolution = resolve_grant_def resolve_def example_catalog_def
  example_persisted_def validate_range_def is_expired_at_def expires_at_millis_def wall_millis_def
  example_read_def example_entry_def

lemma example_resolves:
  "resolve_grant 0 example_read example_catalog
     = Inr \<lparr>ri_root = example_config, ri_item = example_entry, ri_path = [47, 114, 47, 98]\<rparr>"
proof -
  have "grant_validate example_read = Inr ()"
    by (simp add: grant_validate_iff example_read_def U64_MAX_def)
  then show ?thesis using example_path by (simp add: example_resolution)
qed

theorem resolve_grant_sound_witness:
  "\<exists>ps. ps \<noteq> [] \<and> (\<forall>p\<in>set ps. piece_ok p) \<and> components [47, 114, 47, 98] = components [47, 114] @ map Normal ps"
proof -
  have c: "config_validate (\<lambda>_. None) (pr_config example_persisted) = Inr ()"
    by (simp add: config_validate_def example_persisted_def example_config_def simple_id_def byte_len_def
        utf8_def utf8_char.simps trim_def drop_end_while_def is_whitespace_def)
  have m: "map_of example_catalog (root_id example_read) = Some example_persisted"
    by (simp add: example_catalog_def example_read_def)
  show ?thesis
    using resolve_grant_sound [OF m c example_resolves] by (simp add: example_persisted_def example_config_def)
qed

section \<open>Item identity across scans\<close>

lemma assign_ids_observations [simp]: "map snd (assign_ids prev xs used ids) = map snd xs"
  by (induction prev xs used ids rule: assign_ids.induct) (simp_all add: Let_def)

lemma by_path_Some:
  assumes "by_path prev p = Some i"
  shows "i < length prev \<and> ce_relative_path (prev ! i) = p"
proof -
  have "i \<in> set (filter (\<lambda>i. ce_relative_path (prev ! i) = p) [0..<length prev])"
    using assms unfolding by_path_def by (metis (no_types, lifting) last_in_set list.distinct(1) list.exhaust
        list.simps(4,5) option.distinct(1) option.inject)
  then show ?thesis by simp
qed

lemma by_signature_one:
  "by_signature prev s = [j] \<Longrightarrow> j < length prev \<and> entry_signature (prev ! j) = s"
proof -
  assume "by_signature prev s = [j]"
  then have "j \<in> set (by_signature prev s)" by simp
  then show ?thesis by (simp add: by_signature_def)
qed

lemma old_index_Some:
  assumes "old_index prev used ob = Some i"
  shows "i < length prev \<and> i \<notin> set used
    \<and> (ce_relative_path (prev ! i) = ob_relative_path ob \<or> entry_signature (prev ! i) = observed_signature ob)"
  using assms by_path_Some [of prev "ob_relative_path ob"]
    by_signature_one [of prev "observed_signature ob"]
  by (auto simp: old_index_def split: option.splits if_splits list.splits)

lemma assign_ids_distinct:
  assumes "distinct (map fst xs)"
    and "new_item_id ` fst ` set xs \<inter> set ids = {}"
    and "new_item_id ` fst ` set xs \<inter> ce_worker_item_id ` set prev = {}"
  shows "distinct (map fst (assign_ids prev xs used ids))
    \<and> set (map fst (assign_ids prev xs used ids)) \<inter> set ids = {}"
  using assms
proof (induction prev xs used ids rule: assign_ids.induct)
  case (2 prev uuid ob obs used ids)
  define old where "old = old_index prev used ob"
  define item_id where "item_id = (case old of
      Some i \<Rightarrow> (let k = ce_worker_item_id (prev ! i) in if k \<notin> set ids then k else new_item_id uuid)
    | None \<Rightarrow> new_item_id uuid)"
  define used' where "used' = (case old of Some i \<Rightarrow> i # used | None \<Rightarrow> used)"
  have old: "item_id = new_item_id uuid \<or> item_id \<in> ce_worker_item_id ` set prev"
    using old_index_Some [of prev used ob]
    by (auto simp: item_id_def old_def Let_def split: option.split)
  have new: "item_id \<notin> set ids"
    using 2(3) by (auto simp: item_id_def Let_def split: option.split)
  have inj: "new_item_id u = new_item_id uuid \<Longrightarrow> u = uuid" for u by (simp add: new_item_id_def)
  have "new_item_id uuid \<notin> new_item_id ` fst ` set obs"
    using 2(2) by (metis distinct.simps(2) fst_conv imageE inj list.set_map list.simps(9))
  moreover have n4: "new_item_id ` fst ` set obs \<inter> ce_worker_item_id ` set prev = {}" using 2(4) by auto
  ultimately have "item_id \<notin> new_item_id ` fst ` set obs"
    using old by (metis IntI empty_iff)
  then have "new_item_id ` fst ` set obs \<inter> set (item_id # ids) = {}" using 2(3) by auto
  with n4 have "distinct (map fst (assign_ids prev obs used' (item_id # ids)))
      \<and> set (map fst (assign_ids prev obs used' (item_id # ids))) \<inter> set (item_id # ids) = {}"
    using 2(1) [OF old_def used'_def item_id_def] 2(2) by simp
  moreover have "assign_ids prev ((uuid, ob) # obs) used ids = (item_id, ob) # assign_ids prev obs used' (item_id # ids)"
    by (simp add: Let_def old_def item_id_def used'_def)
  ultimately show ?case using new by auto
qed simp

lemma assign_ids_reuse:
  assumes "(k, ob) \<in> set (assign_ids prev xs used ids)"
    and "k \<in> ce_worker_item_id ` set prev" "new_item_id ` fst ` set xs \<inter> ce_worker_item_id ` set prev = {}"
  shows "\<exists>e\<in>set prev. ce_worker_item_id e = k
    \<and> (ce_relative_path e = ob_relative_path ob \<or> entry_signature e = observed_signature ob)"
  using assms
proof (induction prev xs used ids rule: assign_ids.induct)
  case (2 prev uuid ob' obs used ids)
  show ?case
  proof (cases "(k, ob) \<in> set (assign_ids prev obs (case old_index prev used ob' of Some i \<Rightarrow> i # used | None \<Rightarrow> used)
      ((case old_index prev used ob' of Some i \<Rightarrow> (let k = ce_worker_item_id (prev ! i)
          in if k \<notin> set ids then k else new_item_id uuid) | None \<Rightarrow> new_item_id uuid) # ids))")
    case True
    from 2(1) [OF refl refl refl True 2(3)] 2(4) show ?thesis by auto
  next
    case False
    have "new_item_id uuid \<notin> ce_worker_item_id ` set prev" using 2(4) by simp
    with 2(3) have new: "k \<noteq> new_item_id uuid" by metis
    with False 2(2) obtain i where "old_index prev used ob' = Some i" "k = ce_worker_item_id (prev ! i)" "ob = ob'"
      by (auto simp: Let_def split: option.splits if_splits)
    then show ?thesis using old_index_Some [of prev used ob' i] nth_mem by fast
  qed
qed simp

lemma sorted_observations_length [simp]: "length (sorted_observations obs) = length obs"
  by (simp add: sorted_observations_def)

lemma entry_of_simps [simp]:
  "ce_worker_item_id (entry_of sha rid k ob) = k"
  "ce_relative_path (entry_of sha rid k ob) = ob_relative_path ob"
  "entry_signature (entry_of sha rid k ob) = observed_signature ob"
  by (simp_all add: entry_of_def entry_signature_def observed_signature_def)

text \<open>
  C24. A committed scan lists the observed files in the order of their paths, advances the revision
  by one (stopping at the largest \<open>u64\<close>), gives every file an id of its own, and gives a file
  the id of a previously catalogued one only if it has the same path or the same size,
  modification time and fingerprint. The fresh ids are assumed to be new and pairwise
  different, as random UUIDs are.
\<close>

theorem commit_scan_identity:
  assumes r: "map_of c rid = Some r" and s: "commit_scan sha uuids True rid obs c = (c', Inr s)"
    and uuids: "inj uuids" "\<And>n. new_item_id (uuids n) \<notin> ce_worker_item_id ` set (pr_entries r)"
    and old: "distinct (map ce_worker_item_id (pr_entries r))"
  shows "map ce_relative_path (sn_items s) = map ob_relative_path (sort_key ob_relative_path obs)
    \<and> sn_revision s = min U64_MAX (pr_revision r + 1)
    \<and> distinct (map ce_worker_item_id (sn_items s))
    \<and> (\<forall>e\<in>set (sn_items s). \<forall>e'\<in>set (pr_entries r). ce_worker_item_id e = ce_worker_item_id e'
         \<longrightarrow> ce_relative_path e = ce_relative_path e' \<or> entry_signature e = entry_signature e')"
proof -
  define xs where "xs = zip (map uuids [0..<length obs]) (sorted_observations obs)"
  define ids where "ids = assign_ids (pr_entries r) xs [] []"
  have inj: "inj_on ce_worker_item_id (set (pr_entries r))" using old by (simp add: distinct_map)
  have "s = snapshot_of (scanned_root sha uuids rid obs r)"
    using r s by (simp add: commit_scan_def Let_def)
  then have sn: "sn_items s = map (\<lambda>(k, ob). entry_of sha rid k ob) ids"
    "sn_revision s = saturating_add_u64 (pr_revision r) 1"
    by (simp_all add: scanned_root_def snapshot_of_def ids_def xs_def)
  have fst_xs: "map fst xs = map uuids [0..<length obs]" by (simp add: xs_def)
  have dx: "distinct (map fst xs)"
    unfolding fst_xs by (simp add: distinct_map inj_on_subset [OF uuids(1)])
  have "fst ` set xs \<subseteq> range uuids"
    using arg_cong [OF fst_xs, of set] by auto
  then have "new_item_id ` fst ` set xs \<subseteq> new_item_id ` range uuids" by (rule image_mono)
  moreover have "new_item_id ` range uuids \<inter> ce_worker_item_id ` set (pr_entries r) = {}"
    using uuids(2) by auto
  ultimately have new: "new_item_id ` fst ` set xs \<inter> ce_worker_item_id ` set (pr_entries r) = {}"
    by (metis (no_types) Int_mono order_refl subset_empty)
  have d: "distinct (map fst ids)"
    unfolding ids_def using dx new assign_ids_distinct [of xs "[]" "pr_entries r" "[]"] by simp
  have "map snd ids = sorted_observations obs" by (simp add: ids_def xs_def)
  moreover have "map ce_relative_path (sn_items s) = map ob_relative_path (map snd ids)"
    unfolding sn by (simp add: case_prod_beta)
  ultimately have "map ce_relative_path (sn_items s) = map ob_relative_path (sort_key ob_relative_path obs)"
    by (simp only: sorted_observations_def)
  moreover have "map ce_worker_item_id (sn_items s) = map fst ids"
    unfolding sn by (simp add: case_prod_beta)
  moreover have "ce_relative_path e = ce_relative_path e' \<or> entry_signature e = entry_signature e'"
    if e: "e \<in> set (sn_items s)" and e': "e' \<in> set (pr_entries r)"
      and same: "ce_worker_item_id e = ce_worker_item_id e'" for e e'
  proof -
    obtain k ob where k: "(k, ob) \<in> set ids" "e = entry_of sha rid k ob" using e sn by auto
    have kin: "k \<in> ce_worker_item_id ` set (pr_entries r)" using e' same k(2) by simp
    obtain e2 where e2: "e2 \<in> set (pr_entries r)" "ce_worker_item_id e2 = k"
      "ce_relative_path e2 = ob_relative_path ob \<or> entry_signature e2 = observed_signature ob"
      using assign_ids_reuse [OF k(1) [unfolded ids_def] _ new] kin by blast
    have "e2 = e'"
      using inj_onD [OF inj _ e2(1) e'] e2(2) same k(2) by simp
    with e2(3) k(2) show ?thesis by auto
  qed
  moreover have "sn_revision s = min U64_MAX (pr_revision r + 1)"
    unfolding sn saturating_add_u64_def by simp
  ultimately show ?thesis using d by metis
qed

definition example_observation :: "ustr \<Rightarrow> catalog_observation" where
  "example_observation p = \<lparr>ob_absolute_path = [47, 114, 47] @ p, ob_relative_path = p, ob_size = 5,
     ob_modified_at_ms = None, ob_quick_fingerprint = [113], ob_media_type = None, ob_metadata = None\<rparr>"

definition example_scan :: "catalog \<times> (catalog_error, catalog_snapshot) result" where
  "example_scan = commit_scan (\<lambda>_. []) (\<lambda>n. [n]) True [114]
     [example_observation [97], example_observation [98]] example_catalog"

theorem commit_scan_identity_witness:
  "map ce_relative_path (sn_items (snapshot_of (snd (hd (fst example_scan))))) = [[97], [98]]"
proof -
  let ?s = "snapshot_of (scanned_root (\<lambda>_. []) (\<lambda>n. [n]) [114]
    [example_observation [97], example_observation [98]] example_persisted)"
  have s: "example_scan = ([([114], scanned_root (\<lambda>_. []) (\<lambda>n. [n]) [114]
      [example_observation [97], example_observation [98]] example_persisted)], Inr ?s)"
    by (simp add: example_scan_def commit_scan_def example_catalog_def Let_def)
  have m: "map_of example_catalog [114] = Some example_persisted" by (simp add: example_catalog_def)
  have u: "inj (\<lambda>n::nat. [n])" by (simp add: inj_def)
  have "map ce_relative_path (sn_items ?s)
      = map ob_relative_path (sort_key ob_relative_path [example_observation [97], example_observation [98]])"
    using commit_scan_identity [OF m s [unfolded example_scan_def] u]
    by (simp add: example_persisted_def example_entry_def new_item_id_def lit_def)
  then show ?thesis by (simp add: s example_observation_def)
qed

text \<open>
  C38. A copied file can take the identity of a file that has not changed. When one catalogued
  file is still observed at its path and a second file with the same size, modification time
  and fingerprint appears under a path that sorts before it, the scan gives the catalogued
  id to the newcomer and a new id to the file that kept its path.
\<close>

theorem copied_file_takes_identity:
  assumes "pr_entries r = [e]" "ob_relative_path b = ce_relative_path e"
    and "ob_relative_path a < ob_relative_path b"
    and "observed_signature a = entry_signature e" "observed_signature b = entry_signature e"
  shows "map (\<lambda>x. (ce_relative_path x, ce_worker_item_id x)) (pr_entries (scanned_root sha uuids rid [a, b] r))
    = [(ob_relative_path a, ce_worker_item_id e), (ce_relative_path e, new_item_id (uuids 1))]"
proof -
  have sorted: "sorted_observations [a, b] = [a, b]"
    using assms(3) by (simp add: sorted_observations_def)
  have first: "old_index [e] [] a = Some 0"
    using assms(2-4) by (simp add: old_index_def by_path_def by_signature_def)
  have second: "old_index [e] [0] b = None"
    using assms(2,5) by (simp add: old_index_def by_path_def by_signature_def)
  have "assign_ids [e] [(uuids 0, a), (uuids 1, b)] [] [] = [(ce_worker_item_id e, a), (new_item_id (uuids 1), b)]"
    by (simp add: first second Let_def)
  then show ?thesis
    using assms(1,2) by (simp add: scanned_root_def sorted upt_rec)
qed

theorem copied_file_takes_identity_witness:
  "map (\<lambda>x. (ce_relative_path x, ce_worker_item_id x))
     (pr_entries (scanned_root (\<lambda>_. []) (\<lambda>n. [n]) [114] [example_observation [97], example_observation [98]]
        example_persisted)) = [([97], [105]), ([98], new_item_id [1])]"
  using copied_file_takes_identity [of example_persisted example_entry "example_observation [98]"
      "example_observation [97]"]
  by (simp add: example_persisted_def example_entry_def example_observation_def observed_signature_def
      entry_signature_def)

section \<open>Verified reads\<close>

text \<open>Every cached key is in the order and back, and stands for a file with that digest.\<close>

definition cache_ok ::
  "(byte list \<Rightarrow> ustr) \<Rightarrow> (file_identity \<Rightarrow> byte list) \<Rightarrow> verification_cache \<Rightarrow> bool" where
  "cache_ok sha bytes_of vc \<longleftrightarrow>
     set (vc_entries vc) = set (vc_order vc) \<and> distinct (vc_order vc)
     \<and> length (vc_order vc) \<le> VERIFIED_DIGEST_CACHE_CAPACITY
     \<and> (\<forall>(i, d)\<in>set (vc_entries vc). sha (bytes_of i) = d)"

lemma invalidate_ok: "cache_ok sha bytes_of vc \<Longrightarrow> cache_ok sha bytes_of (invalidate_for_identity i vc)"
  by (auto simp: cache_ok_def invalidate_for_identity_def intro: le_trans [OF length_filter_le])

lemma to_back_simps [simp]:
  "set (to_back k ks) = insert k (set ks)" "distinct ks \<Longrightarrow> distinct (to_back k ks)"
  by (auto simp: to_back_def)

lemma to_back_length: "distinct ks \<Longrightarrow> length (to_back k ks) = (if k \<in> set ks then length ks else Suc (length ks))"
proof -
  assume d: "distinct ks"
  then have "length (to_back k ks) = card (insert k (set ks))"
    by (metis distinct_card to_back_simps)
  with d show ?thesis by (auto simp: card_insert_if distinct_card)
qed

lemma contains_ok:
  assumes ok: "cache_ok sha bytes_of vc" and c: "cache_contains i d vc = (vc', hit)"
  shows "cache_ok sha bytes_of vc'" "hit \<Longrightarrow> sha (bytes_of i) = d"
proof -
  let ?v = "invalidate_for_identity i vc"
  have v: "cache_ok sha bytes_of ?v" by (rule invalidate_ok [OF ok])
  show "hit \<Longrightarrow> sha (bytes_of i) = d"
    using c v by (auto simp: cache_contains_def Let_def cache_ok_def split: if_splits)
  show "cache_ok sha bytes_of vc'"
    using c v by (auto simp: cache_contains_def Let_def cache_ok_def to_back_length split: if_splits)
qed

text \<open>Evicting stops at the capacity and keeps the two collections in step.\<close>

lemma evict_ok:
  assumes "set (vc_entries vc) = set (vc_order vc)" "distinct (vc_order vc)"
    and "\<forall>(i, d)\<in>set (vc_entries vc). sha (bytes_of i) = d"
  shows "cache_ok sha bytes_of (evict vc)"
  using assms
proof (induction vc rule: evict.induct)
  case (1 vc)
  show ?case
  proof (cases "length (vc_order vc) > VERIFIED_DIGEST_CACHE_CAPACITY")
    case False
    then show ?thesis using 1(2-4) by (subst evict.simps) (simp add: cache_ok_def)
  next
    case True
    then obtain k ks where k: "vc_order vc = k # ks" by (cases "vc_order vc") auto
    from 1(1) [OF True] 1(2-4) True show ?thesis
      by (subst evict.simps) (auto simp: k)
  qed
qed

lemma insert_ok:
  assumes "cache_ok sha bytes_of vc" "sha (bytes_of i) = d"
  shows "cache_ok sha bytes_of (cache_insert i d vc)"
  using invalidate_ok [OF assms(1), of i] assms(2)
  unfolding cache_insert_def Let_def by (intro evict_ok) (auto simp: cache_ok_def)

text \<open>One request to open a grant: what the file system and the clock answer.\<close>

record open_call =
  oc_lstat :: "ustr \<Rightarrow> file_stat option"
  oc_opened :: "opened_file option"
  oc_now :: int
  oc_grant :: source_read_grant
  oc_catalog :: catalog

definition call_open ::
  "(byte list \<Rightarrow> ustr) \<Rightarrow> open_call \<Rightarrow> verification_cache
   \<Rightarrow> verification_cache \<times> (catalog_error, resolved_item \<times> nat) result" where
  "call_open sha x vc = open_grant sha (oc_lstat x) (oc_opened x) (oc_now x) (oc_grant x) (oc_catalog x) vc"

definition stable :: "(file_identity \<Rightarrow> byte list) \<Rightarrow> open_call \<Rightarrow> bool" where
  "stable bytes_of x \<longleftrightarrow>
     (case oc_opened x of
        None \<Rightarrow> True
      | Some f \<Rightarrow> of_final_identity f = of_identity f \<longrightarrow> of_content f = bytes_of (of_identity f))"

lemma call_open_ok:
  assumes ok: "cache_ok sha bytes_of vc" and st: "stable bytes_of x"
    and call: "call_open sha x vc = (vc', r)"
  shows "cache_ok sha bytes_of vc'"
    "r = Inr res \<Longrightarrow> expected_sha256 (oc_grant x) = Some d
      \<Longrightarrow> \<exists>f. oc_opened x = Some f \<and> sha (bytes_of (of_identity f)) = d"
proof -
  note defs = call_open_def open_grant_def Let_def stable_def
  show "cache_ok sha bytes_of vc'"
    using call st ok contains_ok [OF ok] invalidate_ok insert_ok
    by (auto simp: defs split: sum.splits option.splits if_splits prod.splits)
  show "r = Inr res \<Longrightarrow> expected_sha256 (oc_grant x) = Some d
      \<Longrightarrow> \<exists>f. oc_opened x = Some f \<and> sha (bytes_of (of_identity f)) = d"
    using call st contains_ok [OF ok]
    by (auto simp: defs split: sum.splits option.splits if_splits prod.splits)
qed

text \<open>
  C8. A read opened under an expected digest is a read of a file with that digest, also when the
  answer comes from the cache: starting from the empty cache, after any requests, a request
  that succeeds has opened a file whose content hashes to the expected digest, and the cache
  never holds more than 128 verified files. The file system is assumed to keep a file's
  content while its path, length, times, device and inode stay the same.
\<close>

theorem verified_reads:
  assumes "\<forall>x\<in>set (calls @ [x]). stable bytes_of x"
    and "vc = fold (\<lambda>x vc. fst (call_open sha x vc)) calls \<lparr>vc_entries = [], vc_order = []\<rparr>"
  shows "length (vc_order vc) \<le> 128
    \<and> (snd (call_open sha x vc) = Inr res \<and> expected_sha256 (oc_grant x) = Some d
       \<longrightarrow> (\<exists>f. oc_opened x = Some f \<and> sha (bytes_of (of_identity f)) = d))"
proof -
  have "cache_ok sha bytes_of (fold (\<lambda>x vc. fst (call_open sha x vc)) calls v)"
    if "cache_ok sha bytes_of v" "\<forall>x\<in>set calls. stable bytes_of x" for v
    using that
  proof (induction calls arbitrary: v)
    case (Cons y calls)
    then show ?case using call_open_ok(1) [of sha bytes_of v y] by (simp add: prod_eq_iff)
  qed simp
  moreover have "cache_ok sha bytes_of \<lparr>vc_entries = [], vc_order = []\<rparr>" by (simp add: cache_ok_def)
  ultimately have ok: "cache_ok sha bytes_of vc" using assms by simp
  then have "length (vc_order vc) \<le> 128" by (simp add: cache_ok_def VERIFIED_DIGEST_CACHE_CAPACITY_def)
  then show ?thesis
    using call_open_ok(2) [OF ok _ surjective_pairing, of x res d] assms(1) by simp
qed

definition example_digest :: ustr where "example_digest = replicate 64 97"

definition example_file :: opened_file where
  "example_file = (let i = \<lparr>fi_path = components [47, 114, 47, 98], fi_len = 5, fi_modified = None, fi_device = 1,
       fi_inode = 2, fi_changed = (0, 0)\<rparr>
     in \<lparr>of_identity = i, of_content = [1, 2, 3, 4, 5], of_final_identity = i\<rparr>)"

definition example_call :: open_call where
  "example_call = \<lparr>oc_lstat = (\<lambda>p. Some \<lparr>st_symlink = False, st_dir = p = [47, 114], st_file = p \<noteq> [47, 114],
       st_len = 5\<rparr>), oc_opened = Some example_file, oc_now = 0,
     oc_grant = example_read\<lparr>expected_sha256 := Some example_digest\<rparr>, oc_catalog = example_catalog\<rparr>"

lemma example_call_resolves:
  "resolve_grant 0 (oc_grant example_call) example_catalog
     = Inr \<lparr>ri_root = example_config, ri_item = example_entry, ri_path = [47, 114, 47, 98]\<rparr>"
proof -
  have "is_sha256 example_digest"
    by (simp add: is_sha256_def example_digest_def byte_len_def utf8_def utf8_char.simps is_ascii_digit_def
        eval_nat_numeral)
  then have "grant_validate (oc_grant example_call) = Inr ()"
    by (simp add: grant_validate_iff example_call_def example_read_def U64_MAX_def)
  then show ?thesis
    using example_path by (simp add: example_resolution example_call_def)
qed

lemma example_call_opens:
  "call_open (\<lambda>_. example_digest) example_call \<lparr>vc_entries = [], vc_order = []\<rparr>
     = (cache_insert (of_identity example_file) example_digest \<lparr>vc_entries = [], vc_order = []\<rparr>,
        Inr (\<lparr>ri_root = example_config, ri_item = example_entry, ri_path = [47, 114, 47, 98]\<rparr>, 2))"
proof -
  have safe: "open_safe_file (oc_lstat example_call) example_config example_entry [47, 114, 47, 98] = Inr ()"
    by (simp add: open_safe_file_def example_call_def example_config_def example_entry_def
        reject_symlink_ancestors_def components_def component_of_def push_component_def path_join_def
        ends_with_def path_eq_def strip_path_def is_absolute_def starts_with_def strip_prefix_def)
  have "oc_now example_call = 0" "oc_catalog example_call = example_catalog"
    "oc_opened example_call = Some example_file" "expected_sha256 (oc_grant example_call) = Some example_digest"
    "offset (oc_grant example_call) = 2"
    by (simp_all add: example_call_def example_read_def)
  then show ?thesis
    using example_call_resolves safe
    by (simp add: call_open_def open_grant_def cache_contains_def invalidate_for_identity_def example_file_def
        example_entry_def Let_def)
qed

theorem verified_reads_witness:
  "\<exists>f. oc_opened example_call = Some f \<and> (\<lambda>_. example_digest) (of_content f) = example_digest"
  using verified_reads [of "[]" example_call "\<lambda>_. [1, 2, 3, 4, 5]" _ "\<lambda>_. example_digest" _ example_digest]
    example_call_opens
  by (simp add: stable_def example_call_def example_file_def)

end
