(* ===== verification/Source_Manifest.thy ===== *)
theory Source_Manifest
  imports Source_Catalog Keyed_Table Permissions
begin

text \<open>
  How a worker's catalog reaches the server. \<open>manifest_chunks\<close> is the worker's side
  (\<^verbatim>\<open>crates/worker/src/source_client.rs\<close>); the rest is the server's
  (\<^verbatim>\<open>apps/server/src/routers/api/v2/source_workers.rs\<close>): the rows of the remote sources and
  of their items, the ledger of batches in flight, the registration of a worker's roots,
  reconciliation of one chunk, and verification of one item. The size of a chunk's JSON text
  and its fingerprint, parsing of time stamps, whether the credential is still live and
  whether the connection is still the current one are arguments. A write transaction is one
  step; the ledger is locked before it and again after it.
\<close>

section \<open>The worker's side\<close>

definition manifest_chunk ::
  "ustr \<Rightarrow> nat \<Rightarrow> nat \<Rightarrow> bool \<Rightarrow> source_manifest_item list \<Rightarrow> source_manifest_chunk" where
  "manifest_chunk rid rv n final is =
     \<lparr>batch_id = rid @ [45] @ show_nat rv, chunk_root_id = rid, revision = rv, sequence = n,
      terminal = final, items = is\<rparr>"

datatype source_client_error = Config ustr

definition too_large :: "source_manifest_item \<Rightarrow> source_client_error" where
  "too_large i =
     Config (lit ''manifest item `'' @ mi_worker_item_id i @ lit ''` exceeds the 1 MiB frame budget'')"

text \<open>The loop over the items: the chunks so far and the items of the next one.\<close>

fun pack_items ::
  "(source_manifest_chunk \<Rightarrow> nat) \<Rightarrow> ustr \<Rightarrow> nat \<Rightarrow> source_manifest_item list
   \<Rightarrow> source_manifest_chunk list \<Rightarrow> source_manifest_item list
   \<Rightarrow> (source_client_error, source_manifest_chunk list \<times> source_manifest_item list) result" where
  "pack_items enc rid rv [] cs current = Inr (cs, current)"
| "pack_items enc rid rv (i # is) cs current =
     (let chunk = (\<lambda>cs xs. manifest_chunk rid rv (length cs) False xs);
          full = length current \<ge> MAX_SOURCE_MANIFEST_ITEMS;
          cs1 = (if full then cs @ [chunk cs current] else cs);
          cur1 = (if full then [] else current)
      in if enc (chunk cs1 (cur1 @ [i])) > MAX_SOURCE_MANIFEST_FRAME_BYTES
         then if cur1 = [] then Inl (too_large i)
              else let cs2 = cs1 @ [chunk cs1 cur1]
                   in if enc (chunk cs2 [i]) > MAX_SOURCE_MANIFEST_FRAME_BYTES
                      then Inl (Config (lit ''manifest item exceeds the 1 MiB frame budget''))
                      else pack_items enc rid rv is cs2 [i]
         else pack_items enc rid rv is cs1 (cur1 @ [i]))"

definition renumber :: "source_manifest_chunk list \<Rightarrow> source_manifest_chunk list" where
  "renumber cs =
     map (\<lambda>n. (cs ! n)\<lparr>sequence := n, terminal := (Suc n = length cs)\<rparr>) [0..<length cs]"

definition manifest_chunks ::
  "(source_manifest_chunk \<Rightarrow> nat) \<Rightarrow> (source_protocol_error \<Rightarrow> ustr) \<Rightarrow> ustr \<Rightarrow> nat
   \<Rightarrow> source_manifest_item list \<Rightarrow> (source_client_error, source_manifest_chunk list) result" where
  "manifest_chunks enc text rid rv is =
     bind_result (pack_items enc rid rv is [] []) (\<lambda>(cs, current).
       let cs1 = renumber (if current \<noteq> [] \<or> cs = []
                           then cs @ [manifest_chunk rid rv (length cs) True current] else cs)
       in case find (\<lambda>c. chunk_validate enc c \<noteq> Inr ()) cs1 of
            Some c \<Rightarrow> (case chunk_validate enc c of Inl e \<Rightarrow> Inl (Config (text e)) | Inr _ \<Rightarrow> Inr cs1)
          | None \<Rightarrow> Inr cs1)"

section \<open>The server's tables\<close>

record remote_source =
  src_id :: ustr
  src_device_id :: ustr
  src_root_id :: ustr
  src_label :: ustr
  src_kind :: ustr
  src_privacy_mode :: ustr
  src_transport :: ustr
  src_direct_base_url :: "ustr option"
  src_current_revision :: int
  src_last_seen_at :: int
  src_health :: ustr
  src_created_at :: int
  src_updated_at :: int

record remote_source_item =
  it_id :: ustr
  it_source_id :: ustr
  it_worker_item_id :: ustr
  it_content_version :: ustr
  it_relative_path :: "ustr option"
  it_size :: int
  it_modified_at :: "int option"
  it_media_type :: "ustr option"
  it_quick_fingerprint :: "ustr option"
  it_sha256 :: "ustr option"
  it_metadata :: "json option"
  it_retention :: "json option"
  it_observation_state :: ustr
  it_last_seen_revision :: int
  it_last_seen_at :: int
  it_created_at :: int
  it_updated_at :: int
  it_imported_media_id :: "ustr option"

definition ONLINE :: ustr where "ONLINE = lit ''online''"
definition OBSERVED :: ustr where "OBSERVED = lit ''observed''"
definition VERIFIED :: ustr where "VERIFIED = lit ''source_verified''"
definition MISSING :: ustr where "MISSING = lit ''missing''"
definition TOMBSTONED :: ustr where "TOMBSTONED = lit ''tombstoned''"

record manifest_key =
  mk_device_id :: ustr
  mk_root_id :: ustr
  mk_batch_id :: ustr
  mk_revision :: nat

record manifest_batch =
  next_sequence :: nat
  fingerprints :: "(nat \<times> ustr) list"
  worker_ids :: "ustr list"

definition empty_batch :: manifest_batch where
  "empty_batch = \<lparr>next_sequence = 0, fingerprints = [], worker_ids = []\<rparr>"

text \<open>\<open>ms_drawn\<close> counts the UUIDs drawn so far; the \<open>n\<close>-th is \<open>uuid n\<close> of the environment.\<close>

record manifest_server =
  ms_sources :: "remote_source list"
  ms_items :: "remote_source_item list"
  ms_ledger :: "(manifest_key \<times> manifest_batch) list"
  ms_drawn :: nat

definition source_key :: "remote_source \<Rightarrow> ustr \<times> ustr" where
  "source_key r = (src_device_id r, src_root_id r)"

definition item_key :: "remote_source_item \<Rightarrow> ustr \<times> ustr" where
  "item_key r = (it_source_id r, it_worker_item_id r)"

datatype manifest_error =
    BadRequest string
  | Forbidden string
  | Conflict string
  | ConflictText ustr
  | NotFound string
  | BadGateway ustr
  | ServiceUnavailable
  | DbErr

text \<open>Who may administer remote sources: the owner, or a user with one of two permissions.\<close>

record admin_user =
  au_id :: ustr
  au_owner :: bool
  au_permissions :: "user_permission list"

definition enforce_admin :: "admin_user \<Rightarrow> (manifest_error, unit) result" where
  "enforce_admin u =
     (if au_owner u \<or> ManageLibrary \<in> set (au_permissions u) \<or> ManageServer \<in> set (au_permissions u)
      then Inr () else Inl (Forbidden ''You do not have permission to access this resource.''))"

text \<open>What one call sees of the rest of the process.\<close>

record manifest_env =
  me_now :: int
  me_uuid :: "nat \<Rightarrow> ustr"
  me_live :: bool
  me_current :: bool
  me_fingerprint :: "source_manifest_chunk \<Rightarrow> ustr"
  me_enc :: "source_manifest_chunk \<Rightarrow> nat"
  me_rfc3339 :: "string \<Rightarrow> int option"
  me_timestamp :: "int \<Rightarrow> int option"

text \<open>Casts between \<open>i64\<close> and \<open>u64\<close>.\<close>

definition u64_of_i64 :: "int \<Rightarrow> nat" where
  "u64_of_i64 i = nat (i mod 2 ^ 64)"

definition i64_of_u64 :: "nat \<Rightarrow> int" where
  "i64_of_u64 n = (if n < 2 ^ 63 then int n else int n - 2 ^ 64)"

section \<open>Registering roots\<close>

definition transport_name :: "source_transport \<Rightarrow> ustr" where
  "transport_name t = (case t of Direct \<Rightarrow> lit ''direct'' | Tunnel \<Rightarrow> lit ''tunnel'')"

definition validate_direct_origin ::
  "(ustr \<Rightarrow> url option) \<Rightarrow> source_root_hello \<Rightarrow> (manifest_error, ustr option) result" where
  "validate_direct_origin parse_url r =
     (if hello_transport r = Tunnel then Inr None
      else case hello_direct_base_url r of
             None \<Rightarrow> Inl (BadRequest ''direct source root requires a base URL'')
           | Some base \<Rightarrow>
               (case parse_url base of
                  None \<Rightarrow> Inl (BadRequest ''invalid direct source base URL'')
                | Some u \<Rightarrow>
                    if origin_only u then Inr (Some (drop_end_while (\<lambda>c. c = 47) (url_text u)))
                    else Inl (BadRequest ''direct source base URL must contain only an HTTP(S) origin'')))"

definition refreshed_source ::
  "manifest_env \<Rightarrow> ustr option \<Rightarrow> source_root_hello \<Rightarrow> remote_source \<Rightarrow> remote_source" where
  "refreshed_source env base r m =
     m\<lparr>src_label := hello_label r, src_kind := hello_kind r, src_privacy_mode := hello_privacy_mode r,
       src_transport := transport_name (hello_transport r), src_direct_base_url := base,
       src_health := ONLINE, src_last_seen_at := me_now env, src_updated_at := me_now env\<rparr>"

definition new_source ::
  "manifest_env \<Rightarrow> ustr \<Rightarrow> ustr \<Rightarrow> ustr option \<Rightarrow> source_root_hello \<Rightarrow> remote_source" where
  "new_source env uuid dev base r =
     \<lparr>src_id = uuid, src_device_id = dev, src_root_id = hello_root_id r, src_label = hello_label r,
      src_kind = hello_kind r, src_privacy_mode = hello_privacy_mode r,
      src_transport = transport_name (hello_transport r), src_direct_base_url = base,
      src_current_revision = 0, src_last_seen_at = me_now env, src_health = ONLINE,
      src_created_at = me_now env, src_updated_at = me_now env\<rparr>"

definition upsert_source ::
  "(ustr \<Rightarrow> url option) \<Rightarrow> manifest_env \<Rightarrow> ustr \<Rightarrow> source_root_hello \<Rightarrow> manifest_server
   \<Rightarrow> (manifest_error, manifest_server) result" where
  "upsert_source parse_url env dev r s =
     bind_result (validate_direct_origin parse_url r) (\<lambda>base.
       case row_at source_key (dev, hello_root_id r) (ms_sources s) of
         Some m \<Rightarrow> Inr (s\<lparr>ms_sources := update_row src_id (refreshed_source env base r m) (ms_sources s)\<rparr>)
       | None \<Rightarrow>
           let uuid = me_uuid env (ms_drawn s)
           in if row_at src_id uuid (ms_sources s) \<noteq> None then Inl DbErr
              else Inr (s\<lparr>ms_sources := insert_row (new_source env uuid dev base r) (ms_sources s),
                          ms_drawn := Suc (ms_drawn s)\<rparr>))"

text \<open>One root after the other, until the credential is no longer live; a root that fails is skipped.\<close>

fun register_roots ::
  "(ustr \<Rightarrow> url option) \<Rightarrow> ustr \<Rightarrow> (source_root_hello \<times> manifest_env) list \<Rightarrow> manifest_server
   \<Rightarrow> manifest_server" where
  "register_roots parse_url dev [] s = s"
| "register_roots parse_url dev ((r, env) # rs) s =
     (if \<not> me_live env then s
      else case upsert_source parse_url env dev r s of
             Inr s' \<Rightarrow> register_roots parse_url dev rs s'
           | Inl _ \<Rightarrow> register_roots parse_url dev rs s)"

definition forget_batches :: "ustr \<Rightarrow> manifest_server \<Rightarrow> manifest_server" where
  "forget_batches dev s = s\<lparr>ms_ledger := filter (\<lambda>(k, _). mk_device_id k \<noteq> dev) (ms_ledger s)\<rparr>"

definition source_connected ::
  "(ustr \<Rightarrow> url option) \<Rightarrow> ustr \<Rightarrow> (source_root_hello \<times> manifest_env) list \<Rightarrow> manifest_server
   \<Rightarrow> manifest_server" where
  "source_connected parse_url dev rs s = register_roots parse_url dev rs (forget_batches dev s)"

text \<open>After the socket closes: \<open>detached\<close> and \<open>online\<close> are the hub's answers.\<close>

definition source_disconnected :: "bool \<Rightarrow> bool \<Rightarrow> ustr \<Rightarrow> manifest_server \<Rightarrow> manifest_server" where
  "source_disconnected detached online dev s =
     (let s1 = (if detached then forget_batches dev s else s)
      in if detached \<and> \<not> online
         then s1\<lparr>ms_sources := map (\<lambda>r. if src_device_id r = dev then r\<lparr>src_health := lit ''offline''\<rparr> else r)
                  (ms_sources s1)\<rparr>
         else s1)"

section \<open>Reconciling a chunk\<close>

definition sanitize_display_path :: "ustr option \<Rightarrow> (manifest_error, ustr option) result" where
  "sanitize_display_path path =
     (case path of
        None \<Rightarrow> Inr None
      | Some p \<Rightarrow>
          if byte_len p > 2048 \<or> 0 \<in> set p \<or> starts_with p [47] \<or> 92 \<in> set p
          then Inl (BadRequest ''invalid source relative path'')
          else if list_ex (\<lambda>c. c = [] \<or> c = [46] \<or> c = [46, 46]) (split_on 47 p)
          then Inl (BadRequest ''invalid source relative path'')
          else Inr (Some (join_pieces (split_on 47 p))))"

definition modified_at :: "manifest_env \<Rightarrow> json option \<Rightarrow> int option" where
  "modified_at env v =
     (case v of
        None \<Rightarrow> None
      | Some (JString t) \<Rightarrow> me_rfc3339 env t
      | Some j \<Rightarrow>
          Option.bind (as_i64 j) (\<lambda>e.
            let millis = expires_at_millis e
            in if - (2 ^ 63) \<le> millis \<and> millis < 2 ^ 63 then me_timestamp env millis else None))"

definition observed_item ::
  "manifest_env \<Rightarrow> ustr option \<Rightarrow> int \<Rightarrow> source_manifest_item \<Rightarrow> nat \<Rightarrow> remote_source_item \<Rightarrow> remote_source_item" where
  "observed_item env path n i rv m =
     (let preserve_verified = it_content_version m = mi_content_version i \<and> it_size m = n
            \<and> it_observation_state m = VERIFIED
      in m\<lparr>it_content_version := mi_content_version i, it_relative_path := path, it_size := n,
           it_modified_at := modified_at env (mi_modified_at i), it_media_type := mi_media_type i,
           it_quick_fingerprint := mi_quick_fingerprint i,
           it_sha256 := (if preserve_verified then it_sha256 m else mi_sha256 i),
           it_metadata := mi_metadata i, it_retention := mi_retention i,
           it_observation_state := (if preserve_verified then VERIFIED else OBSERVED),
           it_last_seen_revision := i64_of_u64 rv, it_last_seen_at := me_now env,
           it_updated_at := me_now env\<rparr>)"

definition new_item ::
  "manifest_env \<Rightarrow> ustr \<Rightarrow> ustr \<Rightarrow> ustr option \<Rightarrow> int \<Rightarrow> source_manifest_item \<Rightarrow> nat \<Rightarrow> remote_source_item" where
  "new_item env uuid sid path n i rv =
     \<lparr>it_id = uuid, it_source_id = sid, it_worker_item_id = mi_worker_item_id i,
      it_content_version = mi_content_version i, it_relative_path = path, it_size = n,
      it_modified_at = modified_at env (mi_modified_at i), it_media_type = mi_media_type i,
      it_quick_fingerprint = mi_quick_fingerprint i, it_sha256 = mi_sha256 i,
      it_metadata = mi_metadata i, it_retention = mi_retention i, it_observation_state = OBSERVED,
      it_last_seen_revision = i64_of_u64 rv, it_last_seen_at = me_now env,
      it_created_at = me_now env, it_updated_at = me_now env, it_imported_media_id = None\<rparr>"

definition upsert_item ::
  "manifest_env \<Rightarrow> ustr \<Rightarrow> source_manifest_item \<Rightarrow> nat \<Rightarrow> manifest_server
   \<Rightarrow> (manifest_error, manifest_server) result" where
  "upsert_item env sid i rv s =
     bind_result (sanitize_display_path (mi_relative_path i)) (\<lambda>path.
       if mi_size i \<ge> 2 ^ 63 then Inl (BadRequest ''source item is too large'')
       else case row_at item_key (sid, mi_worker_item_id i) (ms_items s) of
              Some m \<Rightarrow>
                Inr (s\<lparr>ms_items := update_row it_id (observed_item env path (int (mi_size i)) i rv m) (ms_items s)\<rparr>)
            | None \<Rightarrow>
                let n = new_item env (me_uuid env (ms_drawn s)) sid path (int (mi_size i)) i rv
                in if row_at it_id (it_id n) (ms_items s) \<noteq> None then Inl DbErr
                   else Inr (s\<lparr>ms_items := insert_row n (ms_items s), ms_drawn := Suc (ms_drawn s)\<rparr>))"

primrec upsert_items ::
  "manifest_env \<Rightarrow> ustr \<Rightarrow> nat \<Rightarrow> source_manifest_item list \<Rightarrow> manifest_server
   \<Rightarrow> (manifest_error, manifest_server) result" where
  "upsert_items env sid rv [] s = Inr s"
| "upsert_items env sid rv (i # is) s =
     bind_result (upsert_item env sid i rv s) (upsert_items env sid rv is)"

definition same_revision :: "manifest_key \<Rightarrow> manifest_key \<Rightarrow> bool" where
  "same_revision k k' \<longleftrightarrow>
     mk_device_id k' = mk_device_id k \<and> mk_root_id k' = mk_root_id k \<and> mk_revision k' = mk_revision k"

text \<open>
  Under the lock of the ledger: \<open>None\<close> answers a replay, \<open>Some ids\<close> lets the chunk through. The
  entry of the batch exists from here on, also when the chunk is then refused.
\<close>

definition plan_chunk ::
  "manifest_key \<Rightarrow> nat \<Rightarrow> ustr \<Rightarrow> source_manifest_chunk \<Rightarrow> (manifest_key \<times> manifest_batch) list
   \<Rightarrow> (manifest_key \<times> manifest_batch) list \<times> (manifest_error, ustr list option) result" where
  "plan_chunk key cur fp c l =
     (if revision c < cur
      then (l, Inl (Conflict ''manifest revision is older than the committed revision''))
      else if revision c = cur \<and> map_of l key = None then (l, Inr None)
      else if revision c > (cur + 1) mod 2 ^ 64 then (l, Inl (Conflict ''manifest revision gap''))
      else if list_ex (\<lambda>(k, _). same_revision key k \<and> mk_batch_id k \<noteq> mk_batch_id key) l
      then (l, Inl (Conflict ''conflicting manifest batch''))
      else let b = (case map_of l key of Some b \<Rightarrow> b | None \<Rightarrow> empty_batch);
               l1 = (if map_of l key = None then (key, empty_batch) # l else l);
               ids = map mi_worker_item_id (items c)
           in if sequence c < next_sequence b
              then if map_of (fingerprints b) (sequence c) = Some fp then (l1, Inr None)
                   else (l1, Inl (Conflict ''conflicting manifest replay''))
              else if sequence c \<noteq> next_sequence b then (l1, Inl (Conflict ''manifest sequence gap''))
              else if \<not> distinct ids \<or> list_ex (\<lambda>x. x \<in> set (worker_ids b)) ids
              then (l1, Inl (Conflict ''duplicate item in manifest batch''))
              else (l1, Inr (Some ids)))"

definition mark_missing :: "ustr \<Rightarrow> nat \<Rightarrow> remote_source_item list \<Rightarrow> remote_source_item list" where
  "mark_missing sid rv its =
     map (\<lambda>r. if it_source_id r = sid \<and> it_last_seen_revision r < i64_of_u64 rv
                 \<and> it_observation_state r \<noteq> TOMBSTONED
              then r\<lparr>it_observation_state := MISSING\<rparr> else r) its"

definition commit_revision :: "manifest_env \<Rightarrow> ustr \<Rightarrow> nat \<Rightarrow> remote_source list \<Rightarrow> remote_source list" where
  "commit_revision env sid rv srcs =
     map (\<lambda>r. if src_id r = sid
              then r\<lparr>src_current_revision := i64_of_u64 rv, src_health := ONLINE,
                     src_last_seen_at := me_now env, src_updated_at := me_now env\<rparr> else r) srcs"

text \<open>The writes of one chunk, in one transaction.\<close>

definition write_chunk ::
  "manifest_env \<Rightarrow> ustr \<Rightarrow> source_manifest_chunk \<Rightarrow> manifest_server \<Rightarrow> (manifest_error, manifest_server) result" where
  "write_chunk env sid c s =
     bind_result (upsert_items env sid (revision c) (items c) s) (\<lambda>s1.
       if \<not> terminal c then Inr s1
       else if \<not> me_current env
       then Inl (Conflict ''source connection was replaced during manifest reconciliation'')
       else Inr (s1\<lparr>ms_items := mark_missing sid (revision c) (ms_items s1),
                    ms_sources := commit_revision env sid (revision c) (ms_sources s1)\<rparr>))"

text \<open>The ledger again, after the commit.\<close>

definition record_chunk ::
  "manifest_key \<Rightarrow> ustr \<Rightarrow> ustr list \<Rightarrow> source_manifest_chunk \<Rightarrow> (manifest_key \<times> manifest_batch) list
   \<Rightarrow> (manifest_key \<times> manifest_batch) list \<times> (manifest_error, unit) result" where
  "record_chunk key fp ids c l =
     (case map_of l key of
        None \<Rightarrow> (l, Inl (Conflict ''manifest connection changed during reconciliation''))
      | Some b \<Rightarrow>
          if next_sequence b \<noteq> sequence c
          then (l, Inl (Conflict ''manifest sequence changed during reconciliation''))
          else (if terminal c then AList.delete key l
                else AList.update key
                  \<lparr>next_sequence = saturating_add_u64 (next_sequence b) 1,
                   fingerprints = AList.update (sequence c) fp (fingerprints b),
                   worker_ids = ids @ worker_ids b\<rparr> l, Inr ()))"

definition key_of :: "ustr \<Rightarrow> source_manifest_chunk \<Rightarrow> manifest_key" where
  "key_of dev c =
     \<lparr>mk_device_id = dev, mk_root_id = chunk_root_id c, mk_batch_id = batch_id c, mk_revision = revision c\<rparr>"

definition ack :: "source_manifest_chunk \<Rightarrow> source_server_frame" where
  "ack c = ManifestAck (chunk_root_id c) (revision c) (sequence c)"

text \<open>\<open>between\<close> is what other tasks do to the ledger between the commit and the second lock.\<close>

definition reconcile_manifest ::
  "((manifest_key \<times> manifest_batch) list \<Rightarrow> (manifest_key \<times> manifest_batch) list)
   \<Rightarrow> manifest_env \<Rightarrow> ustr \<Rightarrow> source_manifest_chunk \<Rightarrow> manifest_server
   \<Rightarrow> manifest_server \<times> (manifest_error, source_server_frame) result" where
  "reconcile_manifest between env dev c s =
     (if length (items c) > MAX_SOURCE_MANIFEST_ITEMS \<or> me_enc env c > MAX_SOURCE_MANIFEST_FRAME_BYTES
      then (s, Inl (BadRequest ''source manifest chunk exceeds limits''))
      else if \<not> me_live env then (s, Inl (Forbidden ''source worker credential is no longer live''))
      else case row_at source_key (dev, chunk_root_id c) (ms_sources s) of
             None \<Rightarrow> (s, Inl (Conflict ''manifest references an unknown source root''))
           | Some src \<Rightarrow>
               (case plan_chunk (key_of dev c) (u64_of_i64 (src_current_revision src))
                       (me_fingerprint env c) c (ms_ledger s) of
                  (l, Inl e) \<Rightarrow> (s\<lparr>ms_ledger := l\<rparr>, Inl e)
                | (l, Inr None) \<Rightarrow> (s\<lparr>ms_ledger := l\<rparr>, Inr (ack c))
                | (l, Inr (Some ids)) \<Rightarrow>
                    (case write_chunk env (src_id src) c (s\<lparr>ms_ledger := l\<rparr>) of
                       Inl e \<Rightarrow> (s\<lparr>ms_ledger := l\<rparr>, Inl e)
                     | Inr s1 \<Rightarrow>
                         let (l2, r) = record_chunk (key_of dev c) (me_fingerprint env c) ids c
                               (between (ms_ledger s1))
                         in (s1\<lparr>ms_ledger := l2\<rparr>, bind_result r (\<lambda>_. Inr (ack c))))))"

section \<open>Verifying an item\<close>

text \<open>The body of a remote read: the chunks it yields, or the error that ends it.\<close>

fun hash_body ::
  "(byte list \<Rightarrow> ustr) \<Rightarrow> byte list option list \<Rightarrow> byte list \<Rightarrow> nat \<Rightarrow> nat \<Rightarrow> nat
   \<Rightarrow> (manifest_error, ustr \<times> nat) result" where
  "hash_body sha [] got tot expected limit =
     (if tot \<noteq> expected
      then Inl (BadGateway (lit ''source returned '' @ show_nat tot @ lit '' bytes; expected '' @ show_nat expected))
      else Inr (sha got, tot))"
| "hash_body sha (None # _) got tot expected limit = Inl ServiceUnavailable"
| "hash_body sha (Some chunk # rest) got tot expected limit =
     (let tot1 = saturating_add_u64 tot (length chunk)
      in if tot1 > limit
         then Inl (BadGateway (lit ''source worker exceeded the grant byte budget''))
         else hash_body sha rest (got @ chunk) tot1 expected limit)"

definition load_item :: "ustr \<Rightarrow> manifest_server \<Rightarrow> (manifest_error, remote_source_item \<times> remote_source) result" where
  "load_item i s =
     (case row_at it_id i (ms_items s) of
        None \<Rightarrow> Inl (NotFound ''remote source item not found'')
      | Some m \<Rightarrow>
          (case row_at src_id (it_source_id m) (ms_sources s) of
             None \<Rightarrow> Inl (NotFound ''remote source not found'')
           | Some src \<Rightarrow> Inr (m, src)))"

text \<open>The write after the read: the three columns that were set, by primary key.\<close>

definition store_verification :: "int \<Rightarrow> ustr \<Rightarrow> ustr \<Rightarrow> manifest_server \<Rightarrow> (manifest_error, manifest_server) result" where
  "store_verification now i sha s =
     (case row_at it_id i (ms_items s) of
        None \<Rightarrow> Inl DbErr
      | Some m \<Rightarrow>
          Inr (s\<lparr>ms_items := update_row it_id
            (m\<lparr>it_sha256 := Some sha, it_observation_state := VERIFIED, it_updated_at := now\<rparr>)
            (ms_items s)\<rparr>))"

text \<open>
  \<open>meanwhile\<close> is what other requests do to the tables while the bytes are streamed; \<open>body\<close> is
  what the remote read of the loaded item yields.
\<close>

definition verify_item ::
  "(byte list \<Rightarrow> ustr) \<Rightarrow> (remote_source_item \<Rightarrow> (manifest_error, byte list option list) result)
   \<Rightarrow> (manifest_server \<Rightarrow> manifest_server) \<Rightarrow> int \<Rightarrow> admin_user \<Rightarrow> ustr \<Rightarrow> manifest_server
   \<Rightarrow> manifest_server \<times> (manifest_error, ustr) result" where
  "verify_item sha body meanwhile now user i s =
     (case bind_result (enforce_admin user) (\<lambda>_. load_item i s) of
        Inl e \<Rightarrow> (s, Inl e)
      | Inr (m, _) \<Rightarrow>
          if it_size m < 0 then (s, Inl (Conflict ''source item has an invalid size''))
          else let s1 = meanwhile s
               in case bind_result (body m) (\<lambda>cs. hash_body sha cs [] 0 (nat (it_size m)) (nat (it_size m))) of
                    Inl e \<Rightarrow> (s1, Inl e)
                  | Inr (digest, _) \<Rightarrow>
                      (case store_verification now (it_id m) digest s1 of
                         Inl e \<Rightarrow> (s1, Inl e)
                       | Inr s2 \<Rightarrow> (s2, Inr digest)))"

end
