(* ===== verification/Source_Manifest_Properties.thy ===== *)
theory Source_Manifest_Properties
  imports Source_Manifest
begin

text \<open>
  What is proved of the manifest: the worker's chunks carry the catalog unchanged, a complete
  delivery makes the server's rows mirror the worker's catalog, a revision gap is never closed
  again, and a verification can be stored on a version it has not read.
\<close>

section \<open>Chunks\<close>

definition of_batch :: "ustr \<Rightarrow> nat \<Rightarrow> source_manifest_chunk \<Rightarrow> bool" where
  "of_batch rid rv c \<longleftrightarrow> batch_id c = rid @ [45] @ show_nat rv \<and> chunk_root_id c = rid \<and> revision c = rv"

lemma manifest_chunk_simps [simp]:
  "items (manifest_chunk rid rv n t xs) = xs" "sequence (manifest_chunk rid rv n t xs) = n"
  "terminal (manifest_chunk rid rv n t xs) = t" "of_batch rid rv (manifest_chunk rid rv n t xs)"
  by (simp_all add: manifest_chunk_def of_batch_def)

lemma pack_items_spec:
  "pack_items enc rid rv is cs cur = Inr (cs', cur') \<Longrightarrow> list_all (of_batch rid rv) cs
   \<Longrightarrow> concat (map items cs') @ cur' = concat (map items cs) @ cur @ is \<and> list_all (of_batch rid rv) cs'"
proof (induction enc rid rv "is" cs cur rule: pack_items.induct)
  case (2 enc rid rv i "is" cs cur)
  then show ?case by (auto simp: Let_def split: if_splits)
qed simp

lemma renumber_length [simp]: "length (renumber cs) = length cs"
  by (simp add: renumber_def)

lemma renumber_nth:
  "n < length cs \<Longrightarrow> renumber cs ! n = (cs ! n)\<lparr>sequence := n, terminal := (Suc n = length cs)\<rparr>"
  by (simp add: renumber_def)

lemma renumber_sequence: "map sequence (renumber cs) = [0..<length cs]"
  by (rule nth_equalityI) (simp_all add: renumber_nth)

lemma renumber_items: "map items (renumber cs) = map items cs"
  by (rule nth_equalityI) (simp_all add: renumber_nth)

lemma renumber_terminal: "cs \<noteq> [] \<Longrightarrow> map terminal (renumber cs) = replicate (length cs - 1) False @ [True]"
  by (rule nth_equalityI) (auto simp: renumber_def nth_append)

lemma renumber_batch: "list_all (of_batch rid rv) cs \<Longrightarrow> list_all (of_batch rid rv) (renumber cs)"
  by (auto simp: renumber_def list_all_iff of_batch_def)

lemma find_validate:
  "find (\<lambda>c. chunk_validate enc c \<noteq> Inr ()) cs = Some c \<Longrightarrow> chunk_validate enc c \<noteq> Inr u"
  by (auto simp: find_Some_iff)

text \<open>
  The chunks of a snapshot carry its items, each once and in order. They are numbered from
  zero, belong to one batch, only the last is marked as the last, and each keeps within the
  limits of the protocol. There is at least one, also for an empty catalog.
\<close>

lemma manifest_chunks_faithful:
  assumes "manifest_chunks enc text rid rv is = Inr cs"
  shows "concat (map items cs) = is \<and> map sequence cs = [0..<length cs] \<and> cs \<noteq> []
    \<and> map terminal cs = replicate (length cs - 1) False @ [True]
    \<and> list_all (\<lambda>c. chunk_validate enc c = Inr () \<and> of_batch rid rv c) cs"
proof -
  obtain cs0 cur where p: "pack_items enc rid rv is [] [] = Inr (cs0, cur)"
    using assms by (auto simp: manifest_chunks_def bind_result_def split: sum.splits)
  define cs1 where "cs1 = (if cur \<noteq> [] \<or> cs0 = [] then cs0 @ [manifest_chunk rid rv (length cs0) True cur] else cs0)"
  have r: "cs = renumber cs1" "find (\<lambda>c. chunk_validate enc c \<noteq> Inr ()) cs = None"
    using assms p
    unfolding manifest_chunks_def p bind_result_simps prod.case cs1_def [symmetric] Let_def
    by (auto dest: find_validate split: option.splits sum.splits)
  have c1: "concat (map items cs1) = is" "cs1 \<noteq> []" "list_all (of_batch rid rv) cs1"
    using pack_items_spec [OF p] by (auto simp: cs1_def)
  have "list_all (\<lambda>c. chunk_validate enc c = Inr ()) cs"
    using r(2) by (simp add: find_None_iff list_all_iff)
  moreover have "list_all (of_batch rid rv) cs"
    unfolding r(1) by (rule renumber_batch [OF c1(3)])
  moreover have "cs \<noteq> []" using c1(2) r(1) by (metis length_0_conv renumber_length)
  ultimately show ?thesis
    using renumber_terminal [OF c1(2)] c1(1) unfolding list_all_iff
    by (simp add: r(1) renumber_sequence renumber_items)
qed

section \<open>The tables\<close>

definition server_ok :: "(nat \<Rightarrow> ustr) \<Rightarrow> manifest_server \<Rightarrow> bool" where
  "server_ok uuid s \<longleftrightarrow>
     unique_key src_id (ms_sources s) \<and> unique_key source_key (ms_sources s)
     \<and> unique_key it_id (ms_items s) \<and> unique_key item_key (ms_items s)
     \<and> (\<forall>r\<in>set (ms_items s). \<exists>k<ms_drawn s. it_id r = uuid k)
     \<and> (\<forall>r\<in>set (ms_sources s). \<exists>k<ms_drawn s. src_id r = uuid k)"

interpretation item_table: keyed_table item_key set "row_at item_key" insert_row "update_row item_key"
    "unique_key item_key"
  by (rule keyed_table_rows)

interpretation source_table: keyed_table source_key set "row_at source_key" insert_row "update_row source_key"
    "unique_key source_key"
  by (rule keyed_table_rows)

text \<open>Updating by primary key is updating by any other unique key the row keeps.\<close>

lemma update_row_other_key:
  assumes "unique_key k1 t" "unique_key k2 t" "m \<in> set t" "k1 m' = k1 m" "k2 m' = k2 m"
  shows "update_row k1 m' t = update_row k2 m' t"
proof -
  have "k1 q = k1 m' \<longleftrightarrow> k2 q = k2 m'" if "q \<in> set t" for q
    using assms that unfolding unique_key_def distinct_map inj_on_def by metis
  then show ?thesis by (simp add: update_row_def)
qed

lemma unique_update: "unique_key k t \<Longrightarrow> k m' = k m \<Longrightarrow> m \<in> set t \<Longrightarrow> unique_key k' t \<Longrightarrow> k' m' = k' m
    \<Longrightarrow> unique_key k (update_row k' m' t)"
  using update_row_other_key [of k' t k m m'] keyed_table.invar_update [OF keyed_table_rows, of k t m'] by simp

text \<open>The row shows the manifest's item at this revision.\<close>

definition shown :: "nat \<Rightarrow> source_manifest_item \<Rightarrow> remote_source_item \<Rightarrow> bool" where
  "shown rv i m \<longleftrightarrow>
     it_content_version m = mi_content_version i \<and> it_size m = int (mi_size i)
     \<and> sanitize_display_path (mi_relative_path i) = Inr (it_relative_path m)
     \<and> it_metadata m = mi_metadata i \<and> it_last_seen_revision m = i64_of_u64 rv
     \<and> (it_observation_state m = OBSERVED \<or> it_observation_state m = VERIFIED)"

definition acceptable :: "source_manifest_item \<Rightarrow> bool" where
  "acceptable i \<longleftrightarrow> (\<exists>p. sanitize_display_path (mi_relative_path i) = Inr p) \<and> mi_size i < 2 ^ 63"

definition item_keys :: "ustr \<Rightarrow> source_manifest_item list \<Rightarrow> (ustr \<times> ustr) set" where
  "item_keys sid is = (\<lambda>i. (sid, mi_worker_item_id i)) ` set is"

text \<open>The writes of some items: every one of them is shown and no other row changes.\<close>

definition wrote ::
  "(nat \<Rightarrow> ustr) \<Rightarrow> ustr \<Rightarrow> nat \<Rightarrow> source_manifest_item list \<Rightarrow> manifest_server \<Rightarrow> manifest_server \<Rightarrow> bool" where
  "wrote uuid sid rv is s s' \<longleftrightarrow>
     server_ok uuid s' \<and> ms_sources s' = ms_sources s
     \<and> (\<forall>i\<in>set is. \<exists>m. row_at item_key (sid, mi_worker_item_id i) (ms_items s') = Some m \<and> shown rv i m)
     \<and> (\<forall>k. k \<notin> item_keys sid is \<longrightarrow> row_at item_key k (ms_items s') = row_at item_key k (ms_items s))"

lemma wrote_refl: "server_ok uuid s \<Longrightarrow> wrote uuid sid rv [] s s"
  by (simp add: wrote_def)

lemma wrote_append:
  assumes "wrote uuid sid rv is s s1" "wrote uuid sid rv js s1 s2"
    and "mi_worker_item_id ` set is \<inter> mi_worker_item_id ` set js = {}"
  shows "wrote uuid sid rv (is @ js) s s2"
proof -
  have n: "(sid, mi_worker_item_id i) \<notin> item_keys sid js" if "i \<in> set is" for i
    using assms(3) that by (auto simp: item_keys_def)
  show ?thesis
    using assms(1,2) n unfolding wrote_def
    by (auto simp: item_keys_def image_Un)
qed

lemma observed_keys [simp]:
  "it_id (observed_item env p n i rv m) = it_id m" "item_key (observed_item env p n i rv m) = item_key m"
  by (simp_all add: observed_item_def item_key_def Let_def)

lemma new_keys [simp]:
  "it_id (new_item env u sid p n i rv) = u" "item_key (new_item env u sid p n i rv) = (sid, mi_worker_item_id i)"
  by (simp_all add: new_item_def item_key_def)

lemma observed_shown:
  "sanitize_display_path (mi_relative_path i) = Inr p \<Longrightarrow> shown rv i (observed_item env p (int (mi_size i)) i rv m)"
  "sanitize_display_path (mi_relative_path i) = Inr p \<Longrightarrow> shown rv i (new_item env u sid p (int (mi_size i)) i rv)"
  by (simp_all add: shown_def observed_item_def new_item_def Let_def)

lemma fresh_id: "server_ok uuid s \<Longrightarrow> inj uuid \<Longrightarrow> row_at it_id (uuid (ms_drawn s)) (ms_items s) = None"
  by (fastforce simp: server_ok_def row_at_None dest: injD)

lemma item_update_ok:
  assumes "server_ok uuid s" "row_at item_key k (ms_items s) = Some m" "it_id m' = it_id m" "item_key m' = item_key m"
  shows "server_ok uuid (s\<lparr>ms_items := update_row it_id m' (ms_items s)\<rparr>)"
    "row_at item_key k' (update_row it_id m' (ms_items s))
       = (if k' = k then Some m' else row_at item_key k' (ms_items s))"
proof -
  have u: "unique_key it_id (ms_items s)" "unique_key item_key (ms_items s)"
    using assms(1) by (simp_all add: server_ok_def)
  have m: "m \<in> set (ms_items s)" "item_key m = k" using assms(2) row_at_iff [OF u(2)] by auto
  have eq: "update_row it_id m' (ms_items s) = update_row item_key m' (ms_items s)"
    by (rule update_row_other_key [OF u m(1) assms(3,4)])
  have k: "row_at item_key (item_key m') (ms_items s) \<noteq> None" using assms(2,4) m(2) by simp
  have "unique_key it_id (update_row it_id m' (ms_items s))" "unique_key item_key (update_row it_id m' (ms_items s))"
    using unique_update [OF u(1) assms(3) m(1) u(1) assms(3)] unique_update [OF u(2) assms(4) m(1) u(1) assms(3)] .
  moreover have "\<exists>k<ms_drawn s. it_id r = uuid k" if "r \<in> set (update_row it_id m' (ms_items s))" for r
    using that assms(1,3) m(1) by (auto simp: update_row_def server_ok_def)
  ultimately show "server_ok uuid (s\<lparr>ms_items := update_row it_id m' (ms_items s)\<rparr>)"
    using assms(1) by (simp add: server_ok_def)
  show "row_at item_key k' (update_row it_id m' (ms_items s))
       = (if k' = k then Some m' else row_at item_key k' (ms_items s))"
    using item_table.lookup_write [OF u(2), of k' m'] k assms(4) m(2)
    unfolding eq item_table.write_r_def by (simp only: if_False)
qed

lemma item_insert_ok:
  assumes "server_ok uuid s" "inj uuid" "row_at item_key (item_key m') (ms_items s) = None"
    and "it_id m' = uuid (ms_drawn s)"
  shows "server_ok uuid (s\<lparr>ms_items := insert_row m' (ms_items s), ms_drawn := Suc (ms_drawn s)\<rparr>)"
    "row_at item_key k' (insert_row m' (ms_items s))
       = (if k' = item_key m' then Some m' else row_at item_key k' (ms_items s))"
proof -
  have u: "unique_key it_id (ms_items s)" "unique_key item_key (ms_items s)"
    using assms(1) by (simp_all add: server_ok_def)
  have f: "row_at it_id (it_id m') (ms_items s) = None" using fresh_id [OF assms(1,2)] assms(4) by simp
  have "unique_key item_key (insert_row m' (ms_items s))"
    by (rule item_table.invar_insert [OF u(2) assms(3)])
  moreover have "unique_key it_id (insert_row m' (ms_items s))"
    by (rule keyed_table.invar_insert [OF keyed_table_rows u(1) f])
  ultimately show "server_ok uuid (s\<lparr>ms_items := insert_row m' (ms_items s), ms_drawn := Suc (ms_drawn s)\<rparr>)"
    using assms(1,4) by (fastforce simp: server_ok_def insert_row_def less_Suc_eq)
  show "row_at item_key k' (insert_row m' (ms_items s))
       = (if k' = item_key m' then Some m' else row_at item_key k' (ms_items s))"
    using item_table.lookup_write [OF u(2), of k' m'] assms(3) by (simp add: item_table.write_r_def)
qed

lemma upsert_item_wrote:
  assumes "server_ok (me_uuid env) s" "inj (me_uuid env)" "acceptable i"
  shows "\<exists>s'. upsert_item env sid i rv s = Inr s' \<and> wrote (me_uuid env) sid rv [i] s s' \<and> ms_ledger s' = ms_ledger s"
proof -
  obtain p where p: "sanitize_display_path (mi_relative_path i) = Inr p" and n: "mi_size i < 2 ^ 63"
    using assms(3) by (auto simp: acceptable_def)
  show ?thesis
  proof (cases "row_at item_key (sid, mi_worker_item_id i) (ms_items s)")
    case None
    let ?n = "new_item env (me_uuid env (ms_drawn s)) sid p (int (mi_size i)) i rv"
    have "upsert_item env sid i rv s
        = Inr (s\<lparr>ms_items := insert_row ?n (ms_items s), ms_drawn := Suc (ms_drawn s)\<rparr>)"
      using p n None fresh_id [OF assms(1,2)] by (simp add: upsert_item_def Let_def)
    moreover have "row_at item_key (item_key ?n) (ms_items s) = None" using None by simp
    note item_insert_ok [OF assms(1,2) this]
    ultimately show ?thesis
      using observed_shown(2) [OF p] by (auto simp: wrote_def item_keys_def)
  next
    case (Some m)
    let ?m = "observed_item env p (int (mi_size i)) i rv m"
    have "upsert_item env sid i rv s = Inr (s\<lparr>ms_items := update_row it_id ?m (ms_items s)\<rparr>)"
      using p n Some by (simp add: upsert_item_def)
    moreover note item_update_ok [OF assms(1) Some observed_keys]
    ultimately show ?thesis
      using observed_shown(1) [OF p] by (auto simp: wrote_def item_keys_def)
  qed
qed

lemma upsert_items_wrote:
  assumes "server_ok (me_uuid env) s" "inj (me_uuid env)" "list_all acceptable is"
    and "distinct (map mi_worker_item_id is)"
  shows "\<exists>s'. upsert_items env sid rv is s = Inr s' \<and> wrote (me_uuid env) sid rv is s s' \<and> ms_ledger s' = ms_ledger s"
  using assms
proof (induction "is" arbitrary: s)
  case (Cons i "is")
  obtain s1 where s1: "upsert_item env sid i rv s = Inr s1" "wrote (me_uuid env) sid rv [i] s s1" "ms_ledger s1 = ms_ledger s"
    using upsert_item_wrote [OF Cons.prems(1,2)] Cons.prems(3) by fastforce
  have "server_ok (me_uuid env) s1" using s1(2) by (simp add: wrote_def)
  then obtain s2 where s2: "upsert_items env sid rv is s1 = Inr s2" "wrote (me_uuid env) sid rv is s1 s2"
    "ms_ledger s2 = ms_ledger s1"
    using Cons by auto
  have "wrote (me_uuid env) sid rv ([i] @ is) s s2"
    using wrote_append [OF s1(2) s2(2)] Cons.prems(4) by auto
  then show ?case using s1 s2 by simp
qed (simp add: wrote_refl)

section \<open>A delivery\<close>

text \<open>The chunks of one batch arrive one after the other on one connection.\<close>

primrec deliver ::
  "manifest_env \<Rightarrow> ustr \<Rightarrow> source_manifest_chunk list \<Rightarrow> manifest_server
   \<Rightarrow> manifest_server \<times> (manifest_error, source_server_frame) result list" where
  "deliver env dev [] s = (s, [])"
| "deliver env dev (c # cs) s =
     (let (s1, r) = reconcile_manifest (\<lambda>l. l) env dev c s; (s2, rs) = deliver env dev cs s1
      in (s2, r # rs))"

definition undisturbed :: "manifest_env \<Rightarrow> bool" where
  "undisturbed env \<longleftrightarrow> me_live env \<and> me_current env \<and> inj (me_uuid env)"

definition batch_key :: "ustr \<Rightarrow> ustr \<Rightarrow> nat \<Rightarrow> manifest_key" where
  "batch_key dev rid rv =
     \<lparr>mk_device_id = dev, mk_root_id = rid, mk_batch_id = rid @ [45] @ show_nat rv, mk_revision = rv\<rparr>"

lemma key_of_batch: "of_batch rid rv c \<Longrightarrow> key_of dev c = batch_key dev rid rv"
  by (simp add: key_of_def batch_key_def of_batch_def)

text \<open>The ledger knows of this device at most this batch, with \<open>k\<close> chunks and the given items.\<close>

definition progress ::
  "manifest_key \<Rightarrow> nat \<Rightarrow> source_manifest_item list \<Rightarrow> (manifest_key \<times> manifest_batch) list \<Rightarrow> bool" where
  "progress key k got l \<longleftrightarrow>
     (\<forall>x\<in>set l. mk_device_id (fst x) = mk_device_id key \<longrightarrow> fst x = key)
     \<and> (case map_of l key of
          None \<Rightarrow> k = 0 \<and> got = []
        | Some b \<Rightarrow> next_sequence b = k \<and> set (worker_ids b) = mi_worker_item_id ` set got)"

definition next_chunk_of :: "nat \<Rightarrow> source_manifest_item list \<Rightarrow> source_manifest_chunk \<Rightarrow> bool" where
  "next_chunk_of k got c \<longleftrightarrow>
     sequence c = k \<and> distinct (map mi_worker_item_id (items c))
     \<and> mi_worker_item_id ` set (items c) \<inter> mi_worker_item_id ` set got = {}"

lemma plan_next:
  assumes p: "progress key k got l" and c: "next_chunk_of k got c" and r: "revision c = Suc cur" "Suc cur < 2 ^ 64"
  shows "\<exists>l1. plan_chunk key cur fp c l = (l1, Inr (Some (map mi_worker_item_id (items c))))
    \<and> progress key k got l1 \<and> map_of l1 key \<noteq> None"
proof -
  have no: "\<not> list_ex (\<lambda>(k, _). same_revision key k \<and> mk_batch_id k \<noteq> mk_batch_id key) l"
    using p by (fastforce simp: list_ex_iff progress_def same_revision_def)
  have m: "(cur + 1) mod 2 ^ 64 = Suc cur" using r(2) by simp
  have new: "list_ex (\<lambda>x. x \<in> mi_worker_item_id ` set got) (map mi_worker_item_id (items c)) = False"
    using c by (auto simp: list_ex_iff next_chunk_of_def)
  show ?thesis
  proof (cases "map_of l key")
    case None
    then have "progress key k got ((key, empty_batch) # l)" "k = 0" "got = []"
      using p by (auto simp: progress_def empty_batch_def)
    then show ?thesis
      using None no m r c by (simp add: plan_chunk_def Let_def empty_batch_def next_chunk_of_def list_ex_iff)
  next
    case (Some b)
    then have "next_sequence b = k" "set (worker_ids b) = mi_worker_item_id ` set got"
      using p by (simp_all add: progress_def)
    then show ?thesis
      using Some no m r c p new by (simp add: plan_chunk_def Let_def next_chunk_of_def)
  qed
qed

lemma record_next:
  assumes p: "progress key k got l" and b: "map_of l key = Some b" and c: "next_chunk_of k got c" "\<not> terminal c"
    and k: "Suc k \<le> U64_MAX"
  shows "\<exists>l2. record_chunk key fp (map mi_worker_item_id (items c)) c l = (l2, Inr ())
    \<and> progress key (Suc k) (got @ items c) l2"
proof -
  let ?b = "\<lparr>next_sequence = saturating_add_u64 (next_sequence b) 1,
    fingerprints = AList.update (sequence c) fp (fingerprints b),
    worker_ids = map mi_worker_item_id (items c) @ worker_ids b\<rparr>"
  have "progress key (Suc k) (got @ items c) (AList.update key ?b l)"
    using p b k by (auto simp: progress_def update_conv' saturating_add_u64_def image_Un dest!: set_alist_update)
  then show ?thesis
    using p b c by (simp add: record_chunk_def progress_def next_chunk_of_def)
qed

lemma record_last:
  assumes "progress key k got l" "map_of l key = Some b" "next_chunk_of k got c" "terminal c"
  shows "record_chunk key fp ids c l = (AList.delete key l, Inr ())
    \<and> (\<forall>x\<in>set (AList.delete key l). mk_device_id (fst x) \<noteq> mk_device_id key)"
  using assms by (auto simp: record_chunk_def progress_def next_chunk_of_def AList.delete_eq)

lemma server_ok_ledger [simp]: "server_ok uuid (s\<lparr>ms_ledger := l\<rparr>) = server_ok uuid s"
  by (simp add: server_ok_def)

lemma wrote_ledger [simp]:
  "wrote uuid sid rv is (s\<lparr>ms_ledger := l\<rparr>) s' = wrote uuid sid rv is s s'"
  "wrote uuid sid rv is s (s'\<lparr>ms_ledger := l\<rparr>) = wrote uuid sid rv is s s'"
  by (simp_all add: wrote_def)

text \<open>The source's row and the next revision it waits for.\<close>

definition awaits :: "ustr \<Rightarrow> ustr \<Rightarrow> nat \<Rightarrow> remote_source \<Rightarrow> manifest_server \<Rightarrow> bool" where
  "awaits dev rid rv src s \<longleftrightarrow>
     row_at source_key (dev, rid) (ms_sources s) = Some src
     \<and> (\<exists>n. rv = Suc n \<and> src_current_revision src = int n) \<and> rv < 2 ^ 63"

definition sendable :: "manifest_env \<Rightarrow> ustr \<Rightarrow> nat \<Rightarrow> source_manifest_chunk \<Rightarrow> bool" where
  "sendable env rid rv c \<longleftrightarrow>
     chunk_validate (me_enc env) c = Inr () \<and> of_batch rid rv c \<and> list_all acceptable (items c)"

lemma reconcile_accepts:
  assumes env: "undisturbed env" and ok: "server_ok (me_uuid env) s" and src: "awaits dev rid rv src s"
    and c: "sendable env rid rv c" and p: "progress (batch_key dev rid rv) k got (ms_ledger s)"
    and n: "next_chunk_of k got c" "Suc k \<le> U64_MAX"
  shows "\<exists>s1 l. wrote (me_uuid env) (src_id src) rv (items c) s s1
    \<and> (if terminal c
       then reconcile_manifest (\<lambda>l. l) env dev c s
            = (s1\<lparr>ms_items := mark_missing (src_id src) rv (ms_items s1),
                  ms_sources := commit_revision env (src_id src) rv (ms_sources s1), ms_ledger := l\<rparr>, Inr (ack c))
            \<and> (\<forall>x\<in>set l. mk_device_id (fst x) \<noteq> dev)
       else reconcile_manifest (\<lambda>l. l) env dev c s = (s1\<lparr>ms_ledger := l\<rparr>, Inr (ack c))
            \<and> progress (batch_key dev rid rv) (Suc k) (got @ items c) l)"
proof -
  let ?key = "batch_key dev rid rv" and ?fp = "me_fingerprint env c" and ?ids = "map mi_worker_item_id (items c)"
  have b: "key_of dev c = ?key" "chunk_root_id c = rid" "revision c = rv"
    using c key_of_batch by (auto simp: sendable_def of_batch_def)
  obtain m where m: "rv = Suc m" "src_current_revision src = int m" "u64_of_i64 (int m) = m" "Suc m < 2 ^ 64"
    using src by (auto simp: awaits_def u64_of_i64_def)
  have lim: "length (items c) \<le> MAX_SOURCE_MANIFEST_ITEMS" "me_enc env c \<le> MAX_SOURCE_MANIFEST_FRAME_BYTES"
    using c by (simp_all add: sendable_def chunk_validate_iff)
  obtain l1 bt where l1: "plan_chunk ?key m ?fp c (ms_ledger s) = (l1, Inr (Some ?ids))" "progress ?key k got l1"
      "map_of l1 ?key = Some bt"
    using plan_next [OF p n(1)] m b(3) by blast
  obtain s1 where s1: "upsert_items env (src_id src) rv (items c) (s\<lparr>ms_ledger := l1\<rparr>) = Inr s1"
      "wrote (me_uuid env) (src_id src) rv (items c) s s1" "ms_ledger s1 = l1"
    using upsert_items_wrote [of env "s\<lparr>ms_ledger := l1\<rparr>" "items c" "src_id src" rv] env ok c n(1)
    by (auto simp: undisturbed_def sendable_def next_chunk_of_def)
  show ?thesis
  proof (cases "terminal c")
    case True
    have "reconcile_manifest (\<lambda>l. l) env dev c s
        = (s1\<lparr>ms_items := mark_missing (src_id src) rv (ms_items s1),
              ms_sources := commit_revision env (src_id src) rv (ms_sources s1),
              ms_ledger := AList.delete ?key l1\<rparr>, Inr (ack c))"
      using env src lim b m s1 l1 record_last [OF l1(2,3) n(1) True] True
      by (simp add: reconcile_manifest_def write_chunk_def undisturbed_def awaits_def not_less)
    moreover have "\<forall>x\<in>set (AList.delete ?key l1). mk_device_id (fst x) \<noteq> dev"
      using record_last [OF l1(2,3) n(1) True] by (simp add: batch_key_def)
    ultimately show ?thesis
      using s1(2) True by (intro exI [of _ s1] exI [of _ "AList.delete ?key l1"]) simp
  next
    case False
    obtain l2 where l2: "record_chunk ?key ?fp ?ids c l1 = (l2, Inr ())" "progress ?key (Suc k) (got @ items c) l2"
      using record_next [OF l1(2,3) n(1) False n(2)] by blast
    have "reconcile_manifest (\<lambda>l. l) env dev c s = (s1\<lparr>ms_ledger := l2\<rparr>, Inr (ack c))"
      using env src lim b m s1 l1 l2 False
      by (simp add: reconcile_manifest_def write_chunk_def undisturbed_def awaits_def not_less)
    then show ?thesis using s1(2) l2(2) False by (intro exI [of _ s1] exI [of _ l2]) simp
  qed
qed

lemma deliver_all:
  assumes "undisturbed env" "server_ok (me_uuid env) s" "awaits dev rid rv src s"
    and "list_all (sendable env rid rv) cs" "cs \<noteq> []"
    and "map sequence cs = [k..<k + length cs]" "map terminal cs = replicate (length cs - 1) False @ [True]"
    and "progress (batch_key dev rid rv) k got (ms_ledger s)" "k + length cs \<le> U64_MAX"
    and "distinct (map mi_worker_item_id (concat (map items cs)))"
    and "mi_worker_item_id ` set (concat (map items cs)) \<inter> mi_worker_item_id ` set got = {}"
  shows "\<exists>s1 l. wrote (me_uuid env) (src_id src) rv (concat (map items cs)) s s1
    \<and> deliver env dev cs s
        = (s1\<lparr>ms_items := mark_missing (src_id src) rv (ms_items s1),
              ms_sources := commit_revision env (src_id src) rv (ms_sources s1), ms_ledger := l\<rparr>,
           map (\<lambda>c. Inr (ack c)) cs)
    \<and> (\<forall>x\<in>set l. mk_device_id (fst x) \<noteq> dev)"
  using assms
proof (induction cs arbitrary: s k got)
  case (Cons c cs)
  have seq: "sequence c = k" "map sequence cs = [Suc k..<Suc k + length cs]"
    using Cons.prems(6) by (simp_all add: upt_rec)
  then have n: "next_chunk_of k got c"
    using Cons.prems(10,11) by (auto simp: next_chunk_of_def)
  have k: "Suc k \<le> U64_MAX" using Cons.prems(9) by simp
  have c: "sendable env rid rv c" using Cons.prems(4) by simp
  obtain s1 l where w: "wrote (me_uuid env) (src_id src) rv (items c) s s1"
    and r: "if terminal c
       then reconcile_manifest (\<lambda>l. l) env dev c s
            = (s1\<lparr>ms_items := mark_missing (src_id src) rv (ms_items s1),
                  ms_sources := commit_revision env (src_id src) rv (ms_sources s1), ms_ledger := l\<rparr>, Inr (ack c))
            \<and> (\<forall>x\<in>set l. mk_device_id (fst x) \<noteq> dev)
       else reconcile_manifest (\<lambda>l. l) env dev c s = (s1\<lparr>ms_ledger := l\<rparr>, Inr (ack c))
            \<and> progress (batch_key dev rid rv) (Suc k) (got @ items c) l"
    using reconcile_accepts [OF Cons.prems(1-3) c Cons.prems(8) n k] by blast
  show ?case
  proof (cases "cs = []")
    case True
    then have "terminal c" using Cons.prems(7) by simp
    then show ?thesis using True w r by auto
  next
    case False
    then have t: "\<not> terminal c" "map terminal cs = replicate (length cs - 1) False @ [True]"
      using Cons.prems(7) by (cases cs; simp)+
    have ok1: "server_ok (me_uuid env) (s1\<lparr>ms_ledger := l\<rparr>)" "awaits dev rid rv src (s1\<lparr>ms_ledger := l\<rparr>)"
      using w Cons.prems(3) by (simp_all add: wrote_def awaits_def)
    have dis: "mi_worker_item_id ` set (concat (map items cs)) \<inter> mi_worker_item_id ` set (got @ items c) = {}"
      using Cons.prems(10,11) by (auto simp: image_Un Int_Un_distrib Int_Un_distrib2 Int_commute)
    obtain s2 l2 where d: "wrote (me_uuid env) (src_id src) rv (concat (map items cs)) s1 s2"
      "deliver env dev cs (s1\<lparr>ms_ledger := l\<rparr>)
        = (s2\<lparr>ms_items := mark_missing (src_id src) rv (ms_items s2),
              ms_sources := commit_revision env (src_id src) rv (ms_sources s2), ms_ledger := l2\<rparr>,
           map (\<lambda>c. Inr (ack c)) cs)" "\<forall>x\<in>set l2. mk_device_id (fst x) \<noteq> dev"
      using Cons.IH [OF Cons.prems(1) ok1 _ False seq(2) t(2) _ _ _ dis] Cons.prems(4,9,10) r t(1) by auto
    have "wrote (me_uuid env) (src_id src) rv (items c @ concat (map items cs)) s s2"
      using wrote_append [OF w d(1)] Cons.prems(10) by auto
    then show ?thesis using r t(1) d by auto
  qed
qed simp

definition missed :: "ustr \<Rightarrow> nat \<Rightarrow> remote_source_item \<Rightarrow> remote_source_item" where
  "missed sid rv r =
     (if it_source_id r = sid \<and> it_last_seen_revision r < i64_of_u64 rv \<and> it_observation_state r \<noteq> TOMBSTONED
      then r\<lparr>it_observation_state := MISSING\<rparr> else r)"

lemma mark_missing_map: "mark_missing sid rv its = map (missed sid rv) its"
  by (simp add: mark_missing_def missed_def)

lemma missed_key [simp]: "item_key (missed sid rv r) = item_key r"
  by (simp add: missed_def item_key_def)

lemma row_at_missing: "row_at item_key k (mark_missing sid rv its) = map_option (missed sid rv) (row_at item_key k its)"
  unfolding mark_missing_map by (rule row_at_map) simp

lemma row_at_committed:
  "row_at source_key k (commit_revision env sid rv srcs)
     = map_option (\<lambda>r. if src_id r = sid
         then r\<lparr>src_current_revision := i64_of_u64 rv, src_health := ONLINE,
                src_last_seen_at := me_now env, src_updated_at := me_now env\<rparr> else r) (row_at source_key k srcs)"
  unfolding commit_revision_def by (rule row_at_map) (simp add: source_key_def)

text \<open>
  C9. A complete delivery makes the server mirror the worker's catalog. When the server waits for
  this revision and nothing disturbs the connection, every chunk is acknowledged; afterwards
  every item of the manifest has a row that shows it, every other row of the source is missing
  or a tombstone, the rows of other sources are as before, and the source stands at the new
  revision.
\<close>

theorem manifest_delivered:
  assumes env: "undisturbed env" and ok: "server_ok (me_uuid env) s" and src: "awaits dev rid rv src s"
    and cs: "manifest_chunks (me_enc env) text rid rv is = Inr cs" "length cs \<le> U64_MAX"
    and "is": "list_all acceptable is" "distinct (map mi_worker_item_id is)"
    and fresh: "\<forall>x\<in>set (ms_ledger s). mk_device_id (fst x) \<noteq> dev"
    and old: "\<forall>m\<in>set (ms_items s). it_source_id m = src_id src \<longrightarrow> it_last_seen_revision m < int rv"
    and d: "deliver env dev cs s = (s', rs)"
  shows "rs = map (\<lambda>c. Inr (ack c)) cs
    \<and> (\<forall>i\<in>set is. \<exists>m. row_at item_key (src_id src, mi_worker_item_id i) (ms_items s') = Some m \<and> shown rv i m)
    \<and> (\<forall>m\<in>set (ms_items s'). it_source_id m = src_id src \<and> it_worker_item_id m \<notin> mi_worker_item_id ` set is
         \<longrightarrow> it_observation_state m = MISSING \<or> it_observation_state m = TOMBSTONED)
    \<and> (\<forall>k. fst k \<noteq> src_id src \<longrightarrow> row_at item_key k (ms_items s') = row_at item_key k (ms_items s))
    \<and> (\<exists>src'. row_at source_key (dev, rid) (ms_sources s') = Some src' \<and> src_current_revision src' = int rv)"
proof -
  let ?sid = "src_id src"
  note f = manifest_chunks_faithful [OF cs(1)]
  have i64: "i64_of_u64 rv = int rv" using src by (simp add: awaits_def i64_of_u64_def)
  have "progress (batch_key dev rid rv) 0 [] (ms_ledger s)"
    using fresh by (fastforce simp: progress_def batch_key_def split: option.split dest: map_of_SomeD)
  moreover have "list_all (sendable env rid rv) cs"
    using f "is"(1) by (auto simp: sendable_def list_all_iff)
  ultimately obtain s1 l where w: "wrote (me_uuid env) ?sid rv is s s1"
    and s': "s' = s1\<lparr>ms_items := mark_missing ?sid rv (ms_items s1),
        ms_sources := commit_revision env ?sid rv (ms_sources s1), ms_ledger := l\<rparr>"
    and rs: "rs = map (\<lambda>c. Inr (ack c)) cs"
    using deliver_all [OF env ok src, of cs 0 "[]"] f cs(2) "is"(2) d by auto
  have u: "unique_key item_key (ms_items s)" "unique_key item_key (ms_items s1)"
    using ok w by (simp_all add: wrote_def server_ok_def)
  have "\<exists>m. row_at item_key (?sid, mi_worker_item_id i) (ms_items s') = Some m \<and> shown rv i m" if "i \<in> set is" for i
    using w that by (fastforce simp: wrote_def s' row_at_missing missed_def shown_def)
  moreover have "it_observation_state m = MISSING \<or> it_observation_state m = TOMBSTONED"
    if m: "m \<in> set (ms_items s')" "it_source_id m = ?sid" "it_worker_item_id m \<notin> mi_worker_item_id ` set is" for m
  proof -
    obtain m1 where m1: "m1 \<in> set (ms_items s1)" "m = missed ?sid rv m1"
      using m(1) by (auto simp: s' mark_missing_map)
    then have "item_key m1 = item_key m" by simp
    then have "item_key m1 \<notin> item_keys ?sid is" "it_source_id m1 = ?sid"
      using m(2,3) by (auto simp: item_keys_def item_key_def)
    then have "m1 \<in> set (ms_items s)"
      using w m1(1) row_at_iff [OF u(1)] row_at_iff [OF u(2)] unfolding wrote_def by metis
    then show ?thesis using old m1(2) \<open>it_source_id m1 = ?sid\<close> by (auto simp: missed_def i64)
  qed
  moreover have "row_at item_key k (ms_items s') = row_at item_key k (ms_items s)" if k: "fst k \<noteq> ?sid" for k
  proof -
    have "k \<notin> item_keys ?sid is" using k by (auto simp: item_keys_def)
    then have "row_at item_key k (ms_items s1) = row_at item_key k (ms_items s)"
      using w unfolding wrote_def by blast
    moreover have "missed ?sid rv m = m" if "row_at item_key k (ms_items s1) = Some m" for m
      using that k row_at_iff [OF u(2)] by (auto simp: missed_def item_key_def)
    ultimately show ?thesis by (cases "row_at item_key k (ms_items s)") (simp_all add: s' row_at_missing)
  qed
  moreover have "\<exists>src'. row_at source_key (dev, rid) (ms_sources s') = Some src' \<and> src_current_revision src' = int rv"
    using w src by (simp add: s' row_at_committed wrote_def awaits_def i64)
  ultimately show ?thesis using rs by blast
qed

definition example_env :: manifest_env where
  "example_env = \<lparr>me_now = 7, me_uuid = (\<lambda>n. [n]), me_live = True, me_current = True,
     me_fingerprint = (\<lambda>_. []), me_enc = (\<lambda>_. 100), me_rfc3339 = (\<lambda>_. None), me_timestamp = Some\<rparr>"

definition example_source :: remote_source where
  "example_source = \<lparr>src_id = [0], src_device_id = [100], src_root_id = [114], src_label = [76],
     src_kind = [107], src_privacy_mode = PRIVACY_CATALOG, src_transport = lit ''tunnel'',
     src_direct_base_url = None, src_current_revision = 0, src_last_seen_at = 0, src_health = ONLINE,
     src_created_at = 0, src_updated_at = 0\<rparr>"

definition example_item :: "ustr \<Rightarrow> source_manifest_item" where
  "example_item v = \<lparr>mi_worker_item_id = [105], mi_content_version = v, mi_relative_path = Some [98],
     mi_size = 5, mi_modified_at = None, mi_media_type = None, mi_quick_fingerprint = None,
     mi_sha256 = None, mi_metadata = None, mi_retention = None\<rparr>"

definition example_row :: remote_source_item where
  "example_row = new_item example_env [1] [0] (Some [97]) 4 ((example_item [117])\<lparr>mi_worker_item_id := [106]\<rparr>) 0"

definition example_server :: manifest_server where
  "example_server = \<lparr>ms_sources = [example_source], ms_items = [example_row], ms_ledger = [], ms_drawn = 2\<rparr>"

lemma example_server_ok: "server_ok (me_uuid example_env) example_server"
  by (auto simp: server_ok_def example_server_def unique_key_def example_source_def example_row_def
      new_item_def example_env_def)

lemma example_chunks:
  "manifest_chunks (me_enc example_env) (\<lambda>_. []) [114] 1 [example_item [118]]
     = Inr [manifest_chunk [114] 1 0 True [example_item [118]]]"
proof -
  have "chunk_validate (me_enc example_env) (manifest_chunk [114] 1 0 True [example_item [118]]) = Inr ()"
    by (simp add: chunk_validate_iff manifest_chunk_def item_identity_ok_def example_item_def byte_len_def
        utf8_def utf8_char.simps show_nat.simps MAX_SOURCE_MANIFEST_ITEMS_def
        MAX_SOURCE_MANIFEST_FRAME_BYTES_def example_env_def)
  then show ?thesis
    by (simp add: manifest_chunks_def renumber_def MAX_SOURCE_MANIFEST_ITEMS_def
        MAX_SOURCE_MANIFEST_FRAME_BYTES_def example_env_def manifest_chunk_def Let_def)
qed

lemma example_acceptable: "acceptable (example_item v)"
  by (simp add: acceptable_def example_item_def sanitize_display_path_def byte_len_def utf8_def
      utf8_char.simps starts_with_def)

theorem manifest_delivered_witness:
  "\<exists>s' m. deliver example_env [100] [manifest_chunk [114] 1 0 True [example_item [118]]] example_server
       = (s', [Inr (ManifestAck [114] 1 0)])
     \<and> row_at item_key ([0], [105]) (ms_items s') = Some m \<and> shown 1 (example_item [118]) m"
proof -
  let ?cs = "[manifest_chunk [114] 1 0 True [example_item [118]]]"
  obtain s' rs where d: "deliver example_env [100] ?cs example_server = (s', rs)" by (metis surj_pair)
  have env: "undisturbed example_env" by (simp add: undisturbed_def example_env_def inj_def)
  have src: "awaits [100] [114] 1 example_source example_server"
    by (simp add: awaits_def example_server_def row_at_def source_key_def example_source_def)
  have "rs = map (\<lambda>c. Inr (ack c)) ?cs
    \<and> (\<forall>i\<in>set [example_item [118]]. \<exists>m. row_at item_key (src_id example_source, mi_worker_item_id i) (ms_items s')
         = Some m \<and> shown 1 i m)"
    using manifest_delivered [OF env example_server_ok src example_chunks _ _ _ _ _ d]
    by (simp add: example_acceptable example_server_def example_row_def new_item_def i64_of_u64_def U64_MAX_def)
  then show ?thesis
    using d by (auto simp: ack_def manifest_chunk_def example_item_def example_source_def)
qed

section \<open>A revision gap\<close>

text \<open>The source rows keep their keys and their revisions; rows may be added and refreshed.\<close>

definition sources_ok :: "manifest_server \<Rightarrow> bool" where
  "sources_ok s \<longleftrightarrow> unique_key src_id (ms_sources s) \<and> unique_key source_key (ms_sources s)"

definition at_revision :: "ustr \<times> ustr \<Rightarrow> int \<Rightarrow> manifest_server \<Rightarrow> bool" where
  "at_revision k n s \<longleftrightarrow>
     (\<exists>src. row_at source_key k (ms_sources s) = Some src \<and> src_current_revision src = n)"

definition holds_at :: "ustr \<times> ustr \<Rightarrow> int \<Rightarrow> manifest_server \<Rightarrow> bool" where
  "holds_at k n s \<longleftrightarrow> sources_ok s \<and> at_revision k n s"

lemma holds_at_cong: "ms_sources s' = ms_sources s \<Longrightarrow> holds_at k n s' = holds_at k n s"
  by (simp add: holds_at_def sources_ok_def at_revision_def)

lemma holds_at_map:
  assumes "holds_at k n s" "ms_sources s' = map f (ms_sources s)"
    and "\<And>r. src_id (f r) = src_id r" "\<And>r. source_key (f r) = source_key r"
    and "\<And>r. source_key r = k \<Longrightarrow> src_current_revision (f r) = src_current_revision r"
  shows "holds_at k n s'"
proof -
  obtain src where src: "row_at source_key k (ms_sources s) = Some src" "src_current_revision src = n"
    and u: "unique_key source_key (ms_sources s)" "unique_key src_id (ms_sources s)"
    using assms(1) by (auto simp: holds_at_def at_revision_def sources_ok_def)
  have "source_key src = k" using src(1) row_at_iff [OF u(1)] by blast
  then have "row_at source_key k (ms_sources s') = Some (f src)" "src_current_revision (f src) = n"
    using src row_at_map [of source_key f, OF assms(4)] assms(2,5) by auto
  moreover have "sources_ok s'"
    using u assms(2-4) by (simp add: sources_ok_def unique_key_def comp_def)
  ultimately show ?thesis by (auto simp: holds_at_def at_revision_def)
qed

lemma source_keys [simp]:
  "src_id (refreshed_source env b r m) = src_id m" "source_key (refreshed_source env b r m) = source_key m"
  "src_current_revision (refreshed_source env b r m) = src_current_revision m"
  "src_id (new_source env u dev b r) = u" "source_key (new_source env u dev b r) = (dev, hello_root_id r)"
  by (simp_all add: refreshed_source_def new_source_def source_key_def)

lemma upsert_source_holds:
  assumes "holds_at k n s" "upsert_source parse_url env dev r s = Inr s'"
  shows "holds_at k n s'"
proof -
  obtain b where b: "validate_direct_origin parse_url r = Inr b"
    using assms(2) by (auto simp: upsert_source_def bind_result_def split: sum.splits)
  have u: "unique_key src_id (ms_sources s)" "unique_key source_key (ms_sources s)"
    using assms(1) by (simp_all add: holds_at_def sources_ok_def)
  show ?thesis
  proof (cases "row_at source_key (dev, hello_root_id r) (ms_sources s)")
    case None
    let ?m = "new_source env (me_uuid env (ms_drawn s)) dev b r"
    have m: "row_at source_key (source_key ?m) (ms_sources s) = None"
      "row_at src_id (src_id ?m) (ms_sources s) = None" "ms_sources s' = insert_row ?m (ms_sources s)"
      using assms(2) None b by (auto simp: upsert_source_def Let_def split: if_splits)
    have "unique_key src_id (ms_sources s')" "unique_key source_key (ms_sources s')"
      unfolding m(3) using keyed_table.invar_insert [OF keyed_table_rows u(1) m(2)] source_table.invar_insert [OF u(2) m(1)] .
    moreover have "at_revision k n s'"
      using assms(1) source_table.lookup_write [OF u(2), of k ?m] m
      by (auto simp: holds_at_def at_revision_def source_table.write_r_def split: if_splits)
    ultimately show ?thesis by (simp add: holds_at_def sources_ok_def)
  next
    case (Some m)
    let ?f = "\<lambda>q. if src_id q = src_id m then refreshed_source env b r q else q"
    have "q = m" if "q \<in> set (ms_sources s)" "src_id q = src_id m" for q
      using that Some u row_at_iff [OF u(2)] by (metis distinct_map inj_onD unique_key_def)
    then have "update_row src_id (refreshed_source env b r m) (ms_sources s) = map ?f (ms_sources s)"
      unfolding update_row_def by (intro map_cong refl) (metis source_keys(1))
    then have "ms_sources s' = map ?f (ms_sources s)"
      using assms(2) Some b by (auto simp: upsert_source_def)
    then show ?thesis by (rule holds_at_map [OF assms(1)]) simp_all
  qed
qed

lemma register_holds: "holds_at k n s \<Longrightarrow> holds_at k n (register_roots parse_url dev rs s)"
proof (induction parse_url dev rs s rule: register_roots.induct)
  case (2 parse_url dev r env rs s)
  then show ?case using upsert_source_holds by (auto split: sum.splits)
qed simp

lemma connected_holds: "holds_at k n s \<Longrightarrow> holds_at k n (source_connected parse_url dev rs s)"
  unfolding source_connected_def forget_batches_def
  by (rule register_holds) (subst holds_at_cong [of _ s], simp_all)

lemma disconnected_holds: "holds_at k n s \<Longrightarrow> holds_at k n (source_disconnected detached online dev s)"
proof -
  assume h: "holds_at k n s"
  let ?f = "\<lambda>r. if detached \<and> \<not> online \<and> src_device_id r = dev then r\<lparr>src_health := lit ''offline''\<rparr> else r"
  have "ms_sources (source_disconnected detached online dev s) = map ?f (ms_sources s)"
    by (auto simp: source_disconnected_def forget_batches_def Let_def)
  then show ?thesis by (rule holds_at_map [OF h]) (simp_all add: source_key_def)
qed

lemma upsert_items_sources: "upsert_items env sid rv is s = Inr s' \<Longrightarrow> ms_sources s' = ms_sources s"
proof (induction "is" arbitrary: s)
  case (Cons i "is")
  then obtain s1 where "upsert_item env sid i rv s = Inr s1" "upsert_items env sid rv is s1 = Inr s'"
    by (auto simp: bind_result_def split: sum.splits)
  with Cons.IH [of s1] show ?case
    by (auto simp: upsert_item_def bind_result_def Let_def split: sum.splits option.splits if_splits)
qed simp

text \<open>Reconciling changes the revision of one source, and only to the revision the plan let through.\<close>

lemma plan_bound:
  "plan_chunk key cur fp c l = (l', Inr (Some ids)) \<Longrightarrow> revision c \<le> (cur + 1) mod 2 ^ 64"
  by (auto simp: plan_chunk_def Let_def not_less split: if_splits)

lemma write_chunk_sources:
  "write_chunk env sid c s = Inr s1 \<Longrightarrow>
     ms_sources s1 = ms_sources s \<or> ms_sources s1 = commit_revision env sid (revision c) (ms_sources s)"
  unfolding write_chunk_def
  by (cases "upsert_items env sid (revision c) (items c) s")
    (auto dest: upsert_items_sources split: if_splits)

lemma reconcile_sources:
  "ms_sources (fst (reconcile_manifest between env dev c s)) = ms_sources s
   \<or> (\<exists>src. row_at source_key (dev, chunk_root_id c) (ms_sources s) = Some src
        \<and> revision c \<le> (u64_of_i64 (src_current_revision src) + 1) mod 2 ^ 64
        \<and> ms_sources (fst (reconcile_manifest between env dev c s))
            = commit_revision env (src_id src) (revision c) (ms_sources s))"
proof (cases "row_at source_key (dev, chunk_root_id c) (ms_sources s)")
  case (Some src)
  let ?cur = "u64_of_i64 (src_current_revision src)"
  obtain l r where p: "plan_chunk (key_of dev c) ?cur (me_fingerprint env c) c (ms_ledger s) = (l, r)"
    by (metis surj_pair)
  show ?thesis
  proof (cases "\<exists>ids s1. r = Inr (Some ids) \<and> write_chunk env (src_id src) c (s\<lparr>ms_ledger := l\<rparr>) = Inr s1")
    case True
    then obtain ids s1 where s1: "r = Inr (Some ids)" "write_chunk env (src_id src) c (s\<lparr>ms_ledger := l\<rparr>) = Inr s1"
      by blast
    then have "ms_sources (fst (reconcile_manifest between env dev c s)) \<in> {ms_sources s, ms_sources s1}"
      using Some p by (auto simp: reconcile_manifest_def split: prod.splits)
    then show ?thesis using Some write_chunk_sources [OF s1(2)] plan_bound p s1(1) by auto
  next
    case False
    then have "ms_sources (fst (reconcile_manifest between env dev c s)) = ms_sources s"
      using Some p by (auto simp: reconcile_manifest_def split: sum.splits option.splits)
    then show ?thesis by blast
  qed
qed (simp add: reconcile_manifest_def)

text \<open>
  A worker's root, the frames on their way to the server, and the server. The worker scans and
  sends its catalog whenever it likes; frames arrive in order or are lost with the connection;
  the server restarts, serves other sources and stores verifications in between.
\<close>

type_synonym sync_state = "persisted_root \<times> source_manifest_chunk list \<times> manifest_server"

inductive sync_step :: "ustr \<Rightarrow> ustr \<Rightarrow> sync_state \<Rightarrow> sync_state \<Rightarrow> bool" for dev rid where
  scan: "sync_step dev rid (r, q, s) (scanned_root sha uuids rid obs r, q, s)"
| send: "manifest_chunks enc text rid (pr_revision r) (manifest_items (snapshot_of r)) = Inr cs
    \<Longrightarrow> sync_step dev rid (r, q, s) (r, q @ cs, s)"
| arrive: "sync_step dev rid (r, c # q, s) (r, q, fst (reconcile_manifest between env dev c s))"
| other: "(dev', chunk_root_id c) \<noteq> (dev, rid)
    \<Longrightarrow> sync_step dev rid (r, q, s) (r, q, fst (reconcile_manifest between env dev' c s))"
| connect: "sync_step dev rid (r, q, s) (r, [], source_connected parse_url dev' rs s)"
| disconnect: "sync_step dev rid (r, q, s) (r, [], source_disconnected detached online dev' s)"
| restart: "sync_step dev rid (r, q, s) (r, [], s\<lparr>ms_ledger := []\<rparr>)"
| verify: "store_verification now i d s = Inr s' \<Longrightarrow> sync_step dev rid (r, q, s) (r, q, s')"

definition gap :: "ustr \<Rightarrow> ustr \<Rightarrow> nat \<Rightarrow> sync_state \<Rightarrow> bool" where
  "gap dev rid n st \<longleftrightarrow>
     (case st of (r, q, s) \<Rightarrow>
        Suc n < pr_revision r \<and> pr_revision r \<le> U64_MAX \<and> n < 2 ^ 63 \<and> holds_at (dev, rid) (int n) s
        \<and> (\<forall>c\<in>set q. Suc n < revision c \<and> chunk_root_id c = rid))"

lemma u64_of_small: "n < 2 ^ 63 \<Longrightarrow> u64_of_i64 (int n) = n"
  by (simp add: u64_of_i64_def)

lemma refused_in_gap:
  assumes "holds_at (dev, rid) (int n) s" "n < 2 ^ 63" "Suc n < revision c" "chunk_root_id c = rid"
  shows "\<exists>e. reconcile_manifest between env dev c s = (s, Inl e)"
proof -
  obtain src where "row_at source_key (dev, rid) (ms_sources s) = Some src" "src_current_revision src = int n"
    using assms(1) by (auto simp: holds_at_def at_revision_def)
  then show ?thesis
    using assms(2-4) by (simp add: reconcile_manifest_def plan_chunk_def u64_of_small)
qed

lemma other_holds:
  assumes h: "holds_at (dev, rid) n s" and ne: "(dev', chunk_root_id c) \<noteq> (dev, rid)"
  shows "holds_at (dev, rid) n (fst (reconcile_manifest between env dev' c s))"
proof -
  let ?s = "fst (reconcile_manifest between env dev' c s)"
  have u: "unique_key src_id (ms_sources s)" "unique_key source_key (ms_sources s)"
    using h by (simp_all add: holds_at_def sources_ok_def)
  consider "ms_sources ?s = ms_sources s"
    | src where "row_at source_key (dev', chunk_root_id c) (ms_sources s) = Some src"
        "ms_sources ?s = commit_revision env (src_id src) (revision c) (ms_sources s)"
    using reconcile_sources [of between env dev' c s] by blast
  then show ?thesis
  proof cases
    case 1
    then show ?thesis using h holds_at_cong [of ?s s] by simp
  next
    case 2
    have src: "src \<in> set (ms_sources s)" "source_key src = (dev', chunk_root_id c)"
      using 2(1) row_at_iff [OF u(2)] by auto
    let ?f = "\<lambda>r. if source_key r = source_key src
      then r\<lparr>src_current_revision := i64_of_u64 (revision c), src_health := ONLINE,
             src_last_seen_at := me_now env, src_updated_at := me_now env\<rparr> else r"
    have "src_id q = src_id src \<longleftrightarrow> source_key q = source_key src" if "q \<in> set (ms_sources s)" for q
      using u inj_onD [of src_id "set (ms_sources s)" q src] inj_onD [of source_key "set (ms_sources s)" q src] that src(1)
      by (auto simp: unique_key_def distinct_map)
    then have "ms_sources ?s = map ?f (ms_sources s)"
      unfolding 2(2) commit_revision_def by (intro map_cong refl) simp
    then show ?thesis
    proof (rule holds_at_map [OF h])
      show "src_current_revision (?f r) = src_current_revision r" if "source_key r = (dev, rid)" for r
        using that ne src(2) by auto
    qed (simp_all add: source_key_def)
  qed
qed

lemma scanned_revision: "pr_revision (scanned_root sha uuids rid obs r) = min U64_MAX (pr_revision r + 1)"
  by (simp add: scanned_root_def saturating_add_u64_def)

lemma gap_step:
  assumes "sync_step dev rid st st'" "gap dev rid n st"
  shows "gap dev rid n st'"
  using assms
proof cases
  case (scan r q s sha uuids obs)
  then show ?thesis using assms(2) by (auto simp: gap_def scanned_revision)
next
  case (send enc tx r cs q s)
  have "revision c = pr_revision r \<and> chunk_root_id c = rid" if "c \<in> set cs" for c
    using manifest_chunks_faithful [OF send(3)] that by (auto simp: list_all_iff of_batch_def)
  then show ?thesis using assms(2) send by (auto simp: gap_def)
next
  case (arrive r c q s between env)
  obtain e where "reconcile_manifest between env dev c s = (s, Inl e)"
    using assms(2) arrive refused_in_gap [of dev rid n s c between env] by (auto simp: gap_def)
  then show ?thesis using assms(2) arrive by (auto simp: gap_def)
next
  case (other dev' c r q s between env)
  then show ?thesis using assms(2) other_holds [of dev rid "int n" s dev' c] by (auto simp: gap_def)
next
  case (connect r q s parse_url dev' rs)
  then show ?thesis using assms(2) connected_holds by (auto simp: gap_def)
next
  case (disconnect r q s detached online dev')
  then show ?thesis using assms(2) disconnected_holds by (auto simp: gap_def)
next
  case (restart r q s)
  then show ?thesis using assms(2) holds_at_cong [of "s\<lparr>ms_ledger := []\<rparr>" s] by (auto simp: gap_def)
next
  case (verify now i d s s' r q)
  then have "ms_sources s' = ms_sources s" by (auto simp: store_verification_def split: option.splits)
  then show ?thesis using assms(2) verify holds_at_cong [of s' s] by (auto simp: gap_def)
qed

text \<open>
  C11. Two scans without a delivery in between lock a root out. Let worker and server agree on the
  revision, and let the worker scan twice before it is connected again, as it does when its
  process starts twice while the server is away. Whatever happens afterwards, scans, frames,
  reconnections and restarts of the server in any order, the server stays at the old revision
  and refuses every chunk of every later manifest.
\<close>

theorem revision_gap_wedges:
  assumes "holds_at (dev, rid) (int (pr_revision r)) s" "pr_revision r + 2 < 2 ^ 63"
    and "(sync_step dev rid)\<^sup>*\<^sup>*
           (scanned_root sha2 uuids2 rid obs2 (scanned_root sha1 uuids1 rid obs1 r), [], s) (r', q, s')"
    and "manifest_chunks enc text rid (pr_revision r') (manifest_items (snapshot_of r')) = Inr cs" "c \<in> set cs"
  shows "holds_at (dev, rid) (int (pr_revision r)) s' \<and> (\<exists>e. reconcile_manifest between env dev c s' = (s', Inl e))"
proof -
  let ?n = "pr_revision r"
  have "gap dev rid ?n (scanned_root sha2 uuids2 rid obs2 (scanned_root sha1 uuids1 rid obs1 r), [], s)"
    using assms(1,2) by (simp add: gap_def scanned_revision U64_MAX_def)
  with assms(3) have g: "gap dev rid ?n (r', q, s')"
    by (induction rule: rtranclp_induct) (auto intro: gap_step)
  have "revision c = pr_revision r'" "chunk_root_id c = rid"
    using manifest_chunks_faithful [OF assms(4)] assms(5) by (auto simp: list_all_iff of_batch_def)
  then show ?thesis
    using g refused_in_gap [of dev rid ?n s' c] by (auto simp: gap_def)
qed

definition example_root :: persisted_root where
  "example_root = \<lparr>pr_config = \<lparr>cfg_root_id = [114], cfg_label = [76], cfg_kind = [107],
     cfg_privacy_mode = PRIVACY_CATALOG, cfg_path = [47, 114], cfg_transport = Tunnel,
     cfg_direct_base_url = None\<rparr>, pr_revision = 0, pr_entries = []\<rparr>"

abbreviation rescan :: "persisted_root \<Rightarrow> persisted_root" where
  "rescan \<equiv> scanned_root (\<lambda>_. []) (\<lambda>n. [n]) [114] []"

theorem revision_gap_wedges_witness:
  "\<exists>e. reconcile_manifest (\<lambda>l. l) example_env [100] (manifest_chunk [114] 2 0 True []) example_server
     = (example_server, Inl e)"
proof -
  have h: "holds_at ([100], [114]) (int (pr_revision example_root)) example_server"
    by (simp add: holds_at_def sources_ok_def at_revision_def example_server_def unique_key_def row_at_def
        source_key_def example_source_def example_root_def)
  have r: "pr_revision (rescan (rescan example_root)) = 2" "pr_entries (rescan (rescan example_root)) = []"
    by (simp_all add: scanned_revision example_root_def U64_MAX_def)
      (simp add: scanned_root_def sorted_observations_def)
  have "chunk_validate (\<lambda>_. 100) (manifest_chunk [114] 2 0 True []) = Inr ()"
    by (simp add: chunk_validate_iff manifest_chunk_def byte_len_def utf8_def utf8_char.simps show_nat.simps
        MAX_SOURCE_MANIFEST_ITEMS_def MAX_SOURCE_MANIFEST_FRAME_BYTES_def)
  then have cs: "manifest_chunks (\<lambda>_. 100) (\<lambda>_. []) [114] (pr_revision (rescan (rescan example_root)))
      (manifest_items (snapshot_of (rescan (rescan example_root)))) = Inr [manifest_chunk [114] 2 0 True []]"
    by (simp add: r manifest_items_def snapshot_of_def manifest_chunks_def renumber_def manifest_chunk_def)
  show ?thesis
    using revision_gap_wedges [OF h _ rtranclp.rtrancl_refl cs]
    by (simp add: example_root_def)
qed

section \<open>Verification\<close>

text \<open>
  C39. A verification can land on a version it has not read. When a manifest replaces the content
  version of an item while its bytes are being streamed, the digest of the bytes that were read
  is stored with the new version, which is from then on verified; a later manifest with this
  version and size keeps both.
\<close>

theorem verification_of_unread_version:
  assumes "enforce_admin user = Inr ()" "load_item i s = Inr (m, src)" "0 \<le> it_size m"
    and "body m = Inr (map Some cs)" "int (length (concat cs)) = it_size m" "length (concat cs) \<le> U64_MAX"
    and "unique_key it_id (ms_items (meanwhile s))" "row_at it_id i (ms_items (meanwhile s)) = Some m1"
  shows "\<exists>s2 m2. verify_item sha body meanwhile now user i s = (s2, Inr (sha (concat cs)))
    \<and> row_at it_id i (ms_items s2) = Some m2
    \<and> it_content_version m2 = it_content_version m1 \<and> it_size m2 = it_size m1
    \<and> it_sha256 m2 = Some (sha (concat cs)) \<and> it_observation_state m2 = VERIFIED
    \<and> (let m3 = observed_item env path (it_size m1) (item\<lparr>mi_content_version := it_content_version m1\<rparr>) rv m2
       in it_sha256 m3 = Some (sha (concat cs)) \<and> it_observation_state m3 = VERIFIED)"
proof -
  have hash: "hash_body sha (map Some ds) got (length got) k k = Inr (sha (got @ concat ds), k)"
    if "length got + length (concat ds) = k" "k \<le> U64_MAX" for ds got k
    using that
  proof (induction ds arbitrary: got)
    case (Cons d ds)
    have "saturating_add_u64 (length got) (length d) = length (got @ d)"
      using Cons.prems by (simp add: saturating_add_u64_def)
    then show ?case using Cons.IH [of "got @ d"] Cons.prems by (simp add: Let_def)
  qed simp
  have "nat (it_size m) = length (concat cs)" using assms(3,5) by simp
  then have h: "hash_body sha (map Some cs) [] 0 (nat (it_size m)) (nat (it_size m))
      = Inr (sha (concat cs), nat (it_size m))"
    using hash [of "[]" cs] assms(6) by simp
  have id: "it_id m = i" using assms(2)
    by (auto simp: load_item_def row_at_def find_Some_iff split: option.splits)
  let ?m = "m1\<lparr>it_sha256 := Some (sha (concat cs)), it_observation_state := VERIFIED, it_updated_at := now\<rparr>"
  have "it_id m1 = i" using assms(8) by (auto simp: row_at_def find_Some_iff)
  then have "row_at it_id i (update_row it_id ?m (ms_items (meanwhile s))) = Some ?m"
    using keyed_table.lookup_write [OF keyed_table_rows assms(7), of i ?m] assms(8)
    by (simp add: keyed_table.write_r_def [OF keyed_table_rows])
  then show ?thesis
    using assms(1-4,8) h id
    by (auto simp: verify_item_def store_verification_def observed_item_def Let_def)
qed

definition changed_row :: remote_source_item where
  "changed_row = example_row\<lparr>it_content_version := [119]\<rparr>"

definition example_admin :: admin_user where
  "example_admin = \<lparr>au_id = [117], au_owner = False, au_permissions = [ManageServer]\<rparr>"

theorem verification_of_unread_version_witness:
  "\<exists>s2 m2. verify_item (\<lambda>bs. bs) (\<lambda>_. Inr [Some [1, 2], Some [3, 4]])
       (\<lambda>s. s\<lparr>ms_items := [changed_row]\<rparr>) 9 example_admin [1] example_server = (s2, Inr [1, 2, 3, 4])
     \<and> row_at it_id [1] (ms_items s2) = Some m2 \<and> it_content_version m2 = [119]
     \<and> it_sha256 m2 = Some [1, 2, 3, 4] \<and> it_observation_state m2 = VERIFIED"
proof -
  have a: "enforce_admin example_admin = Inr ()" by (simp add: enforce_admin_def example_admin_def)
  have l: "load_item [1] example_server = Inr (example_row, example_source)"
    by (simp add: load_item_def example_server_def row_at_def example_row_def new_item_def example_source_def)
  have r: "it_size example_row = 4" "it_content_version changed_row = [119]" "it_id changed_row = [1]"
    by (simp_all add: example_row_def new_item_def changed_row_def)
  show ?thesis
    using verification_of_unread_version [OF a l, of "\<lambda>_. Inr [Some [1, 2], Some [3, 4]]" "[[1, 2], [3, 4]]"
        "\<lambda>s. s\<lparr>ms_items := [changed_row]\<rparr>" changed_row "\<lambda>bs. bs" 9 example_env None "example_item []" 0]
    by (auto simp: r unique_key_def row_at_def U64_MAX_def)
qed

end
