(* ===== verification/Source_Imports.thy ===== *)
theory Source_Imports
  imports Source_Manifest
begin

text \<open>
  The ledger of import proposals in \<^verbatim>\<open>apps/server/src/routers/api/v2/source_workers.rs\<close>:
  recording a proposal, approving it by a link or by staging the bytes, and rejecting it.
  Approving by a link is one transaction. Approving by staging takes the claim, enters the set
  of proposals being applied, streams the bytes and records the outcome, in four steps other
  requests can run between. Streaming and the upload store are arguments.
\<close>

section \<open>Tables\<close>

definition PROPOSED :: ustr where "PROPOSED = lit ''proposed''"
definition APPROVED :: ustr where "APPROVED = lit ''approved''"
definition REJECTED :: ustr where "REJECTED = lit ''rejected''"
definition REMOTE_LOCATION_KIND :: ustr where "REMOTE_LOCATION_KIND = lit ''remote_source''"

record remote_source_import =
  im_id :: ustr
  im_source_id :: ustr
  im_source_item_id :: ustr
  im_target_media_id :: ustr
  im_worker_item_id :: ustr
  im_content_version :: ustr
  im_source_sha256 :: ustr
  im_source_size :: int
  im_match_kind :: ustr
  im_match_score :: int
  im_match_evidence :: json
  im_status :: ustr
  im_decision_actor_id :: "ustr option"
  im_decision_at :: "int option"
  im_decision_reason :: "ustr option"
  im_applied_location_id :: "ustr option"
  im_staged_item_id :: "ustr option"
  im_created_at :: int
  im_updated_at :: int

record media_location =
  ml_id :: ustr
  ml_media_id :: ustr
  ml_source_item_id :: "ustr option"
  ml_kind :: ustr
  ml_sha256 :: ustr
  ml_content_version :: ustr
  ml_health :: ustr
  ml_durability_role :: ustr
  ml_cache_path :: "ustr option"
  ml_verified_at :: "int option"
  ml_last_seen_at :: "int option"
  ml_created_at :: int
  ml_updated_at :: int

record import_server =
  is_tables :: manifest_server
  is_imports :: "remote_source_import list"
  is_locations :: "media_location list"
  is_media :: "ustr list"
  materializing :: "ustr list"

record candidate_match =
  cm_media_id :: ustr
  cm_kind :: ustr
  cm_score :: int
  cm_evidence :: json

section \<open>Recording a proposal\<close>

definition same_proposal :: "remote_source_item \<Rightarrow> ustr \<Rightarrow> candidate_match \<Rightarrow> remote_source_import \<Rightarrow> bool" where
  "same_proposal item sha cand p \<longleftrightarrow>
     im_source_item_id p = it_id item \<and> im_target_media_id p = cm_media_id cand
     \<and> im_content_version p = it_content_version item \<and> im_source_sha256 p = sha"

definition new_proposal ::
  "int \<Rightarrow> ustr \<Rightarrow> ustr \<Rightarrow> remote_source_item \<Rightarrow> ustr \<Rightarrow> candidate_match \<Rightarrow> remote_source_import" where
  "new_proposal now uuid sid item sha cand =
     \<lparr>im_id = uuid, im_source_id = sid, im_source_item_id = it_id item,
      im_target_media_id = cm_media_id cand, im_worker_item_id = it_worker_item_id item,
      im_content_version = it_content_version item, im_source_sha256 = sha, im_source_size = it_size item,
      im_match_kind = cm_kind cand, im_match_score = cm_score cand, im_match_evidence = cm_evidence cand,
      im_status = PROPOSED, im_decision_actor_id = None, im_decision_at = None, im_decision_reason = None,
      im_applied_location_id = None, im_staged_item_id = None, im_created_at = now, im_updated_at = now\<rparr>"

definition upsert_import_proposal ::
  "int \<Rightarrow> ustr \<Rightarrow> ustr \<Rightarrow> remote_source_item \<Rightarrow> candidate_match \<Rightarrow> import_server
   \<Rightarrow> (manifest_error, import_server \<times> remote_source_import) result" where
  "upsert_import_proposal now uuid sid item cand s =
     (case it_sha256 item of
        None \<Rightarrow> Inl (Conflict ''source item is not verified'')
      | Some sha \<Rightarrow>
          (case find (same_proposal item sha cand) (is_imports s) of
             Some p \<Rightarrow>
               if im_status p \<noteq> PROPOSED then Inr (s, p)
               else let p' = p\<lparr>im_match_kind := cm_kind cand, im_match_score := cm_score cand,
                              im_match_evidence := cm_evidence cand, im_updated_at := now\<rparr>
                    in Inr (s\<lparr>is_imports := update_row im_id p' (is_imports s)\<rparr>, p')
           | None \<Rightarrow>
               let p = new_proposal now uuid sid item sha cand
               in if row_at im_id uuid (is_imports s) \<noteq> None then Inl DbErr
                  else Inr (s\<lparr>is_imports := insert_row p (is_imports s)\<rparr>, p)))"

section \<open>Claims\<close>

definition verify_proposal_identity ::
  "remote_source_import \<Rightarrow> remote_source_item \<Rightarrow> (manifest_error, unit) result" where
  "verify_proposal_identity p item =
     (if im_source_id p \<noteq> it_source_id item \<or> im_source_item_id p \<noteq> it_id item
         \<or> im_worker_item_id p \<noteq> it_worker_item_id item \<or> im_content_version p \<noteq> it_content_version item
         \<or> im_source_sha256 p \<noteq> (case it_sha256 item of Some d \<Rightarrow> d | None \<Rightarrow> [])
         \<or> im_source_size p \<noteq> it_size item \<or> it_observation_state item \<noteq> VERIFIED
      then Inl (Conflict ''source item changed since this proposal was created'') else Inr ())"

definition claimable :: "ustr \<Rightarrow> remote_source_import \<Rightarrow> bool" where
  "claimable pid p \<longleftrightarrow> im_id p = pid \<and> im_status p = PROPOSED"

definition decide :: "int \<Rightarrow> ustr \<Rightarrow> ustr \<Rightarrow> ustr option \<Rightarrow> remote_source_import \<Rightarrow> remote_source_import" where
  "decide now status actor reason p =
     p\<lparr>im_status := status, im_decision_actor_id := Some actor, im_decision_at := Some now,
       im_decision_reason := reason, im_updated_at := now\<rparr>"

definition claim_proposal ::
  "int \<Rightarrow> ustr \<Rightarrow> ustr \<Rightarrow> ustr \<Rightarrow> ustr option \<Rightarrow> import_server \<Rightarrow> import_server \<times> bool" where
  "claim_proposal now pid status actor reason s =
     (s\<lparr>is_imports := map (\<lambda>p. if claimable pid p then decide now status actor reason p else p) (is_imports s)\<rparr>,
      length (filter (claimable pid) (is_imports s)) = 1)"

definition unfinished :: "remote_source_import \<Rightarrow> bool" where
  "unfinished p \<longleftrightarrow>
     im_status p = APPROVED \<and> im_applied_location_id p = None \<and> im_staged_item_id p = None"

definition release_claim :: "int \<Rightarrow> ustr \<Rightarrow> import_server \<Rightarrow> import_server" where
  "release_claim now pid s =
     s\<lparr>is_imports := map (\<lambda>p. if im_id p = pid \<and> unfinished p
         then p\<lparr>im_status := PROPOSED, im_decision_actor_id := None, im_decision_at := None,
                im_decision_reason := None, im_updated_at := now\<rparr> else p) (is_imports s)\<rparr>"

definition load_proposal :: "ustr \<Rightarrow> import_server \<Rightarrow> (manifest_error, remote_source_import) result" where
  "load_proposal pid s =
     (case row_at im_id pid (is_imports s) of
        Some p \<Rightarrow> Inr p | None \<Rightarrow> Inl (NotFound ''remote import proposal not found''))"

record import_decision =
  id_proposal :: remote_source_import
  id_action :: ustr
  id_location_id :: "ustr option"
  id_staged_item_id :: "ustr option"
  id_deduplicated :: "bool option"

definition settled_response ::
  "import_server \<Rightarrow> remote_source_import \<Rightarrow> (manifest_error, import_decision) result" where
  "settled_response s p =
     (if unfinished p
      then Inl (Conflict (if im_id p \<in> set (materializing s) then ''proposal approval is still being applied''
        else ''proposal was approved but its materialization did not finish; approve it again with action=materialize to resume''))
      else if im_status p = APPROVED
      then Inr \<lparr>id_proposal = p,
                id_action = (if im_applied_location_id p \<noteq> None then lit ''link'' else lit ''materialize''),
                id_location_id = im_applied_location_id p, id_staged_item_id = im_staged_item_id p,
                id_deduplicated = map_option (\<lambda>_. True) (im_staged_item_id p)\<rparr>
      else if im_status p = REJECTED then Inl (Conflict ''proposal was rejected'')
      else Inl (ConflictText (lit ''proposal is already '' @ im_status p)))"

section \<open>Approving by a link\<close>

definition remote_location_of :: "ustr \<Rightarrow> ustr \<Rightarrow> media_location \<Rightarrow> bool" where
  "remote_location_of media item_id l \<longleftrightarrow>
     ml_media_id l = media \<and> ml_source_item_id l = Some item_id \<and> ml_kind l = REMOTE_LOCATION_KIND"

definition new_location :: "int \<Rightarrow> ustr \<Rightarrow> ustr \<Rightarrow> ustr \<Rightarrow> ustr \<Rightarrow> media_location" where
  "new_location now uuid media item_id digest =
     \<lparr>ml_id = uuid, ml_media_id = media, ml_source_item_id = Some item_id, ml_kind = REMOTE_LOCATION_KIND,
      ml_sha256 = digest, ml_content_version = lit ''sha256:'' @ digest, ml_health = ONLINE,
      ml_durability_role = REMOTE_LOCATION_KIND, ml_cache_path = None, ml_verified_at = Some now,
      ml_last_seen_at = Some now, ml_created_at = now, ml_updated_at = now\<rparr>"

definition refreshed_location :: "int \<Rightarrow> ustr \<Rightarrow> media_location \<Rightarrow> media_location" where
  "refreshed_location now digest l =
     l\<lparr>ml_sha256 := digest, ml_content_version := lit ''sha256:'' @ digest, ml_health := ONLINE,
       ml_durability_role := REMOTE_LOCATION_KIND, ml_verified_at := Some now, ml_last_seen_at := Some now,
       ml_updated_at := now\<rparr>"

definition set_imported :: "int \<Rightarrow> ustr \<Rightarrow> ustr \<Rightarrow> manifest_server \<Rightarrow> manifest_server" where
  "set_imported now item_id media t =
     t\<lparr>ms_items := map (\<lambda>r. if it_id r = item_id
         then r\<lparr>it_imported_media_id := Some media, it_updated_at := now\<rparr> else r) (ms_items t)\<rparr>"

definition link_verified_item ::
  "int \<Rightarrow> ustr \<Rightarrow> remote_source_item \<Rightarrow> ustr \<Rightarrow> import_server \<Rightarrow> (manifest_error, import_server \<times> ustr) result" where
  "link_verified_item now uuid item media s =
     (case it_sha256 item of
        None \<Rightarrow> Inl (Conflict ''remote item must be verified before linking'')
      | Some digest \<Rightarrow>
          if it_observation_state item \<noteq> VERIFIED
          then Inl (Conflict ''remote item must be verified before linking'')
          else if media \<notin> set (is_media s) then Inl (NotFound ''media not found'')
          else let s1 = (\<lambda>ls. s\<lparr>is_locations := ls, is_tables := set_imported now (it_id item) media (is_tables s)\<rparr>)
               in case find (remote_location_of media (it_id item)) (is_locations s) of
                    Some l \<Rightarrow>
                      Inr (s1 (update_row ml_id (refreshed_location now digest l) (is_locations s)), ml_id l)
                  | None \<Rightarrow>
                      if row_at ml_id uuid (is_locations s) \<noteq> None then Inl DbErr
                      else Inr (s1 (insert_row (new_location now uuid media (it_id item) digest) (is_locations s)), uuid))"

text \<open>One transaction: an error leaves the tables as they were.\<close>

definition approve_link ::
  "int \<Rightarrow> ustr \<Rightarrow> ustr \<Rightarrow> ustr \<Rightarrow> ustr option \<Rightarrow> import_server
   \<Rightarrow> import_server \<times> (manifest_error, import_decision) result" where
  "approve_link now uuid pid actor reason s =
     (case claim_proposal now pid APPROVED actor reason s of
        (_, False) \<Rightarrow> (s, bind_result (load_proposal pid s) (settled_response s))
      | (s1, True) \<Rightarrow>
          (case bind_result (load_proposal pid s1) (\<lambda>p.
                bind_result (load_item (im_source_item_id p) (is_tables s1)) (\<lambda>(item, src).
                  if src_id src \<noteq> im_source_id p then Inl (Conflict ''proposal source no longer exists'')
                  else bind_result (verify_proposal_identity p item) (\<lambda>_.
                    bind_result (link_verified_item now uuid item (im_target_media_id p) s1) (\<lambda>(s2, loc).
                      let p' = p\<lparr>im_applied_location_id := Some loc, im_updated_at := now\<rparr>
                      in Inr (s2\<lparr>is_imports := update_row im_id p' (is_imports s2)\<rparr>, p', loc)))))
           of Inl e \<Rightarrow> (s, Inl e)
            | Inr (s3, p', loc) \<Rightarrow>
                (s3, Inr \<lparr>id_proposal = p', id_action = lit ''link'', id_location_id = Some loc,
                         id_staged_item_id = None, id_deduplicated = None\<rparr>)))"

section \<open>Approving by staging the bytes\<close>

text \<open>The first two steps: the claim, and the proposal as it is read afterwards.\<close>

definition materialize_claim ::
  "int \<Rightarrow> ustr \<Rightarrow> ustr \<Rightarrow> ustr option \<Rightarrow> import_server
   \<Rightarrow> import_server \<times> (manifest_error, import_decision + remote_source_import) result" where
  "materialize_claim now pid actor reason s =
     (let (s1, claimed) = claim_proposal now pid APPROVED actor reason s
      in (s1, bind_result (load_proposal pid s1) (\<lambda>p.
                if \<not> claimed \<and> \<not> unfinished p then map_sum id Inl (settled_response s1 p)
                else Inr (Inr p))))"

text \<open>\<open>MaterializationGuard::enter\<close>.\<close>

definition materialize_enter :: "ustr \<Rightarrow> import_server \<Rightarrow> import_server \<times> (manifest_error, unit) result" where
  "materialize_enter pid s =
     (if pid \<in> set (materializing s) then (s, Inl (Conflict ''proposal approval is still being applied''))
      else (s\<lparr>materializing := pid # materializing s\<rparr>, Inr ()))"

fun receive_body ::
  "byte list option list \<Rightarrow> byte list \<Rightarrow> nat \<Rightarrow> nat \<Rightarrow> (manifest_error, byte list \<times> nat) result" where
  "receive_body [] got tot expected = Inr (got, tot)"
| "receive_body (None # _) got tot expected = Inl ServiceUnavailable"
| "receive_body (Some chunk # rest) got tot expected =
     (let tot1 = saturating_add_u64 tot (length chunk)
      in if tot1 > expected then Inl (BadGateway (lit ''source exceeded grant''))
         else receive_body rest (got @ chunk) tot1 expected)"

record materialize_request =
  mr_library_id :: ustr
  mr_filename :: "ustr option"
  mr_idempotency_key :: "ustr option"

definition staged_name :: "materialize_request \<Rightarrow> remote_source_item \<Rightarrow> ustr" where
  "staged_name req item =
     (case mr_filename req of
        Some n \<Rightarrow> n
      | None \<Rightarrow>
          (case it_relative_path item of
             Some p \<Rightarrow> last (split_on 47 p)
           | None \<Rightarrow> it_id item @ lit ''.bin''))"

text \<open>
  \<open>stage\<close> is the upload store: library, file name, idempotency key and content. The temporary
  file between the two is left out.
\<close>

type_synonym upload_store =
  "ustr \<Rightarrow> ustr \<Rightarrow> ustr option \<Rightarrow> byte list \<Rightarrow> (manifest_error, ustr \<times> bool) result"

definition materialize_verified_item ::
  "(byte list \<Rightarrow> ustr) \<Rightarrow> (remote_source_item \<Rightarrow> (manifest_error, byte list option list) result)
   \<Rightarrow> upload_store \<Rightarrow> materialize_request \<Rightarrow> remote_source_item \<Rightarrow> (manifest_error, ustr \<times> bool) result" where
  "materialize_verified_item sha body stage req item =
     (if it_observation_state item \<noteq> VERIFIED \<or> it_sha256 item = None
      then Inl (Conflict ''remote item must be verified before materializing'')
      else if it_size item < 0 then Inl (Conflict ''source item has an invalid size'')
      else bind_result (body item) (\<lambda>cs.
        bind_result (receive_body cs [] 0 (nat (it_size item))) (\<lambda>(got, tot).
          if tot \<noteq> nat (it_size item) \<or> Some (sha got) \<noteq> it_sha256 item
          then Inl (BadGateway (lit ''source verification changed during materialization''))
          else stage (mr_library_id req) (staged_name req item) (mr_idempotency_key req) got)))"

text \<open>What the bytes are streamed for: the item of the proposal as it was read.\<close>

definition materialize_bytes ::
  "(byte list \<Rightarrow> ustr) \<Rightarrow> (remote_source_item \<Rightarrow> (manifest_error, byte list option list) result)
   \<Rightarrow> upload_store \<Rightarrow> materialize_request \<Rightarrow> remote_source_import \<Rightarrow> import_server
   \<Rightarrow> (manifest_error, ustr \<times> bool) result" where
  "materialize_bytes sha body stage req p s =
     bind_result (load_item (im_source_item_id p) (is_tables s)) (\<lambda>(item, src).
       if src_id src \<noteq> im_source_id p then Inl (Conflict ''proposal source no longer exists'')
       else bind_result (verify_proposal_identity p item) (\<lambda>_. materialize_verified_item sha body stage req item))"

text \<open>The outcome is recorded or the claim released; then the guard is dropped.\<close>

definition materialize_record ::
  "int \<Rightarrow> ustr \<Rightarrow> (manifest_error, ustr \<times> bool) result \<Rightarrow> import_server
   \<Rightarrow> import_server \<times> (manifest_error, import_decision) result" where
  "materialize_record now pid outcome s =
     (case outcome of
        Inl e \<Rightarrow> (release_claim now pid s, Inl e)
      | Inr (staged, dup) \<Rightarrow>
          let s1 = s\<lparr>is_imports := map (\<lambda>p. if im_id p = pid \<and> im_status p = APPROVED
                then p\<lparr>im_staged_item_id := Some staged, im_updated_at := now\<rparr> else p) (is_imports s)\<rparr>
          in (s1, bind_result (load_proposal pid s1) (\<lambda>p.
                Inr \<lparr>id_proposal = p, id_action = lit ''materialize'', id_location_id = None,
                     id_staged_item_id = Some staged, id_deduplicated = Some dup\<rparr>)))"

definition guard_drop :: "ustr \<Rightarrow> import_server \<Rightarrow> import_server" where
  "guard_drop pid s = s\<lparr>materializing := filter (\<lambda>x. x \<noteq> pid) (materializing s)\<rparr>"

record import_request =
  ir_action :: "ustr option"
  ir_library_id :: "ustr option"
  ir_filename :: "ustr option"
  ir_idempotency_key :: "ustr option"
  ir_reason :: "ustr option"

definition request_for :: "ustr \<Rightarrow> ustr \<Rightarrow> import_request \<Rightarrow> materialize_request" where
  "request_for library pid r =
     \<lparr>mr_library_id = library, mr_filename = ir_filename r,
      mr_idempotency_key =
        Some (case ir_idempotency_key r of Some k \<Rightarrow> k | None \<Rightarrow> lit ''remote-source-import:'' @ pid)\<rparr>"

text \<open>The steps in a row.\<close>

definition approve_materialize ::
  "(byte list \<Rightarrow> ustr) \<Rightarrow> (remote_source_item \<Rightarrow> (manifest_error, byte list option list) result)
   \<Rightarrow> upload_store \<Rightarrow> int \<Rightarrow> admin_user \<Rightarrow> ustr \<Rightarrow> import_request \<Rightarrow> import_server
   \<Rightarrow> import_server \<times> (manifest_error, import_decision) result" where
  "approve_materialize sha body stage now user pid r s =
     (case ir_library_id r of
        None \<Rightarrow> (s, Inl (BadRequest ''libraryId is required for materialization''))
      | Some library \<Rightarrow>
          (case materialize_claim now pid (au_id user) (ir_reason r) s of
             (s1, Inl e) \<Rightarrow> (s1, Inl e)
           | (s1, Inr (Inl d)) \<Rightarrow> (s1, Inr d)
           | (s1, Inr (Inr p)) \<Rightarrow>
               (case materialize_enter pid s1 of
                  (s2, Inl e) \<Rightarrow> (s2, Inl e)
                | (s2, Inr _) \<Rightarrow>
                    let (s3, d) = materialize_record now pid
                          (materialize_bytes sha body stage (request_for library pid r) p s2) s2
                    in (guard_drop pid s3, d))))"

text \<open>The handler of an approval: a link unless the request says otherwise.\<close>

definition approve_import ::
  "(byte list \<Rightarrow> ustr) \<Rightarrow> (remote_source_item \<Rightarrow> (manifest_error, byte list option list) result)
   \<Rightarrow> upload_store \<Rightarrow> int \<Rightarrow> ustr \<Rightarrow> admin_user \<Rightarrow> ustr \<Rightarrow> import_request \<Rightarrow> import_server
   \<Rightarrow> import_server \<times> (manifest_error, import_decision) result" where
  "approve_import sha body stage now uuid user pid r s =
     (case enforce_admin user of
        Inl e \<Rightarrow> (s, Inl e)
      | Inr _ \<Rightarrow>
          (let action = (case ir_action r of Some a \<Rightarrow> a | None \<Rightarrow> lit ''link'')
           in if action = lit ''link'' then approve_link now uuid pid (au_id user) (ir_reason r) s
              else if action = lit ''materialize'' then approve_materialize sha body stage now user pid r s
              else (s, Inl (BadRequest ''action must be link or materialize''))))"

section \<open>Rejecting and linking\<close>

definition reject_import ::
  "int \<Rightarrow> admin_user \<Rightarrow> ustr \<Rightarrow> ustr option \<Rightarrow> import_server
   \<Rightarrow> import_server \<times> (manifest_error, remote_source_import) result" where
  "reject_import now user pid reason s =
     (case enforce_admin user of
        Inl e \<Rightarrow> (s, Inl e)
      | Inr _ \<Rightarrow>
          (let (s1, claimed) = claim_proposal now pid REJECTED (au_id user) reason s
           in (s1, bind_result (load_proposal pid s1) (\<lambda>p.
                     if claimed \<or> im_status p = REJECTED then Inr p
                     else Inl (ConflictText (lit ''proposal is already '' @ im_status p))))))"

definition link_item ::
  "int \<Rightarrow> ustr \<Rightarrow> admin_user \<Rightarrow> ustr \<Rightarrow> ustr \<Rightarrow> import_server
   \<Rightarrow> import_server \<times> (manifest_error, ustr) result" where
  "link_item now uuid user item_id media s =
     (case bind_result (enforce_admin user) (\<lambda>_.
           bind_result (load_item item_id (is_tables s)) (\<lambda>(item, _). link_verified_item now uuid item media s)) of
        Inl e \<Rightarrow> (s, Inl e)
      | Inr (s', loc) \<Rightarrow> (s', Inr loc))"

end
