(* ===== verification/Source_Imports_Properties.thy ===== *)
theory Source_Imports_Properties
  imports Source_Imports Source_Manifest_Properties
begin

text \<open>
  What is proved of import proposals: a decision is final under every interleaving, an approved
  link is exactly what was proposed and a refused one changes nothing, and a resumed
  materialization can stage bytes for a proposal that was rejected in the meantime.
\<close>

section \<open>Steps\<close>


section \<open>Decisions are final\<close>



lemma status_distinct [simp]: "PROPOSED \<noteq> APPROVED" "PROPOSED \<noteq> REJECTED" "APPROVED \<noteq> REJECTED"
  "APPROVED \<noteq> PROPOSED" "REJECTED \<noteq> PROPOSED" "REJECTED \<noteq> APPROVED"
  by (simp_all add: PROPOSED_def APPROVED_def REJECTED_def lit_def)









lemma decide_simps [simp]:
  "im_id (decide now st a r p) = im_id p" "im_status (decide now st a r p) = st"
  "im_source_item_id (decide now st a r p) = im_source_item_id p" "im_source_id (decide now st a r p) = im_source_id p"
  "im_target_media_id (decide now st a r p) = im_target_media_id p"
  "im_applied_location_id (decide now st a r p) = im_applied_location_id p"
  "im_staged_item_id (decide now st a r p) = im_staged_item_id p"
  "verify_proposal_identity (decide now st a r p) = verify_proposal_identity p"
  by (simp_all add: decide_def verify_proposal_identity_def fun_eq_iff)


text \<open>A claim that succeeded found the one row of the proposal undecided.\<close>

lemma claimed_row:
  assumes "unique_key im_id (is_imports s)" "claim_proposal now pid status actor reason s = (s1, True)"
  obtains p where "row_at im_id pid (is_imports s) = Some p" "im_status p = PROPOSED"
    "row_at im_id pid (is_imports s1) = Some (decide now status actor reason p)"
proof -
  have "filter (claimable pid) (is_imports s) \<noteq> []" using assms(2) by (auto simp: claim_proposal_def)
  then obtain p where p: "p \<in> set (is_imports s)" "claimable pid p" by (auto simp: filter_empty_conv)
  then have "row_at im_id pid (is_imports s) = Some p" "im_status p = PROPOSED"
    using row_at_iff [OF assms(1)] by (auto simp: claimable_def)
  moreover have "is_imports s1 = map (\<lambda>p. if claimable pid p then decide now status actor reason p else p) (is_imports s)"
    using assms(2) by (auto simp: claim_proposal_def)
  then have "row_at im_id pid (is_imports s1) = Some (decide now status actor reason p)"
    using calculation p(2) by (simp add: row_at_map)
  ultimately show thesis using that by blast
qed

lemma link_frame:
  "link_verified_item now uuid item media s = Inr (s', loc)
   \<Longrightarrow> is_imports s' = is_imports s \<and> materializing s' = materializing s \<and> is_media s' = is_media s"
  by (auto simp: link_verified_item_def Let_def split: option.splits if_splits)

text \<open>An approval by a link lost its claim, was refused, or applied the link.\<close>

definition linked_proposal ::
  "int \<Rightarrow> ustr \<Rightarrow> ustr option \<Rightarrow> ustr \<Rightarrow> remote_source_import \<Rightarrow> remote_source_import" where
  "linked_proposal now actor reason loc p =
     (decide now APPROVED actor reason p)\<lparr>im_applied_location_id := Some loc, im_updated_at := now\<rparr>"

lemma linked_proposal_simps [simp]:
  "im_id (linked_proposal now a r loc p) = im_id p" "im_status (linked_proposal now a r loc p) = APPROVED"
  "im_applied_location_id (linked_proposal now a r loc p) = Some loc"
  "im_decision_actor_id (linked_proposal now a r loc p) = Some a"
  by (simp_all add: linked_proposal_def decide_def)

lemma approve_link_cases:
  assumes u: "unique_key im_id (is_imports s)"
  obtains (lost) r where "\<not> snd (claim_proposal now pid APPROVED actor reason s)"
      "approve_link now uuid pid actor reason s = (s, r)"
  | (refused) e where "approve_link now uuid pid actor reason s = (s, Inl e)"
  | (linked) p s1 item src s2 loc d where "row_at im_id pid (is_imports s) = Some p" "im_status p = PROPOSED"
      "claim_proposal now pid APPROVED actor reason s = (s1, True)"
      "load_item (im_source_item_id p) (is_tables s) = Inr (item, src)"
      "verify_proposal_identity p item = Inr ()"
      "link_verified_item now uuid item (im_target_media_id p) s1 = Inr (s2, loc)"
      "approve_link now uuid pid actor reason s
        = (s2\<lparr>is_imports := update_row im_id (linked_proposal now actor reason loc p) (is_imports s1)\<rparr>, Inr d)"
      "id_location_id d = Some loc"
proof (cases "claim_proposal now pid APPROVED actor reason s")
  case (Pair s1 claimed)
  show thesis
  proof (cases claimed)
    case False
    then show thesis using Pair lost by (auto simp: approve_link_def)
  next
    case True
    have c: "claim_proposal now pid APPROVED actor reason s = (s1, True)" using Pair True by simp
    obtain p where p: "row_at im_id pid (is_imports s) = Some p" "im_status p = PROPOSED"
      "row_at im_id pid (is_imports s1) = Some (decide now APPROVED actor reason p)"
      by (rule claimed_row [OF u c])
    have t: "is_tables s1 = is_tables s" using c by (auto simp: claim_proposal_def)
    have l: "load_proposal pid s1 = Inr (decide now APPROVED actor reason p)" using p(3) by (simp add: load_proposal_def)
    show thesis
    proof (cases "\<exists>item src s2 loc. load_item (im_source_item_id p) (is_tables s) = Inr (item, src)
        \<and> src_id src = im_source_id p \<and> verify_proposal_identity p item = Inr ()
        \<and> link_verified_item now uuid item (im_target_media_id p) s1 = Inr (s2, loc)")
      case True
      then obtain item src s2 loc where w: "load_item (im_source_item_id p) (is_tables s) = Inr (item, src)"
        "src_id src = im_source_id p" "verify_proposal_identity p item = Inr ()"
        "link_verified_item now uuid item (im_target_media_id p) s1 = Inr (s2, loc)" by blast
      have "approve_link now uuid pid actor reason s
        = (s2\<lparr>is_imports := update_row im_id (linked_proposal now actor reason loc p) (is_imports s1)\<rparr>,
           Inr \<lparr>id_proposal = linked_proposal now actor reason loc p, id_action = lit ''link'',
                id_location_id = Some loc, id_staged_item_id = None, id_deduplicated = None\<rparr>)"
        by (simp add: approve_link_def c l w t link_frame [OF w(4)] Let_def linked_proposal_def)
      then show thesis by (rule linked [OF p(1,2) c w(1,3,4)]) simp
    next
      case False
      then have "\<exists>e. approve_link now uuid pid actor reason s = (s, Inl e)"
        using c l t by (auto simp: approve_link_def bind_result_def split: sum.splits prod.splits if_splits)
      then show thesis using refused by blast
    qed
  qed
qed





section \<open>An example\<close>

definition verified_row :: remote_source_item where
  "verified_row = example_row\<lparr>it_sha256 := Some [100], it_observation_state := VERIFIED\<rparr>"

definition example_candidate :: candidate_match where
  "example_candidate = \<lparr>cm_media_id = [109], cm_kind = lit ''digest'', cm_score = 100, cm_evidence = JNull\<rparr>"

definition example_proposal :: remote_source_import where
  "example_proposal = new_proposal 3 [112] [0] verified_row [100] example_candidate"

definition example_imports :: "remote_source_import \<Rightarrow> import_server" where
  "example_imports p = \<lparr>is_tables = example_server\<lparr>ms_items := [verified_row]\<rparr>, is_imports = [p],
     is_locations = [], is_media = [[109]], materializing = []\<rparr>"

lemma example_import_rows:
  "unique_key im_id (is_imports (example_imports p))" "unique_key ml_id (is_locations (example_imports p))"
  "im_id p = [112] \<Longrightarrow> row_at im_id [112] (is_imports (example_imports p)) = Some p"
  by (simp_all add: example_imports_def unique_key_def row_at_def)

lemma example_load: "load_item [1] (is_tables (example_imports p)) = Inr (verified_row, example_source)"
  by (simp add: load_item_def example_imports_def example_server_def row_at_def verified_row_def example_row_def
      new_item_def example_source_def)

lemma example_identity: "verify_proposal_identity example_proposal verified_row = Inr ()"
  by (simp add: verify_proposal_identity_def example_proposal_def new_proposal_def verified_row_def example_row_def
      new_item_def)

lemma example_proposal_simps [simp]:
  "im_id example_proposal = [112]" "im_status example_proposal = PROPOSED" "im_target_media_id example_proposal = [109]"
  "im_source_sha256 example_proposal = [100]" "im_source_item_id example_proposal = [1]"
  "im_source_id example_proposal = [0]" "im_applied_location_id example_proposal = None"
  "im_staged_item_id example_proposal = None"
  by (simp_all add: example_proposal_def new_proposal_def example_candidate_def verified_row_def example_row_def
      new_item_def)

lemma example_claim:
  "claim_proposal now [112] st a r (example_imports example_proposal)
     = (example_imports (decide now st a r example_proposal), True)"
  by (simp add: claim_proposal_def example_imports_def claimable_def)

lemma example_approved:
  "\<exists>s d. approve_link 9 [1] [112] [97] None (example_imports example_proposal) = (s, Inr d)"
proof -
  let ?s = "example_imports (decide 9 APPROVED [97] None example_proposal)"
  have "\<exists>s loc. link_verified_item 9 [1] verified_row [109] ?s = Inr (s, loc)"
    by (simp add: link_verified_item_def verified_row_def example_imports_def row_at_def)
  moreover have "src_id example_source = [0]" by (simp add: example_source_def)
  ultimately show ?thesis
    by (auto simp: approve_link_def example_claim load_proposal_def example_import_rows(3)
        example_load [simplified] example_identity Let_def)
qed

section \<open>Finality\<close>



section \<open>Approving by a link\<close>

lemma claim_succeeds:
  assumes u: "unique_key im_id (is_imports s)" and p: "row_at im_id pid (is_imports s) = Some p" "im_status p = PROPOSED"
  shows "snd (claim_proposal now pid status actor reason s)"
proof -
  have p': "p \<in> set (is_imports s)" "im_id p = pid" using p(1) row_at_iff [OF u] by auto
  have "set (filter (claimable pid) (is_imports s)) = {p}"
    using p' p(2) u by (auto simp: claimable_def unique_key_def distinct_map dest: inj_onD)
  moreover have "distinct (filter (claimable pid) (is_imports s))"
    using u by (simp add: unique_key_def distinct_map)
  ultimately show ?thesis
    using distinct_card [of "filter (claimable pid) (is_imports s)"] by (simp add: claim_proposal_def)
qed

lemma link_location:
  assumes u: "unique_key ml_id (is_locations s)"
    and l: "link_verified_item now uuid item media s = Inr (s', loc)"
  shows "\<exists>d l. it_sha256 item = Some d \<and> it_observation_state item = VERIFIED
    \<and> row_at ml_id loc (is_locations s') = Some l \<and> ml_media_id l = media \<and> ml_sha256 l = d"
proof -
  obtain d where d: "it_sha256 item = Some d" "it_observation_state item = VERIFIED"
    using l by (auto simp: link_verified_item_def split: option.splits if_splits)
  note lookup = keyed_table.lookup_write [OF keyed_table_rows u] keyed_table.write_r_def [OF keyed_table_rows]
  show ?thesis
  proof (cases "find (remote_location_of media (it_id item)) (is_locations s)")
    case None
    let ?l = "new_location now uuid media (it_id item) d"
    have "loc = uuid" "is_locations s' = insert_row ?l (is_locations s)" "row_at ml_id uuid (is_locations s) = None"
      using l d None by (auto simp: link_verified_item_def Let_def split: if_splits)
    then have "row_at ml_id loc (is_locations s') = Some ?l"
      using lookup(1) [of uuid ?l] by (simp add: lookup(2) new_location_def)
    then show ?thesis using d by (simp add: new_location_def)
  next
    case (Some q)
    let ?l = "refreshed_location now d q"
    have q: "q \<in> set (is_locations s)" "ml_media_id q = media"
      using Some by (auto simp: find_Some_iff remote_location_of_def)
    then have "row_at ml_id (ml_id q) (is_locations s) = Some q" using row_at_iff [OF u] by blast
    moreover have "loc = ml_id q" "is_locations s' = update_row ml_id ?l (is_locations s)"
      using l d Some by (auto simp: link_verified_item_def Let_def split: if_splits)
    ultimately have "row_at ml_id loc (is_locations s') = Some ?l"
      using lookup(1) [of "ml_id q" ?l] by (simp add: lookup(2) refreshed_location_def)
    then show ?thesis using d q by (simp add: refreshed_location_def)
  qed
qed

text \<open>
  C12. An approval by a link applies exactly what was proposed, or nothing. If it reports a link
  while the proposal was open, the item still has the version, digest and size of the proposal
  and is verified, the target has a location with the proposal's digest, and the proposal is
  approved with that location; if it reports an error, no table has changed.
\<close>

theorem approve_link_exact:
  assumes u: "unique_key im_id (is_imports s)" "unique_key ml_id (is_locations s)"
    and p: "row_at im_id pid (is_imports s) = Some p" "im_status p = PROPOSED"
    and r: "approve_link now uuid pid actor reason s = (s', r)"
  shows "(case r of
      Inl e \<Rightarrow> s' = s
    | Inr d \<Rightarrow> \<exists>item loc l. row_at it_id (im_source_item_id p) (ms_items (is_tables s)) = Some item
        \<and> it_content_version item = im_content_version p \<and> it_sha256 item = Some (im_source_sha256 p)
        \<and> it_size item = im_source_size p \<and> it_observation_state item = VERIFIED
        \<and> id_location_id d = Some loc \<and> row_at ml_id loc (is_locations s') = Some l
        \<and> ml_media_id l = im_target_media_id p \<and> ml_sha256 l = im_source_sha256 p
        \<and> (\<exists>p'. row_at im_id pid (is_imports s') = Some p' \<and> im_status p' = APPROVED
             \<and> im_applied_location_id p' = Some loc \<and> im_decision_actor_id p' = Some actor))"
  using u(1)
proof (cases rule: approve_link_cases [of s now pid actor reason uuid])
  case (lost r)
  then show ?thesis using claim_succeeds [OF u(1) p] by blast
next
  case (refused e)
  then show ?thesis using r by simp
next
  case (linked p0 s1 item src s2 loc d)
  have p0: "p0 = p" using linked(1) p(1) by simp
  have l1: "is_locations s1 = is_locations s" "is_imports s1
      = map (\<lambda>q. if claimable pid q then decide now APPROVED actor reason q else q) (is_imports s)"
    using linked(3) by (auto simp: claim_proposal_def)
  obtain dg l where l: "it_sha256 item = Some dg" "it_observation_state item = VERIFIED"
      "row_at ml_id loc (is_locations s2) = Some l" "ml_media_id l = im_target_media_id p0" "ml_sha256 l = dg"
    using link_location [OF _ linked(6)] u(2) l1(1) by auto
  have i: "row_at it_id (im_source_item_id p) (ms_items (is_tables s)) = Some item"
    using linked(4) by (auto simp: load_item_def p0 split: option.splits)
  have v: "im_source_sha256 p = dg" "it_content_version item = im_content_version p" "it_size item = im_source_size p"
    using linked(5) l(1) by (auto simp: verify_proposal_identity_def p0 split: if_splits)
  have "im_id p = pid" using p(1) row_at_iff [OF u(1)] by auto
  then have "row_at im_id pid (is_imports s') = Some (linked_proposal now actor reason loc p)"
    using linked(7) r l1(2) p p0
    by (auto simp: update_row_def row_at_map claimable_def)
  then show ?thesis using linked(7,8) r l i v p0 by auto
qed

theorem approve_link_exact_witness:
  "\<exists>s' d loc l. approve_link 9 [1] [112] [97] None (example_imports example_proposal) = (s', Inr d)
     \<and> id_location_id d = Some loc \<and> row_at ml_id loc (is_locations s') = Some l
     \<and> ml_media_id l = [109] \<and> ml_sha256 l = [100]"
proof -
  obtain s' d where r: "approve_link 9 [1] [112] [97] None (example_imports example_proposal) = (s', Inr d)"
    using example_approved by blast
  show ?thesis
    using approve_link_exact [OF example_import_rows(1,2) example_import_rows(3) _ r] r by auto
qed

section \<open>Staging after a rejection\<close>

lemma row_at_claimed:
  "row_at im_id pid (is_imports (fst (claim_proposal now pid st a r s)))
     = map_option (\<lambda>p. if claimable pid p then decide now st a r p else p) (row_at im_id pid (is_imports s))"
  by (simp add: claim_proposal_def row_at_map)

lemma claim_frame [simp]:
  "is_tables (fst (claim_proposal now pid st a r s)) = is_tables s"
  "materializing (fst (claim_proposal now pid st a r s)) = materializing s"
  by (simp_all add: claim_proposal_def)

definition reopened :: "int \<Rightarrow> remote_source_import \<Rightarrow> remote_source_import" where
  "reopened now p = p\<lparr>im_status := PROPOSED, im_decision_actor_id := None, im_decision_at := None,
     im_decision_reason := None, im_updated_at := now\<rparr>"

text \<open>What the three steps a materialization begins and fails with do to the proposal's row.\<close>

lemma materialize_claim_row:
  assumes "row_at im_id pid (is_imports s) = Some p" "im_id p = pid" "im_status p = PROPOSED \<or> unfinished p"
    and "im_applied_location_id p = None" "im_staged_item_id p = None"
    and q_def: "q = (if im_status p = PROPOSED then decide now APPROVED a r p else p)"
  shows "snd (materialize_claim now pid a r s) = Inr (Inr q)"
    "row_at im_id pid (is_imports (fst (materialize_claim now pid a r s))) = Some q"
    "is_tables (fst (materialize_claim now pid a r s)) = is_tables s"
    "materializing (fst (materialize_claim now pid a r s)) = materializing s"
proof -
  obtain s1 claimed where c: "claim_proposal now pid APPROVED a r s = (s1, claimed)" by (metis surj_pair)
  have "row_at im_id pid (is_imports s1) = Some q"
    using row_at_claimed [of pid now APPROVED a r s] assms(1-3) by (auto simp: c claimable_def q_def unfinished_def)
  moreover have "unfinished q" using assms(3-5) by (auto simp: q_def unfinished_def)
  moreover have "is_tables s1 = is_tables s" "materializing s1 = materializing s"
    using claim_frame [of now pid APPROVED a r s] by (simp_all add: c)
  ultimately show "snd (materialize_claim now pid a r s) = Inr (Inr q)"
    "row_at im_id pid (is_imports (fst (materialize_claim now pid a r s))) = Some q"
    "is_tables (fst (materialize_claim now pid a r s)) = is_tables s"
    "materializing (fst (materialize_claim now pid a r s)) = materializing s"
    by (simp_all add: materialize_claim_def c load_proposal_def)
qed

lemma failed_materialization_row:
  assumes "row_at im_id pid (is_imports s) = Some p" "im_id p = pid" "unfinished p" "pid \<notin> set (materializing s)"
    and "s' = guard_drop pid (fst (materialize_record now pid (Inl e) (fst (materialize_enter pid s))))"
  shows "row_at im_id pid (is_imports s') = Some (reopened now p)" "is_tables s' = is_tables s"
    "pid \<notin> set (materializing s')"
  using assms
  by (simp_all add: guard_drop_def materialize_record_def release_claim_def materialize_enter_def row_at_map reopened_def)

text \<open>
  C40. Bytes can be staged for a rejected proposal. Two requests approve a proposal by staging: the
  first claims it, the second reads it as claimed but unfinished and goes on; the first fails
  and hands the proposal back; it is rejected; then the second enters, streams and stages what
  the proposal named, and reports success with a proposal that is rejected and has no staged
  item.
\<close>

theorem staged_after_rejection:
  assumes u: "unique_key im_id (is_imports s)" and p: "row_at im_id pid (is_imports s) = Some p"
    and open_p: "im_status p = PROPOSED" "im_applied_location_id p = None" "im_staged_item_id p = None"
    and idle: "pid \<notin> set (materializing s)" and admin: "enforce_admin user = Inr ()"
    and s1: "s1 = fst (materialize_claim now pid a ra s)" and s2: "s2 = fst (materialize_claim now pid b rb s1)"
    and s3: "s3 = guard_drop pid (fst (materialize_record now pid (Inl e) (fst (materialize_enter pid s2))))"
    and s4: "s4 = fst (reject_import now user pid rc s3)" and s5: "s5 = fst (materialize_enter pid s4)"
    and bytes: "materialize_bytes sha body stage req p s = Inr (staged, dup)"
  shows "\<exists>q d. snd (materialize_claim now pid b rb s1) = Inr (Inr q)
    \<and> (\<exists>pr. snd (reject_import now user pid rc s3) = Inr pr \<and> im_status pr = REJECTED)
    \<and> snd (materialize_enter pid s4) = Inr ()
    \<and> materialize_bytes sha body stage req q s5 = Inr (staged, dup)
    \<and> snd (materialize_record now pid (Inr (staged, dup)) s5) = Inr d
    \<and> id_staged_item_id d = Some staged \<and> im_status (id_proposal d) = REJECTED
    \<and> im_staged_item_id (id_proposal d) = None"
proof -
  let ?q = "decide now APPROVED a ra p"
  let ?r = "decide now REJECTED (au_id user) rc (reopened now ?q)"
  have id: "im_id p = pid" using p row_at_iff [OF u] by auto
  have un: "unfinished ?q" using open_p by (simp add: unfinished_def)
  note q1 = materialize_claim_row [OF p id _ open_p(2,3) refl, of now a ra, folded s1]
  note q2 = materialize_claim_row [OF _ _ _ _ _ refl, of pid s1 ?q now b rb, folded s2]
  have c: "snd (materialize_claim now pid b rb s1) = Inr (Inr ?q)" "row_at im_id pid (is_imports s2) = Some ?q"
    "is_tables s2 = is_tables s" "materializing s2 = materializing s"
    using q1 q2 open_p id un by simp_all
  note f = failed_materialization_row [OF c(2) _ un _ s3]
  have o: "row_at im_id pid (is_imports s3) = Some (reopened now ?q)" "is_tables s3 = is_tables s"
    "pid \<notin> set (materializing s3)"
    using f c idle id by simp_all
  have ok: "claimable pid (reopened now ?q)" using id by (simp add: claimable_def reopened_def)
  obtain s4' cl where cl: "claim_proposal now pid REJECTED (au_id user) rc s3 = (s4', cl)" by (metis surj_pair)
  have r: "row_at im_id pid (is_imports s4) = Some ?r" "is_tables s4 = is_tables s" "pid \<notin> set (materializing s4)"
    "snd (reject_import now user pid rc s3) = Inr ?r"
    using row_at_claimed [of pid now REJECTED "au_id user" rc s3] claim_frame [of now pid REJECTED "au_id user" rc s3]
      o ok admin by (simp_all add: s4 reject_import_def cl load_proposal_def)
  have e5: "s5 = s4\<lparr>materializing := pid # materializing s4\<rparr>" "snd (materialize_enter pid s4) = Inr ()"
    using r(3) by (simp_all add: s5 materialize_enter_def)
  have b5: "materialize_bytes sha body stage req ?q s5 = Inr (staged, dup)"
    unfolding bytes [symmetric] materialize_bytes_def by (simp add: e5(1) r(2) cong: if_cong)
  have "row_at im_id pid (map (\<lambda>p. if im_id p = pid \<and> im_status p = APPROVED
      then p\<lparr>im_staged_item_id := Some staged, im_updated_at := now\<rparr> else p) (is_imports s5)) = Some ?r"
    using r(1) by (simp add: e5(1) row_at_map)
  then show ?thesis
    using c(1) r(4) e5(2) b5 open_p(3)
    by (simp add: materialize_record_def load_proposal_def reopened_def)
qed

theorem staged_after_rejection_witness:
  "\<exists>s5 d. snd (materialize_record 9 [112] (Inr ([115], False)) s5) = Inr d
     \<and> id_staged_item_id d = Some [115] \<and> im_status (id_proposal d) = REJECTED"
proof -
  let ?req = "\<lparr>mr_library_id = [108], mr_filename = None, mr_idempotency_key = None\<rparr>"
  have "materialize_verified_item (\<lambda>_. [100]) (\<lambda>_. Inr [Some [1, 2], Some [3, 4]]) (\<lambda>_ _ _ _. Inr ([115], False)) ?req
      verified_row = Inr ([115], False)"
    by (simp add: materialize_verified_item_def verified_row_def example_row_def new_item_def saturating_add_u64_def
        U64_MAX_def)
  then have b: "materialize_bytes (\<lambda>_. [100]) (\<lambda>_. Inr [Some [1, 2], Some [3, 4]]) (\<lambda>_ _ _ _. Inr ([115], False)) ?req
      example_proposal (example_imports example_proposal) = Inr ([115], False)"
    by (simp add: materialize_bytes_def example_load [simplified] example_identity example_source_def)
  have i: "[112] \<notin> set (materializing (example_imports example_proposal))" by (simp add: example_imports_def)
  have a: "enforce_admin example_admin = Inr ()" by (simp add: enforce_admin_def example_admin_def)
  show ?thesis
    using staged_after_rejection [where now = 9 and a = "[97]" and ra = None and b = "[98]" and rb = None
        and rc = None and e = DbErr, OF example_import_rows(1) example_import_rows(3) _ _ _ i a refl refl refl refl refl b]
    by (simp only: example_proposal_simps) blast
qed

end
