(* ===== verification/Spec2Isabelle.thy ===== *)
theory Spec2Isabelle
  imports Sequence Worker_Jobs Sync_Map Job_Runtime Reading_Heads Rate_Limit Device_Properties Source_Hub_Properties Source_Catalog_Properties
    Source_Manifest_Properties Source_Imports_Properties
begin

text \<open>
  Coppice is a media server written in Rust. This development models the parts of it that keep
  state under concurrency or take decisions about access, and proves what those parts promise.

  \<^bold>\<open>The parts and how they interact.\<close> The server keeps its state in database tables. Clients
  reach it through middlewares: \<^verbatim>\<open>apps/server/src/middleware/rate_limit.rs\<close> limits requests per
  client address and per credential, and \<^verbatim>\<open>middleware/auth.rs\<close> turns an API key into a user, a
  device and a library scope with the help of the device registry, \<^verbatim>\<open>crates/devices\<close>. Progress
  reports become rows of the reading state, \<^verbatim>\<open>crates/models/src/services/reading_state.rs\<close>.
  Background work inside the process goes through the job runtime, \<^verbatim>\<open>crates/jobs\<close>. Heavy work is
  a row of the table \<^verbatim>\<open>worker_jobs\<close> that another process may claim over a socket,
  \<^verbatim>\<open>crates/worker/src/service.rs\<close> and \<^verbatim>\<open>hub.rs\<close>. A source worker offers the files of another
  machine: it scans its roots into a catalog (\<^verbatim>\<open>source_catalog.rs\<close>), sends the catalog as a
  manifest (\<^verbatim>\<open>source_client.rs\<close>) that the server reconciles with its rows
  (\<^verbatim>\<open>apps/server/src/routers/api/v2/source_workers.rs\<close>), and serves bytes under one-use grants
  that \<^verbatim>\<open>source_hub.rs\<close> issues. The same router verifies items and decides import proposals.

  \<^bold>\<open>Conventions.\<close> A struct is a record, an enumeration a datatype, \<open>Result\<close> the sum type
  \<open>result\<close> with the error on the left. Text whose characters matter is a list of Unicode scalar
  values, \<open>ustr\<close>; identifiers that are only compared are \<open>string\<close>. An association list with
  distinct keys is a hash map. Clock readings, random identifiers, hashes, answers of the file
  system and functions of third-party packages are arguments; where a theorem relies on one of
  them, the law is a hypothesis. A database transaction, or what a task does under one lock, is
  one step; an operation with several of these is several definitions and their composition,
  and the step relations let other operations come between them.

  \<^bold>\<open>Foundations.\<close>
  \<^item> \<open>Prelude\<close>: results, strings, arithmetic, and lemmas every component uses. \<open>F64\<close>: the
    floating-point numbers of Rust. \<open>Json\<close>: the values of serde_json.
  \<^item> \<open>Guarded_Write\<close>: the interface of one conditional update, implemented twice in
    \<open>Worker_Store\<close>. \<open>Keyed_Table\<close>: the interface of a table with a primary key, implemented for
    devices, credentials, telemetry and entitlement deltas (\<open>Devices\<close>), heads and provenance
    events (\<open>Reading_Heads\<close>), sources and items (\<open>Source_Manifest_Properties\<close>).

  \<^bold>\<open>Sequence numbers.\<close> \<open>Sequence\<close> models \<^verbatim>\<open>crates/scanner/src/sequence.rs\<close>, from the characters of
  a file name to the gaps of a folder. Its lemmas show that the scanners end and stay within
  their text, and that ranges, refused spans and gaps are those of the covered integers.

  \<^bold>\<open>Compute workers.\<close> \<open>Worker_Kind\<close> (\<^verbatim>\<open>kind.rs\<close>) matches capabilities. \<open>Worker_Hub\<close> (\<^verbatim>\<open>protocol.rs\<close>,
  \<^verbatim>\<open>hub.rs\<close>) is the registry of sockets and implements \<open>connection_registry\<close>: connection
  numbers are never issued twice and a late detach does not remove the connection that replaced
  it. \<open>Worker_Store\<close> is the table and its two guarded
  writes. \<open>Worker_Jobs\<close> is the service: queries, dispatch, local runs, the claim sweep, frames
  and cancellation. Proved over every history: terminal rows never change, a claimed row keeps
  its holder, the row invariant holds. A cancellation that loses against a result removes the
  output. \<open>Sync_Map\<close> (\<^verbatim>\<open>alignment.rs\<close>) is the validator of alignment artifacts, equivalent to a
  declarative specification.

  \<^bold>\<open>Jobs.\<close> \<open>Job_Queue\<close> (\<^verbatim>\<open>crates/jobs/src/queue.rs\<close>) implements \<open>job_counters\<close>: below
  the bound of \<open>i32\<close> the counters by kind are exactly the jobs queued and running. \<open>Job_Runtime\<close> (\<^verbatim>\<open>worker.rs\<close>, \<^verbatim>\<open>lifecycle.rs\<close>, \<^verbatim>\<open>context.rs\<close>, \<^verbatim>\<open>inline_executor.rs\<close>)
  runs one job; the methods of the job and the services of the host are arguments. A dispatched
  job settles once and releases what it holds, and the task loop returns.

  \<^bold>\<open>Reading state.\<close> \<open>Reading_State\<close> (\<^verbatim>\<open>crates/models/src/domain/reading_state.rs\<close>) projects an
  update, decides conflicts and converts positions between editions. \<open>Reading_Heads\<close> is the
  service over heads and provenance log: heads agree with the log, completion is sticky, an
  update is refused exactly when it is stale and behind. Suffix matching of locators confuses
  items whose names end alike.

  \<^bold>\<open>Requests and devices.\<close> \<open>Http\<close> (\<^verbatim>\<open>middleware/host.rs\<close>) finds the client's address. \<open>Rate_Limit\<close>
  classifies requests, caches verified credentials and bounds streams; a refusal of the limiter
  counts as verification. \<open>Permissions\<close> models the permission set and its checks.
  \<open>Device_Credentials\<close>, \<open>Devices\<close>, \<open>Device_Steps\<close> and \<open>Device_Properties\<close> model the registry and the
  API-key requests: tables stay well formed, a revoked device stays out, telemetry never
  regresses, scopes are in force at once; and three ways around revocation, scope and locking.

  \<^bold>\<open>Source workers.\<close> \<open>Source_Protocol\<close> (\<^verbatim>\<open>source_protocol.rs\<close>) has frames and limits. \<open>Source_Hub\<close>,
  \<open>Source_Hub_Steps\<close> and \<open>Source_Hub_Properties\<close> (\<^verbatim>\<open>source_hub.rs\<close>) show that a tunnel carries what
  its grant allows, that a grant is used once and that a waiter is woken, and exhibit three
  interleavings that lose a read. \<open>Source_Catalog\<close> and \<open>Source_Catalog_Properties\<close>
  (\<^verbatim>\<open>source_catalog.rs\<close>) show that a grant stays below its root, that scans keep ids distinct and
  that reads under a digest have it. \<open>Source_Manifest\<close> and \<open>Source_Manifest_Properties\<close> model
  \<^verbatim>\<open>manifest_chunks\<close> of \<^verbatim>\<open>source_client.rs\<close> and \<^verbatim>\<open>register_roots\<close>, \<^verbatim>\<open>reconcile_manifest\<close> and
  \<^verbatim>\<open>verify_item\<close> of \<^verbatim>\<open>source_workers.rs\<close>: a complete delivery makes the server mirror the catalog,
  but two scans without a delivery block the root for good, and a verification can be stored on
  a version it has not read. \<open>Source_Imports\<close> and \<open>Source_Imports_Properties\<close> model the proposals of
  the same router: decisions are final and an approved link is exact, but overlapping
  materializations can stage a rejected proposal.

  \<^bold>\<open>Bounds and fuel.\<close> A \<open>u64\<close> is a natural number with \<open>U64_MAX\<close> where the code checks or saturates,
  and casts to \<open>i64\<close> wrap as in \<open>i64_of_u64\<close>. The counters of \<open>Job_Queue\<close> saturate at \<open>i32\<close>. Integers
  that are only compared, or that stay far from their bounds, are \<open>int\<close>. The only fuel is that of
  \<open>run_tasks\<close>, because a job may spawn tasks for ever: fuel above the weight of the tasks is proved
  enough when every task outweighs those it spawns, and more fuel never changes an answer.
  \<open>wait_loop\<close> runs against a schedule of wake-ups and has no value when the schedule ends first;
  it is proved to return once the deadline has ended a sleep. All other loops are structural or have a termination proof.

  \<^bold>\<open>Not modelled.\<close> In the modelled files: log lines, serde's text formats, failing database
  calls, the session, Basic, bearer-token and single-sign-on branches of \<^verbatim>\<open>auth.rs\<close>, the
  scheme and host of \<^verbatim>\<open>host.rs\<close>, the endpoint lists of the device registry, the start and stop of
  the job executor, and for import proposals the search for candidates, the list endpoints and
  \<^verbatim>\<open>open_media_transfer\<close>. The rest of the repository falls in two groups. Input and output around
  external systems has little to state: the job scheduler's timers, media formats, the
  worker's own process, mail, provider clients, process set-up, migrations and the web
  applications. The others could be modelled in the same way and are left out for size: ingest,
  the scan planner, the GraphQL resolvers, the compatibility protocols (Komga, Kavita,
  Audiobookshelf, Komf, Kobo, KOReader, OPDS), Liseur sync, annotation export, collections,
  library lifecycle, CrossPoint and Kindle delivery, notification routing, the maintenance tools
  and the pagination of \<^verbatim>\<open>crates/api-types\<close>.
\<close>

end
